(* ===== verification/Prelude.thy ===== *)
theory Prelude
  imports Main "HOL-Library.Word" "HOL-Library.AList" "HOL-Library.Multiset"
begin

text \<open>
  Shared vocabulary of the development: the Go types the node is written with (byte
  slices, unsigned 64-bit integers, maps), big-endian byte strings, decimal numerals,
  substring search, and the generic lemmas on them that the component theories use.

  Go's \<open>[]byte\<close> and \<open>string\<close> are both byte sequences, and HOL's \<open>char\<close> has exactly
  256 values, so both are lists of characters here.  A Go map is an association list
  with distinct keys: its order stands for the (unspecified) iteration order of Go's
  \<open>range\<close>, so a statement about every well-formed list covers every iteration order.
\<close>

section \<open>Types\<close>

type_synonym bytes = string
type_synonym u64 = "64 word"
type_synonym i64 = "64 word"
type_synonym hash = "256 word"
type_synonym address = "160 word"
type_synonym ('k, 'v) gomap = "('k \<times> 'v) list"

named_theorems go_map \<open>facts on maps kept as association lists\<close>
named_theorems codec \<open>decoding inverts encoding\<close>
named_theorems words \<open>word arithmetic moved to natural numbers\<close>

section \<open>Go maps\<close>

abbreviation go_get :: "('k, 'v) gomap \<Rightarrow> 'k \<Rightarrow> 'v option" where
  "go_get m k \<equiv> map_of m k"

abbreviation go_set :: "('k, 'v) gomap \<Rightarrow> 'k \<Rightarrow> 'v \<Rightarrow> ('k, 'v) gomap" where
  "go_set m k v \<equiv> AList.update k v m"

abbreviation go_delete :: "('k, 'v) gomap \<Rightarrow> 'k \<Rightarrow> ('k, 'v) gomap" where
  "go_delete m k \<equiv> AList.delete k m"

definition go_wf :: "('k, 'v) gomap \<Rightarrow> bool" where
  "go_wf m \<longleftrightarrow> distinct (map fst m)"

lemma go_wf_Nil [simp]: "go_wf []"
  by (simp add: go_wf_def)

lemma go_wf_set [simp, go_map]: "go_wf m \<Longrightarrow> go_wf (go_set m k v)"
  by (simp add: go_wf_def distinct_update)

lemma go_wf_delete [simp, go_map]: "go_wf m \<Longrightarrow> go_wf (go_delete m k)"
  by (simp add: go_wf_def distinct_delete)

lemma go_get_set [simp, go_map]: "go_get (go_set m k v) j = (if j = k then Some v else go_get m j)"
  by (simp add: update_conv')

lemma go_get_delete [simp, go_map]: "go_get (go_delete m k) j = (if j = k then None else go_get m j)"
  by (simp add: delete_conv')

lemma length_go_set:
  "length (go_set m k v) = (if go_get m k = None then Suc (length m) else length m)"
  by (induction m) auto

lemma set_go_set: "set (go_set m k v) \<subseteq> insert (k, v) (set m)"
  by (induction m) auto

lemma map_of_rev_distinct: "distinct (map fst m) \<Longrightarrow> map_of (rev m) = map_of m"
  by (subst map_of_inject_set) (simp_all add: rev_map [symmetric])

lemma go_wf_mem: "go_wf m \<Longrightarrow> (k, v) \<in> set m \<longleftrightarrow> go_get m k = Some v"
  by (auto simp: go_wf_def)

lemma set_go_delete: "set (go_delete m k) = {p \<in> set m. fst p \<noteq> k}"
  by (auto simp: AList.delete_eq)

lemma length_go_delete:
  "go_wf m \<Longrightarrow> length (go_delete m k) = (if go_get m k = None then length m else length m - 1)"
proof (induction m)
  case Nil
  then show ?case by simp
next
  case (Cons p m)
  then have wf: "go_wf m" and nk: "fst p \<notin> fst ` set m"
    by (auto simp: go_wf_def)
  show ?case
  proof (cases "fst p = k")
    case True
    with nk have "go_get m k = None" by (simp add: map_of_eq_None_iff)
    with Cons.IH [OF wf] True show ?thesis by (cases p) simp
  next
    case False
    have "go_get m k \<noteq> None \<Longrightarrow> m \<noteq> []" by auto
    with Cons.IH [OF wf] False show ?thesis
      by (cases p) (auto simp: Suc_diff_Suc)
  qed
qed

lemma length_go_map_card: "go_wf m \<Longrightarrow> length m = card (dom (map_of m))"
  by (metis distinct_card dom_map_of_conv_image_fst go_wf_def length_map list.set_map)


text \<open>Copying a map entry by entry, as the loops \<^verbatim>\<open>for k, v := range m { c[k] = v }\<close> do.\<close>

definition go_copy :: "('k, 'v) gomap \<Rightarrow> ('k, 'v) gomap" where
  "go_copy m = foldl (\<lambda>c (k, v). go_set c k v) [] m"

lemma go_wf_foldl_set: "go_wf c \<Longrightarrow> go_wf (foldl (\<lambda>c (k, v). go_set c k v) c m)"
  by (induction m arbitrary: c) auto

lemma map_of_foldl_set:
  "go_wf m \<Longrightarrow> map_of (foldl (\<lambda>c (k, v). go_set c k v) c m) = map_of c ++ map_of m"
proof (induction m arbitrary: c)
  case Nil
  then show ?case by simp
next
  case (Cons p m)
  obtain k v where p: "p = (k, v)" by (cases p)
  have "go_wf m" and nk: "map_of m k = None"
    using Cons.prems by (auto simp: go_wf_def p map_of_eq_None_iff)
  then have "map_of (foldl (\<lambda>c (k, v). go_set c k v) (go_set c k v) m) = map_of (go_set c k v) ++ map_of m"
    by (intro Cons.IH)
  with nk show ?case by (auto simp: p fun_eq_iff map_add_def split: option.split)
qed

lemma go_wf_copy [simp, go_map]: "go_wf (go_copy m)"
  by (simp add: go_copy_def go_wf_foldl_set)

lemma go_get_copy [simp, go_map]: "go_wf m \<Longrightarrow> map_of (go_copy m) = map_of m"
  by (simp add: go_copy_def map_of_foldl_set)

section \<open>Big-endian byte strings\<close>

text \<open>
  \<open>[20]byte\<close> addresses, \<open>[32]byte\<close> hashes and \<open>binary.BigEndian.PutUint64\<close>: a word of
  \<open>8 * n\<close> bits is the array of its \<open>n\<close> bytes, most significant byte first.
\<close>

fun be_bytes :: "nat \<Rightarrow> nat \<Rightarrow> bytes" where
  "be_bytes 0 x = []"
| "be_bytes (Suc n) x = be_bytes n (x div 256) @ [char_of x]"

definition be_nat :: "bytes \<Rightarrow> nat" where
  "be_nat bs = foldl (\<lambda>a c. a * 256 + of_char c) 0 bs"

lemma be_nat_Nil [simp]: "be_nat [] = 0"
  by (simp add: be_nat_def)

lemma be_nat_snoc [simp]: "be_nat (bs @ [c]) = be_nat bs * 256 + of_char c"
  by (simp add: be_nat_def)

lemma length_be_bytes [simp]: "length (be_bytes n x) = n"
  by (induction n arbitrary: x) auto

lemma of_char_less [simp]: "of_char c < (256 :: nat)"
  by (metis char_of_mod_256 less_irrefl mod_less_divisor of_char_mod_256 zero_less_numeral)

lemma be_nat_be_bytes: "be_nat (be_bytes n x) = x mod 256 ^ n"
proof (induction n arbitrary: x)
  case 0
  then show ?case by simp
next
  case (Suc n)
  have "be_nat (be_bytes (Suc n) x) = (x div 256 mod 256 ^ n) * 256 + x mod 256"
    by (simp add: Suc.IH)
  also have "\<dots> = x mod (256 * 256 ^ n)"
    by (metis mod_mult2_eq mult.commute add.commute)
  finally show ?case by simp
qed

lemma be_nat_less: "be_nat bs < 256 ^ length bs"
proof (induction bs rule: rev_induct)
  case Nil
  then show ?case by simp
next
  case (snoc c bs)
  have "be_nat bs * 256 + of_char c < (be_nat bs + 1) * 256" by simp
  also have "\<dots> \<le> 256 ^ length bs * 256"
    using snoc by (intro mult_right_mono) auto
  finally show ?case by (simp add: mult.commute)
qed

lemma char_of_low_byte [simp]: "char_of (n * 256 + of_char c :: nat) = c"
  by (metis char_of_char char_of_mod_256 mod_mult_self3)

lemma be_bytes_be_nat: "be_bytes (length bs) (be_nat bs) = bs"
  by (induction bs rule: rev_induct) auto

lemma be_nat_Cons: "be_nat (c # bs) = of_char c * 256 ^ length bs + be_nat bs"
  by (induction bs rule: rev_induct)
    (auto simp: be_nat_def algebra_simps)

lemma be_bytes_inject:
  "x < 256 ^ n \<Longrightarrow> y < 256 ^ n \<Longrightarrow> be_bytes n x = be_bytes n y \<longleftrightarrow> x = y"
  by (metis be_nat_be_bytes mod_less)

text \<open>\<open>bytes.Compare(a, b) < 0\<close>: lexicographic order of the bytes.\<close>

fun bytes_less :: "bytes \<Rightarrow> bytes \<Rightarrow> bool" where
  "bytes_less as [] = False"
| "bytes_less [] (b # bs) = True"
| "bytes_less (a # as) (b # bs) =
     (if a = b then bytes_less as bs else (of_char a :: nat) < of_char b)"

lemma bytes_less_be_nat:
  "length as = length bs \<Longrightarrow> bytes_less as bs \<longleftrightarrow> be_nat as < be_nat bs"
proof (induction as bs rule: list_induct2)
  case Nil
  then show ?case by simp
next
  case (Cons a as b bs)
  have bound: "be_nat as < 256 ^ length bs" "be_nat bs < 256 ^ length bs"
    using be_nat_less [of as] be_nat_less [of bs] Cons.hyps by simp_all
  show ?case
  proof (cases "a = b")
    case True
    then show ?thesis using Cons by (simp add: be_nat_Cons)
  next
    case False
    then have ne: "(of_char a :: nat) \<noteq> of_char b" by simp
    have less: "x * 256 ^ length bs + p < y * 256 ^ length bs + q"
      if "x < y" "p < 256 ^ length bs" for x y p q :: nat
    proof -
      have "x * 256 ^ length bs + p < Suc x * 256 ^ length bs" using that by simp
      also have "\<dots> \<le> y * 256 ^ length bs" using that by (intro mult_right_mono) auto
      finally show ?thesis by simp
    qed
    consider "(of_char a :: nat) < of_char b" | "(of_char b :: nat) < of_char a"
      using ne by linarith
    then show ?thesis
    proof cases
      case 1
      then show ?thesis using less [OF 1 bound(1)] Cons.hyps False
        by (simp add: be_nat_Cons)
    next
      case 2
      then show ?thesis using less [OF 2 bound(2), of "be_nat as"] Cons.hyps False
        by (simp add: be_nat_Cons)
    qed
  qed
qed

section \<open>Words\<close>

lemma unat_add_no_wrap [words]:
  "unat (a :: 'a :: len word) + unat b < 2 ^ LENGTH('a) \<Longrightarrow> unat (a + b) = unat a + unat b"
  by (simp add: unat_word_ariths)

lemma unat_sub_no_wrap [words]: "b \<le> a \<Longrightarrow> unat (a - b) = unat a - unat b"
  by (rule unat_sub)

lemma unat_Suc_less [words]:
  assumes "(b :: u64) < l" shows "unat (b + 1) = Suc (unat b)"
proof -
  have "unat b < unat l" using assms by (simp add: word_less_nat_alt)
  then have "unat b + unat (1 :: u64) < 2 ^ LENGTH(64)" using unsigned_less [of l, where ?'a = nat] by simp
  then show ?thesis by (simp only: unat_add_no_wrap) simp
qed

lemma word_Suc_neq [simp]: "(w :: u64) + 1 \<noteq> w"
  by simp

section \<open>Substrings\<close>

text \<open>\<open>strings.Contains\<close> and \<open>strings.HasPrefix\<close>.\<close>

definition has_prefix :: "string \<Rightarrow> string \<Rightarrow> bool" where
  "has_prefix s p \<longleftrightarrow> take (length p) s = p"

fun contains :: "string \<Rightarrow> string \<Rightarrow> bool" where
  "contains [] p = (p = [])"
| "contains (c # s) p = (has_prefix (c # s) p \<or> contains s p)"

lemma has_prefix_append [simp]: "has_prefix (p @ s) p"
  by (simp add: has_prefix_def)

lemma contains_prefix: "has_prefix s p \<Longrightarrow> contains s p"
  by (cases s) (auto simp: has_prefix_def)

lemma contains_append: "contains s p \<Longrightarrow> contains (t @ s) p"
  by (induction t) auto

lemma has_prefix_iff: "has_prefix s p \<longleftrightarrow> (\<exists>r. s = p @ r)"
  by (metis append_take_drop_id append_eq_conv_conj has_prefix_def)

end
