(* ===== verification/Json.thy ===== *)
theory Json
  imports Prelude
begin

text \<open>
  The part of Go's \<^verbatim>\<open>encoding/json\<close> and \<^verbatim>\<open>encoding/base64\<close> that the node relies on: the
  text \<^verbatim>\<open>json.Marshal\<close> writes for the values its structs are made of (integers, booleans,
  strings, byte arrays, nested structs and lists), and a reader for it.  The component
  theories store and hash this very text, as the code does.  The main fact is that the
  reader inverts the writer (\<open>parse_print_json\<close>, \<open>base64_decode_encode\<close>).

  Numbers are integers (no struct of the node holds a float).  Strings are bytes: those that are not
  UTF-8, which Go replaces by U+FFFD in both directions, are kept, and U+2028 and U+2029 are
  not escaped.  Of a member that an object has twice the last value that is not \<^verbatim>\<open>null\<close> counts, where
  Go merges structs and lets a later \<^verbatim>\<open>null\<close> reset a pointer.
\<close>

section \<open>Decimal numerals\<close>

definition digit_char :: "nat \<Rightarrow> char" where
  "digit_char d = char_of (48 + d)"

definition is_digit :: "char \<Rightarrow> bool" where
  "is_digit c \<longleftrightarrow> 48 \<le> (of_char c :: nat) \<and> (of_char c :: nat) \<le> 57"

definition digit_val :: "char \<Rightarrow> nat" where
  "digit_val c = of_char c - 48"

fun show_nat :: "nat \<Rightarrow> string" where
  "show_nat n = (if n < 10 then [digit_char n] else show_nat (n div 10) @ [digit_char (n mod 10)])"

declare show_nat.simps [simp del]

definition read_nat :: "string \<Rightarrow> nat" where
  "read_nat ds = foldl (\<lambda>a c. a * 10 + digit_val c) 0 ds"

lemma of_digit_char: "d < 10 \<Longrightarrow> of_char (digit_char d) = 48 + d"
  by (simp add: digit_char_def)

lemma is_digit_digit_char [simp]: "d < 10 \<Longrightarrow> is_digit (digit_char d)"
  by (simp add: is_digit_def of_digit_char)

lemma digit_val_digit_char [simp]: "d < 10 \<Longrightarrow> digit_val (digit_char d) = d"
  by (simp add: digit_val_def of_digit_char)

lemma show_nat_digits: "c \<in> set (show_nat n) \<Longrightarrow> is_digit c"
proof (induction n rule: show_nat.induct)
  case (1 n)
  then show ?case
    by (cases "n < 10") (auto simp: show_nat.simps [of n])
qed

lemma show_nat_not_Nil [simp]: "show_nat n \<noteq> []"
  by (subst show_nat.simps) simp

lemma read_show_nat [simp]: "read_nat (show_nat n) = n"
proof (induction n rule: show_nat.induct)
  case (1 n)
  show ?case
  proof (cases "n < 10")
    case True
    then show ?thesis by (simp add: show_nat.simps [of n] read_nat_def)
  next
    case False
    then have "read_nat (show_nat n) = read_nat (show_nat (n div 10)) * 10 + n mod 10"
      by (simp add: show_nat.simps [of n] read_nat_def)
    with 1 False show ?thesis by simp
  qed
qed

lemma show_nat_inject [simp]: "show_nat m = show_nat n \<longleftrightarrow> m = n"
  by (metis read_show_nat)

lemma hd_show_nat: "10 \<le> n \<Longrightarrow> hd (show_nat n) \<noteq> digit_char 0"
proof (induction n rule: show_nat.induct)
  case (1 n)
  then have hd: "hd (show_nat n) = hd (show_nat (n div 10))"
    by (simp add: show_nat.simps [of n])
  show ?case
  proof (cases "n div 10 < 10")
    case True
    then have d: "show_nat (n div 10) = [digit_char (n div 10)]"
      by (simp add: show_nat.simps [of "n div 10"])
    have "digit_char (n div 10) \<noteq> digit_char 0"
      using True 1(2) by (metis digit_val_digit_char div_eq_0_iff not_less zero_less_numeral
          zero_neq_numeral)
    with hd d show ?thesis by simp
  next
    case False
    with 1 hd show ?thesis by simp
  qed
qed

lemma show_nat_canonical: "hd (show_nat n) = digit_char 0 \<Longrightarrow> length (show_nat n) = 1"
  using hd_show_nat [of n] by (cases "n < 10") (auto simp: show_nat.simps [of n])

section \<open>JSON values and their text\<close>

datatype json =
    JNull
  | JBool bool
  | JNum int
  | JStr string
  | JArr "json list"
  | JObj "(string \<times> json) list"

definition hex_digit :: "nat \<Rightarrow> char" where
  "hex_digit d = (if d < 10 then char_of (48 + d) else char_of (87 + d))"

definition hex_val :: "char \<Rightarrow> nat option" where
  "hex_val c = (let n = of_char c in
     if 48 \<le> n \<and> n \<le> 57 then Some (n - 48)
     else if 97 \<le> n \<and> n \<le> 102 then Some (n - 87)
     else if 65 \<le> n \<and> n \<le> 70 then Some (n - 55)
     else None)"

lemma hex_val_hex_digit [simp]: "d < 16 \<Longrightarrow> hex_val (hex_digit d) = Some d"
  by (auto simp: hex_val_def hex_digit_def Let_def)

text \<open>How \<^verbatim>\<open>json.Marshal\<close> writes one byte of a string (HTML characters are escaped).\<close>

definition escape_char :: "char \<Rightarrow> string" where
  "escape_char c = (let n = of_char c in
     if n = 34 then [CHR 0x5C, CHR 0x22]
     else if n = 92 then [CHR 0x5C, CHR 0x5C]
     else if n = 8 then [CHR 0x5C, CHR ''b'']
     else if n = 12 then [CHR 0x5C, CHR ''f'']
     else if n = 10 then [CHR 0x5C, CHR ''n'']
     else if n = 13 then [CHR 0x5C, CHR ''r'']
     else if n = 9 then [CHR 0x5C, CHR ''t'']
     else if n < 32 \<or> n = 60 \<or> n = 62 \<or> n = (38 :: nat)
       then [CHR 0x5C, CHR ''u'', CHR ''0'', CHR ''0'', hex_digit (n div 16), hex_digit (n mod 16)]
     else [c])"

definition print_string :: "string \<Rightarrow> string" where
  "print_string s = CHR 0x22 # concat (map escape_char s) @ [CHR 0x22]"

definition print_int :: "int \<Rightarrow> string" where
  "print_int i = (if i < 0 then CHR ''-'' # show_nat (nat (- i)) else show_nat (nat i))"

fun commas :: "string list \<Rightarrow> string" where
  "commas [] = []"
| "commas [s] = s"
| "commas (s # t # ss) = s @ CHR '','' # commas (t # ss)"

fun print_json :: "json \<Rightarrow> string" where
  "print_json JNull = ''null''"
| "print_json (JBool b) = (if b then ''true'' else ''false'')"
| "print_json (JNum i) = print_int i"
| "print_json (JStr s) = print_string s"
| "print_json (JArr vs) = CHR ''['' # commas (map print_json vs) @ [CHR '']'']"
| "print_json (JObj kvs) = CHR ''{'' #
     commas (map (\<lambda>(k, v). print_string k @ CHR '':'' # print_json v) kvs) @ [CHR ''}'']"

section \<open>Reading JSON text\<close>

definition is_ws :: "char \<Rightarrow> bool" where
  "is_ws c \<longleftrightarrow> c = CHR 0x20 \<or> c = CHR 0x09 \<or> c = CHR 0x0A \<or> c = CHR 0x0D"

definition skip_ws :: "string \<Rightarrow> string" where
  "skip_ws s = dropWhile is_ws s"

definition unescape :: "char \<Rightarrow> char option" where
  "unescape c =
     (if c = CHR 0x22 \<or> c = CHR 0x5C \<or> c = CHR 0x2F then Some c
      else if c = CHR ''b'' then Some (CHR 0x08)
      else if c = CHR ''f'' then Some (CHR 0x0C)
      else if c = CHR ''n'' then Some (CHR 0x0A)
      else if c = CHR ''r'' then Some (CHR 0x0D)
      else if c = CHR ''t'' then Some (CHR 0x09)
      else None)"

definition read_hex4 :: "string \<Rightarrow> nat option" where
  "read_hex4 s =
     (case map hex_val s of
        [Some a, Some b, Some c, Some d] \<Rightarrow> Some (((a * 16 + b) * 16 + c) * 16 + d)
      | _ \<Rightarrow> None)"

text \<open>The UTF-8 bytes of a code point, and the second half of a surrogate pair, as \<^verbatim>\<open>unquote\<close> reads them.\<close>

definition utf8 :: "nat \<Rightarrow> string" where
  "utf8 n =
     (if n < 128 then [char_of n]
      else if n < 2048 then [char_of (192 + n div 64), char_of (128 + n mod 64)]
      else if n < 65536 then [char_of (224 + n div 4096), char_of (128 + n div 64 mod 64), char_of (128 + n mod 64)]
      else [char_of (240 + n div 262144), char_of (128 + n div 4096 mod 64), char_of (128 + n div 64 mod 64),
            char_of (128 + n mod 64)])"

definition low_surrogate :: "string \<Rightarrow> nat option" where
  "low_surrogate s =
     (if take 2 s = [CHR 0x5C, CHR ''u''] then
        (case read_hex4 (take 4 (drop 2 s)) of
           Some m \<Rightarrow> if 56320 \<le> m \<and> m < 57344 then Some m else None
         | None \<Rightarrow> None)
      else None)"

fun parse_string :: "string \<Rightarrow> (string \<times> string) option" where
  "parse_string [] = None"
| "parse_string (c # s) =
     (if c = CHR 0x22 then Some ([], s)
      else if c = CHR 0x5C then
        (case s of
           [] \<Rightarrow> None
         | e # r \<Rightarrow>
             if e = CHR ''u'' then
               (case read_hex4 (take 4 r) of
                  None \<Rightarrow> None
                | Some n \<Rightarrow>
                    if n < 55296 \<or> 57344 \<le> n
                    then map_option (apfst (append (utf8 n))) (parse_string (drop 4 r))
                    else
                      (case (if n < 56320 then low_surrogate (drop 4 r) else None) of
                         Some m \<Rightarrow> map_option (apfst (append (utf8 (65536 + (n - 55296) * 1024 + (m - 56320)))))
                                     (parse_string (drop 10 r))
                       | None \<Rightarrow> map_option (apfst (append (utf8 65533))) (parse_string (drop 4 r))))
             else
               (case unescape e of
                  Some x \<Rightarrow> map_option (apfst (Cons x)) (parse_string r)
                | None \<Rightarrow> None))
      else if (of_char c :: nat) < 32 then None
      else map_option (apfst (Cons c)) (parse_string s))"

definition parse_digits :: "string \<Rightarrow> (nat \<times> string) option" where
  "parse_digits s = (let ds = takeWhile is_digit s in
     if ds = [] \<or> (hd ds = digit_char 0 \<and> length ds \<noteq> 1) then None
     else Some (read_nat ds, dropWhile is_digit s))"

definition parse_number :: "string \<Rightarrow> (json \<times> string) option" where
  "parse_number s =
     (case s of
        [] \<Rightarrow> None
      | c # r \<Rightarrow>
          if c = CHR ''-'' then map_option (\<lambda>(n, t). (JNum (- int n), t)) (parse_digits r)
          else map_option (\<lambda>(n, t). (JNum (int n), t)) (parse_digits s))"

definition parse_word :: "string \<Rightarrow> json \<Rightarrow> string \<Rightarrow> (json \<times> string) option" where
  "parse_word w v s = (if has_prefix s w then Some (v, drop (length w) s) else None)"

text \<open>The fuel bounds the nesting depth plus the number of elements; see \<open>parse_json\<close>.\<close>

fun parse_value :: "nat \<Rightarrow> string \<Rightarrow> (json \<times> string) option"
  and parse_elems :: "nat \<Rightarrow> string \<Rightarrow> (json list \<times> string) option"
  and parse_members :: "nat \<Rightarrow> string \<Rightarrow> ((string \<times> json) list \<times> string) option"
where
  "parse_value 0 s = None"
| "parse_value (Suc n) s =
     (case skip_ws s of
        [] \<Rightarrow> None
      | c # r \<Rightarrow>
          if c = CHR 0x22 then map_option (apfst JStr) (parse_string r)
          else if c = CHR ''['' then
            (case skip_ws r of
               [] \<Rightarrow> None
             | d # r' \<Rightarrow> if d = CHR '']'' then Some (JArr [], r')
                 else map_option (apfst JArr) (parse_elems n r))
          else if c = CHR ''{'' then
            (case skip_ws r of
               [] \<Rightarrow> None
             | d # r' \<Rightarrow> if d = CHR ''}'' then Some (JObj [], r')
                 else map_option (apfst JObj) (parse_members n r))
          else if c = CHR ''t'' then parse_word ''true'' (JBool True) (c # r)
          else if c = CHR ''f'' then parse_word ''false'' (JBool False) (c # r)
          else if c = CHR ''n'' then parse_word ''null'' JNull (c # r)
          else parse_number (c # r))"
| "parse_elems 0 s = None"
| "parse_elems (Suc n) s =
     (case parse_value n s of
        None \<Rightarrow> None
      | Some (v, r) \<Rightarrow>
          (case skip_ws r of
             [] \<Rightarrow> None
           | c # r' \<Rightarrow>
               if c = CHR '','' then map_option (apfst (Cons v)) (parse_elems n r')
               else if c = CHR '']'' then Some ([v], r')
               else None))"
| "parse_members 0 s = None"
| "parse_members (Suc n) s =
     (case skip_ws s of
        [] \<Rightarrow> None
      | q # t \<Rightarrow>
          if q \<noteq> CHR 0x22 then None
          else
            (case parse_string t of
               None \<Rightarrow> None
             | Some (k, t') \<Rightarrow>
                 (case skip_ws t' of
                    [] \<Rightarrow> None
                  | d # u \<Rightarrow>
                      if d \<noteq> CHR '':'' then None
                      else
                        (case parse_value n u of
                           None \<Rightarrow> None
                         | Some (v, r) \<Rightarrow>
                             (case skip_ws r of
                                [] \<Rightarrow> None
                              | c # r' \<Rightarrow>
                                  if c = CHR '','' then map_option (apfst (Cons (k, v))) (parse_members n r')
                                  else if c = CHR ''}'' then Some ([(k, v)], r')
                                  else None)))))"

text \<open>Every recursive call of the reader consumes at least one byte, so the length is enough fuel.\<close>

definition parse_json :: "string \<Rightarrow> json option" where
  "parse_json s =
     (case parse_value (Suc (length s)) s of
        Some (v, r) \<Rightarrow> if skip_ws r = [] then Some v else None
      | None \<Rightarrow> None)"

section \<open>The reader inverts the writer\<close>

lemma of_char_34: "of_char c = (34 :: nat) \<longleftrightarrow> c = CHR 0x22"
  and of_char_92: "of_char c = (92 :: nat) \<longleftrightarrow> c = CHR 0x5C"
  and of_char_8: "of_char c = (8 :: nat) \<longleftrightarrow> c = CHR 0x08"
  and of_char_12: "of_char c = (12 :: nat) \<longleftrightarrow> c = CHR 0x0C"
  and of_char_10: "of_char c = (10 :: nat) \<longleftrightarrow> c = CHR 0x0A"
  and of_char_13: "of_char c = (13 :: nat) \<longleftrightarrow> c = CHR 0x0D"
  and of_char_9: "of_char c = (9 :: nat) \<longleftrightarrow> c = CHR 0x09"
  by (simp_all flip: of_char_eq_iff [where 'a = nat])

lemmas of_char_literals = of_char_34 of_char_92 of_char_8 of_char_12 of_char_10 of_char_13 of_char_9

lemma parse_string_escape [simp]:
  "parse_string (escape_char c @ s) = map_option (apfst (Cons c)) (parse_string s)"
proof -
  let ?n = "of_char c :: nat"
  consider (special) "c \<in> {CHR 0x22, CHR 0x5C, CHR 0x08, CHR 0x0C, CHR 0x0A, CHR 0x0D, CHR 0x09}"
    | (uni) "c \<notin> {CHR 0x22, CHR 0x5C, CHR 0x08, CHR 0x0C, CHR 0x0A, CHR 0x0D, CHR 0x09}"
        "?n < 32 \<or> ?n = 60 \<or> ?n = 62 \<or> ?n = 38"
    | (raw) "c \<notin> {CHR 0x22, CHR 0x5C, CHR 0x08, CHR 0x0C, CHR 0x0A, CHR 0x0D, CHR 0x09}"
        "\<not> (?n < 32 \<or> ?n = 60 \<or> ?n = 62 \<or> ?n = 38)"
    by blast
  then show ?thesis
  proof cases
    case special
    then show ?thesis by (auto simp: escape_char_def unescape_def)
  next
    case uni
    then have n: "?n < 128" by auto
    have hex: "read_hex4 [CHR ''0'', CHR ''0'', hex_digit (?n div 16), hex_digit (?n mod 16)] = Some ?n"
      using n by (simp add: read_hex4_def hex_val_def [of "CHR ''0''"])
    have "escape_char c =
        [CHR 0x5C, CHR ''u'', CHR ''0'', CHR ''0'', hex_digit (?n div 16), hex_digit (?n mod 16)]"
      using uni by (simp add: escape_char_def of_char_literals Let_def)
    then show ?thesis using hex n by (cases "parse_string s") (auto simp: utf8_def apfst_def)
  next
    case raw
    then have "escape_char c = [c]"
      by (simp add: escape_char_def of_char_literals Let_def)
    with raw show ?thesis by simp
  qed
qed

lemma parse_print_string [simp]:
  "parse_string (concat (map escape_char s) @ CHR 0x22 # r) = Some (s, r)"
  by (induction s) auto

lemma takeWhile_dropWhile_digits:
  assumes "\<And>c. c \<in> set ds \<Longrightarrow> is_digit c" and "r \<noteq> [] \<Longrightarrow> \<not> is_digit (hd r)"
  shows "takeWhile is_digit (ds @ r) = ds" and "dropWhile is_digit (ds @ r) = r"
  using assms by (auto simp: takeWhile_append dropWhile_append takeWhile_eq_Nil_iff
      dropWhile_eq_self_iff dropWhile_eq_Nil_conv)

lemma parse_digits_show_nat:
  assumes "r \<noteq> [] \<Longrightarrow> \<not> is_digit (hd r)"
  shows "parse_digits (show_nat n @ r) = Some (n, r)"
  using takeWhile_dropWhile_digits [of "show_nat n" r] assms show_nat_digits show_nat_canonical [of n]
  by (auto simp: parse_digits_def Let_def)

lemma show_nat_Cons: "\<exists>c s. show_nat n = c # s \<and> is_digit c"
  by (metis list.exhaust list.set_intros(1) show_nat_digits show_nat_not_Nil)

definition value_start :: "char \<Rightarrow> bool" where
  "value_start c \<longleftrightarrow> \<not> is_ws c \<and> c \<noteq> CHR '']'' \<and> c \<noteq> CHR ''}''"

lemma is_digit_value_start: "is_digit c \<Longrightarrow> value_start c"
  by (auto simp: is_digit_def value_start_def is_ws_def)

lemma digit_not_other:
  "is_digit c \<Longrightarrow> c \<noteq> CHR 0x22 \<and> c \<noteq> CHR ''['' \<and> c \<noteq> CHR ''{'' \<and> c \<noteq> CHR ''t'' \<and>
     c \<noteq> CHR ''f'' \<and> c \<noteq> CHR ''n'' \<and> c \<noteq> CHR ''-''"
  by (auto simp: is_digit_def)

lemma print_int_cases:
  obtains (neg) n where "i = - int n" "print_int i = CHR ''-'' # show_nat n"
  | (nonneg) n c s where "i = int n" "print_int i = show_nat n" "show_nat n = c # s" "is_digit c"
proof (cases "i < 0")
  case True
  then show ?thesis using neg [of "nat (- i)"] by (simp add: print_int_def)
next
  case False
  then show ?thesis using nonneg [of "nat i"] show_nat_Cons [of "nat i"]
    by (auto simp: print_int_def)
qed

lemma print_json_start: "\<exists>c s. print_json v = c # s \<and> value_start c"
proof (cases v)
  case (JNum i)
  then show ?thesis
    by (cases i rule: print_int_cases) (auto simp: is_digit_def value_start_def is_ws_def)
qed (auto simp: value_start_def is_ws_def print_string_def)

lemma skip_ws_start: "value_start c \<Longrightarrow> skip_ws (c # s) = c # s"
  by (simp add: skip_ws_def value_start_def)

lemma skip_ws_print [simp]: "skip_ws (print_json v @ r) = print_json v @ r"
  using print_json_start [of v] by (auto simp: skip_ws_start)

lemma skip_ws_punct [simp]:
  "skip_ws (CHR '','' # s) = CHR '','' # s" "skip_ws (CHR '']'' # s) = CHR '']'' # s"
  "skip_ws (CHR ''}'' # s) = CHR ''}'' # s" "skip_ws (CHR '':'' # s) = CHR '':'' # s"
  "skip_ws (CHR 0x22 # s) = CHR 0x22 # s" "skip_ws (CHR ''['' # s) = CHR ''['' # s"
  "skip_ws (CHR ''{'' # s) = CHR ''{'' # s" "skip_ws [] = []"
  by (simp_all add: skip_ws_def is_ws_def)

lemma parse_value_num:
  assumes "r \<noteq> [] \<Longrightarrow> \<not> is_digit (hd r)"
  shows "parse_value (Suc n) (print_int i @ r) = Some (JNum i, r)"
proof (cases i rule: print_int_cases)
  case (neg m)
  have "skip_ws (CHR ''-'' # show_nat m @ r) = CHR ''-'' # show_nat m @ r"
    by (simp add: skip_ws_def is_ws_def)
  then show ?thesis using neg parse_digits_show_nat [OF assms, of m]
    by (simp add: parse_number_def)
next
  case (nonneg m c s)
  then have "skip_ws (c # s @ r) = c # s @ r"
    by (simp add: skip_ws_start is_digit_value_start)
  then show ?thesis using nonneg parse_digits_show_nat [OF assms, of m] digit_not_other [of c]
    by (simp add: parse_number_def)
qed

definition reads_back :: "json \<Rightarrow> bool" where
  "reads_back v \<longleftrightarrow> (\<forall>fuel r. length (print_json v) \<le> fuel \<longrightarrow> (r \<noteq> [] \<longrightarrow> \<not> is_digit (hd r)) \<longrightarrow>
     parse_value fuel (print_json v @ r) = Some (v, r))"

lemma reads_backD:
  "reads_back v \<Longrightarrow> length (print_json v) \<le> fuel \<Longrightarrow> (r \<noteq> [] \<Longrightarrow> \<not> is_digit (hd r)) \<Longrightarrow>
     parse_value fuel (print_json v @ r) = Some (v, r)"
  by (auto simp: reads_back_def)

lemma parse_elems_print:
  assumes "\<And>v. v \<in> set vs \<Longrightarrow> reads_back v" and "vs \<noteq> []"
    and "length (commas (map print_json vs)) < fuel"
  shows "parse_elems fuel (commas (map print_json vs) @ CHR '']'' # r) = Some (vs, r)"
  using assms
proof (induction vs arbitrary: fuel)
  case Nil
  then show ?case by simp
next
  case (Cons v vs)
  then obtain n where n: "fuel = Suc n" by (cases fuel) auto
  have rb: "reads_back v" using Cons.prems by simp
  show ?case
  proof (cases vs)
    case Nil
    with Cons.prems n reads_backD [OF rb, of n "CHR '']'' # r"] show ?thesis
      by (simp add: is_digit_def)
  next
    case (Cons w ws)
    let ?rest = "commas (map print_json vs)"
    have len: "length (print_json v) \<le> n" "length ?rest < n"
      using Cons.prems n Cons by auto
    have IH: "parse_elems n (?rest @ CHR '']'' # r) = Some (vs, r)"
      using Cons.IH [of n] Cons.prems len Cons by auto
    have "parse_value n (print_json v @ CHR '','' # ?rest @ CHR '']'' # r)
        = Some (v, CHR '','' # ?rest @ CHR '']'' # r)"
      using reads_backD [OF rb len(1)] by (simp add: is_digit_def)
    with IH Cons n show ?thesis by simp
  qed
qed

lemma parse_members_print:
  assumes "\<And>k v. (k, v) \<in> set kvs \<Longrightarrow> reads_back v" and "kvs \<noteq> []"
    and "length (commas (map (\<lambda>(k, v). print_string k @ CHR '':'' # print_json v) kvs)) < fuel"
  shows "parse_members fuel
      (commas (map (\<lambda>(k, v). print_string k @ CHR '':'' # print_json v) kvs) @ CHR ''}'' # r) =
    Some (kvs, r)"
  using assms
proof (induction kvs arbitrary: fuel)
  case Nil
  then show ?case by simp
next
  case (Cons kv kvs)
  obtain k v where kv: "kv = (k, v)" by (cases kv)
  from Cons obtain n where n: "fuel = Suc n" by (cases fuel) auto
  have rb: "reads_back v" using Cons.prems(1) [of k v] kv by simp
  let ?rest = "commas (map (\<lambda>(k, v). print_string k @ CHR '':'' # print_json v) kvs)"
  show ?case
  proof (cases "kvs = []")
    case True
    with Cons.prems n kv reads_backD [OF rb, of n "CHR ''}'' # r"] show ?thesis
      by (simp add: is_digit_def print_string_def)
  next
    case False
    then have split: "commas (map (\<lambda>(k, v). print_string k @ CHR '':'' # print_json v) (kv # kvs)) =
        print_string k @ CHR '':'' # print_json v @ CHR '','' # ?rest"
      by (cases kvs) (auto simp: kv)
    have len: "length (print_json v) \<le> n" "length ?rest < n"
      using Cons.prems(3) n unfolding split by auto
    have IH: "parse_members n (?rest @ CHR ''}'' # r) = Some (kvs, r)"
      using Cons.IH [of n] Cons.prems(1) len False by auto
    have "parse_value n (print_json v @ CHR '','' # ?rest @ CHR ''}'' # r)
        = Some (v, CHR '','' # ?rest @ CHR ''}'' # r)"
      using reads_backD [OF rb len(1)] by (simp add: is_digit_def)
    with IH show ?thesis unfolding split n by (simp add: print_string_def kv)
  qed
qed

lemma commas_start:
  assumes "ss \<noteq> []" and "\<exists>c s. hd ss = c # s \<and> value_start c"
  shows "\<exists>c s. commas ss = c # s \<and> value_start c"
  using assms by (cases ss rule: commas.cases) auto

lemma reads_back_JArr:
  assumes "\<And>v. v \<in> set vs \<Longrightarrow> reads_back v"
  shows "reads_back (JArr vs)"
  unfolding reads_back_def
proof (intro allI impI)
  fix fuel r
  assume len: "length (print_json (JArr vs)) \<le> fuel"
  then obtain n where n: "fuel = Suc n" by (cases fuel) auto
  show "parse_value fuel (print_json (JArr vs) @ r) = Some (JArr vs, r)"
  proof (cases "vs = []")
    case True
    then show ?thesis using n by simp
  next
    case False
    have "\<exists>c s. commas (map print_json vs) = c # s \<and> value_start c"
      using False print_json_start by (intro commas_start) (auto simp: hd_map)
    then obtain c s where c: "commas (map print_json vs) = c # s" "value_start c" by blast
    have "parse_elems n (commas (map print_json vs) @ CHR '']'' # r) = Some (vs, r)"
      using assms False len n by (intro parse_elems_print) auto
    then show ?thesis using c n by (simp add: skip_ws_start value_start_def)
  qed
qed

lemma reads_back_JObj:
  assumes "\<And>k v. (k, v) \<in> set kvs \<Longrightarrow> reads_back v"
  shows "reads_back (JObj kvs)"
  unfolding reads_back_def
proof (intro allI impI)
  fix fuel r
  let ?ms = "map (\<lambda>(k, v). print_string k @ CHR '':'' # print_json v) kvs"
  assume len: "length (print_json (JObj kvs)) \<le> fuel"
  then obtain n where n: "fuel = Suc n" by (cases fuel) auto
  show "parse_value fuel (print_json (JObj kvs) @ r) = Some (JObj kvs, r)"
  proof (cases "kvs = []")
    case True
    then show ?thesis using n by simp
  next
    case False
    have "\<exists>c s. commas ?ms = c # s \<and> value_start c"
      using False by (intro commas_start) (auto simp: hd_map print_string_def value_start_def
          is_ws_def split: prod.split)
    then obtain c s where c: "commas ?ms = c # s" "value_start c" by blast
    have "parse_members n (commas ?ms @ CHR ''}'' # r) = Some (kvs, r)"
      using assms False len n by (intro parse_members_print) auto
    then show ?thesis using c n by (simp add: skip_ws_start value_start_def)
  qed
qed

lemma reads_backI:
  assumes "print_json v \<noteq> []"
    and "\<And>n r. (r \<noteq> [] \<longrightarrow> \<not> is_digit (hd r)) \<Longrightarrow> parse_value (Suc n) (print_json v @ r) = Some (v, r)"
  shows "reads_back v"
  unfolding reads_back_def
proof (intro allI impI)
  fix fuel r
  assume "length (print_json v) \<le> fuel" and "r \<noteq> [] \<longrightarrow> \<not> is_digit (hd r)"
  moreover from this(1) assms(1) obtain n where "fuel = Suc n" by (cases fuel) auto
  ultimately show "parse_value fuel (print_json v @ r) = Some (v, r)" using assms(2) by simp
qed

lemma reads_back_all: "reads_back v"
proof (induction v)
  case JNull
  show ?case by (rule reads_backI) (simp_all add: skip_ws_def is_ws_def parse_word_def has_prefix_def)
next
  case (JBool b)
  show ?case
    by (rule reads_backI) (simp_all add: skip_ws_def is_ws_def parse_word_def has_prefix_def)
next
  case (JNum i)
  have "print_int i \<noteq> []" by (cases i rule: print_int_cases) auto
  then show ?case by (intro reads_backI) (simp_all add: parse_value_num del: parse_value.simps)
next
  case (JStr s)
  show ?case by (rule reads_backI) (simp_all add: print_string_def)
next
  case (JArr vs)
  then show ?case by (intro reads_back_JArr)
next
  case (JObj kvs)
  then show ?case by (intro reads_back_JObj) auto
qed

theorem parse_print_json [codec]: "parse_json (print_json v) = Some v"
  using reads_backD [OF reads_back_all, of v "Suc (length (print_json v))" "[]"]
  by (simp add: parse_json_def)

section \<open>Struct fields\<close>

text \<open>
  \<^verbatim>\<open>json.Unmarshal\<close> into a struct: a member sets the field whose name equals its key up
  to case, the last such member wins, \<^verbatim>\<open>null\<close> and a missing member leave the zero value,
  unknown members are ignored, and a member of the wrong type is an error.
\<close>

definition lower :: "string \<Rightarrow> string" where
  "lower = map (\<lambda>c. let n = of_char c in if 65 \<le> n \<and> n \<le> (90 :: nat) then char_of (n + 32) else c)"

definition field :: "(string \<times> json) list \<Rightarrow> string \<Rightarrow> json" where
  "field kvs name =
     foldl (\<lambda>acc (k, v). if lower k = lower name \<and> v \<noteq> JNull then v else acc) JNull kvs"

definition members :: "json \<Rightarrow> (string \<times> json) list option" where
  "members v = (case v of JObj kvs \<Rightarrow> Some kvs | JNull \<Rightarrow> Some [] | _ \<Rightarrow> None)"

lemma members_JObj [simp]: "members (JObj kvs) = Some kvs"
  by (simp add: members_def)

lemma if_not_JNull [simp]: "(if P \<and> v \<noteq> JNull then v else JNull) = (if P then v else JNull)"
  by auto

definition u64_json :: "u64 \<Rightarrow> json" where
  "u64_json w = JNum (uint w)"

definition json_u64 :: "json \<Rightarrow> u64 option" where
  "json_u64 v =
     (case v of
        JNull \<Rightarrow> Some 0
      | JNum i \<Rightarrow> if 0 \<le> i \<and> i < 2 ^ 64 then Some (word_of_int i) else None
      | _ \<Rightarrow> None)"

definition i64_json :: "i64 \<Rightarrow> json" where
  "i64_json w = JNum (sint w)"

definition json_i64 :: "json \<Rightarrow> i64 option" where
  "json_i64 v =
     (case v of
        JNull \<Rightarrow> Some 0
      | JNum i \<Rightarrow> if - (2 ^ 63) \<le> i \<and> i < 2 ^ 63 then Some (word_of_int i) else None
      | _ \<Rightarrow> None)"

definition json_bool :: "json \<Rightarrow> bool option" where
  "json_bool v = (case v of JNull \<Rightarrow> Some False | JBool b \<Rightarrow> Some b | _ \<Rightarrow> None)"

definition json_str :: "json \<Rightarrow> string option" where
  "json_str v = (case v of JNull \<Rightarrow> Some [] | JStr s \<Rightarrow> Some s | _ \<Rightarrow> None)"

text \<open>A byte array \<^verbatim>\<open>[n]byte\<close> is an array of numbers; surplus elements are dropped and missing
  ones are zero.\<close>

definition array_json :: "bytes \<Rightarrow> json" where
  "array_json bs = JArr (map (\<lambda>c. JNum (int (of_char c))) bs)"

definition json_byte :: "json \<Rightarrow> char option" where
  "json_byte v =
     (case v of
        JNull \<Rightarrow> Some (char_of (0 :: nat))
      | JNum i \<Rightarrow> if 0 \<le> i \<and> i < 256 then Some (char_of (nat i)) else None
      | _ \<Rightarrow> None)"

fun map_opt :: "('a \<Rightarrow> 'b option) \<Rightarrow> 'a list \<Rightarrow> 'b list option" where
  "map_opt f [] = Some []"
| "map_opt f (x # xs) =
     (case f x of None \<Rightarrow> None | Some y \<Rightarrow> map_option (Cons y) (map_opt f xs))"

definition json_array :: "nat \<Rightarrow> json \<Rightarrow> bytes option" where
  "json_array n v =
     (case v of
        JNull \<Rightarrow> Some (replicate n (char_of (0 :: nat)))
      | JArr vs \<Rightarrow> map_option (\<lambda>bs. bs @ replicate (n - length bs) (char_of (0 :: nat)))
          (map_opt json_byte (take n vs))
      | _ \<Rightarrow> None)"

lemma map_opt_map: "(\<And>x. x \<in> set xs \<Longrightarrow> g (f x) = Some x) \<Longrightarrow> map_opt g (map f xs) = Some xs"
  by (induction xs) auto

lemma json_u64_u64 [simp, codec]: "json_u64 (u64_json w) = Some w"
  using uint_bounded [of w] by (simp add: json_u64_def u64_json_def)

lemma json_i64_i64 [simp, codec]: "json_i64 (i64_json w) = Some w"
  using sint_greater_eq [of w] sint_less [of w] by (simp add: json_i64_def i64_json_def)

lemma json_bool_bool [simp, codec]: "json_bool (JBool b) = Some b"
  by (simp add: json_bool_def)

lemma json_str_str [simp, codec]: "json_str (JStr s) = Some s"
  by (simp add: json_str_def)

lemma json_array_array [simp, codec]: "length bs = n \<Longrightarrow> json_array n (array_json bs) = Some bs"
  by (auto simp: json_array_def array_json_def take_map json_byte_def map_opt_map)

section \<open>Base64\<close>

text \<open>A \<^verbatim>\<open>[]byte\<close> slice is a string in the standard padded base64 alphabet; nil is \<^verbatim>\<open>null\<close>.\<close>

definition b64_char :: "nat \<Rightarrow> char" where
  "b64_char d =
     (if d < 26 then char_of (65 + d)
      else if d < 52 then char_of (71 + d)
      else if d < 62 then char_of (d - 4)
      else if d = 62 then CHR ''+'' else CHR ''/'')"

definition b64_val :: "char \<Rightarrow> nat option" where
  "b64_val c = (let n = of_char c in
     if 65 \<le> n \<and> n \<le> 90 then Some (n - 65)
     else if 97 \<le> n \<and> n \<le> 122 then Some (n - 71)
     else if 48 \<le> n \<and> n \<le> 57 then Some (n + 4)
     else if n = 43 then Some 62
     else if n = 47 then Some 63
     else None)"

fun base64_encode :: "bytes \<Rightarrow> string" where
  "base64_encode [] = []"
| "base64_encode [a] = (let n = of_char a in
     [b64_char (n div 4), b64_char (n mod 4 * 16), CHR ''='', CHR ''=''])"
| "base64_encode [a, b] = (let n = of_char a; m = of_char b in
     [b64_char (n div 4), b64_char (n mod 4 * 16 + m div 16), b64_char (m mod 16 * 4), CHR ''=''])"
| "base64_encode (a # b # c # bs) = (let n = of_char a; m = of_char b; k = of_char c in
     b64_char (n div 4) # b64_char (n mod 4 * 16 + m div 16) # b64_char (m mod 16 * 4 + k div 64) #
     b64_char (k mod 64) # base64_encode bs)"

fun base64_decode :: "string \<Rightarrow> bytes option" where
  "base64_decode [] = Some []"
| "base64_decode (p # q # r # s # rest) =
     (case (b64_val p, b64_val q) of
        (Some x, Some y) \<Rightarrow>
          (let a = char_of (x * 4 + y div 16) in
           if r = CHR ''='' then (if s = CHR ''='' \<and> rest = [] then Some [a] else None)
           else
             (case b64_val r of
                None \<Rightarrow> None
              | Some z \<Rightarrow>
                  (let b = char_of (y mod 16 * 16 + z div 4) in
                   if s = CHR ''='' then (if rest = [] then Some [a, b] else None)
                   else
                     (case b64_val s of
                        None \<Rightarrow> None
                      | Some w \<Rightarrow>
                          map_option (\<lambda>bs. a # b # char_of (z mod 4 * 64 + w) # bs)
                            (base64_decode rest)))))
      | _ \<Rightarrow> None)"
| "base64_decode _ = None"

lemma b64_val_char [simp]: "d < 64 \<Longrightarrow> b64_val (b64_char d) = Some d"
  by (auto simp: b64_val_def b64_char_def Let_def)

lemma b64_char_not_pad [simp]: "d < 64 \<Longrightarrow> b64_char d \<noteq> CHR ''=''"
proof
  assume "d < 64" and "b64_char d = CHR ''=''"
  moreover have "b64_val (CHR ''='') = None" by (simp add: b64_val_def)
  ultimately show False using b64_val_char [of d] by simp
qed

lemma b64_bounds:
  assumes "n < 256" and "m < (256 :: nat)"
  shows "n div 4 < 64" "n mod 4 * 16 < 64" "n mod 4 * 16 + m div 16 < 64" "n mod 16 * 4 < 64"
    "n mod 16 * 4 + m div 64 < 64" "n mod 64 < 64"
  using assms by linarith+

lemma b64_group:
  assumes "m < (256 :: nat)"
  shows "(p * 16 + m div 16) div 16 = p" "m div 16 mod 16 = m div 16"
    "(p * 4 + m div 64) div 4 = p" "m div 64 mod 4 = m div 64"
  using assms by auto

lemmas b64_char_group = b64_bounds [OF of_char_less of_char_less] b64_group [OF of_char_less]

theorem base64_decode_encode [codec]: "base64_decode (base64_encode bs) = Some bs"
  by (induction bs rule: base64_encode.induct) (simp_all add: Let_def b64_char_group)

definition slice_json :: "bytes \<Rightarrow> json" where
  "slice_json bs = (if bs = [] then JNull else JStr (base64_encode bs))"

text \<open>The base64 decoder skips line breaks; an array of numbers is read as well.\<close>

definition json_slice :: "json \<Rightarrow> bytes option" where
  "json_slice v =
     (case v of
        JNull \<Rightarrow> Some []
      | JStr s \<Rightarrow> base64_decode (filter (\<lambda>c. c \<noteq> CHR 0x0A \<and> c \<noteq> CHR 0x0D) s)
      | JArr vs \<Rightarrow> map_opt json_byte vs
      | _ \<Rightarrow> None)"

lemma b64_char_no_break [simp]: "d < 64 \<Longrightarrow> b64_char d \<noteq> CHR 0x0A" "d < 64 \<Longrightarrow> b64_char d \<noteq> CHR 0x0D"
proof -
  have "b64_val (CHR 0x0A) = None" "b64_val (CHR 0x0D) = None" by (simp_all add: b64_val_def)
  then show "d < 64 \<Longrightarrow> b64_char d \<noteq> CHR 0x0A" "d < 64 \<Longrightarrow> b64_char d \<noteq> CHR 0x0D"
    by (metis b64_val_char option.distinct(1))+
qed

lemma base64_no_break [simp]: "filter (\<lambda>c. c \<noteq> CHR 0x0A \<and> c \<noteq> CHR 0x0D) (base64_encode bs) = base64_encode bs"
  by (induction bs rule: base64_encode.induct) (simp_all add: Let_def b64_char_group)

lemma json_slice_slice [simp, codec]: "json_slice (slice_json bs) = Some bs"
  by (simp add: json_slice_def slice_json_def base64_decode_encode)

text \<open>A slice of structs; nil (and here the empty slice) is \<^verbatim>\<open>null\<close>.\<close>

definition list_json :: "('a \<Rightarrow> json) \<Rightarrow> 'a list \<Rightarrow> json" where
  "list_json f xs = (if xs = [] then JNull else JArr (map f xs))"

definition json_list :: "(json \<Rightarrow> 'a option) \<Rightarrow> json \<Rightarrow> 'a list option" where
  "json_list g v = (case v of JNull \<Rightarrow> Some [] | JArr vs \<Rightarrow> map_opt g vs | _ \<Rightarrow> None)"

lemma json_list_list:
  "(\<And>x. x \<in> set xs \<Longrightarrow> g (f x) = Some x) \<Longrightarrow> json_list g (list_json f xs) = Some xs"
  by (simp add: json_list_def list_json_def map_opt_map)

end
