(* ===== verification/Types.thy ===== *)
theory Types
  imports Json "HOL-Library.Monad_Syntax"
begin

text \<open>
  The data types of \<^verbatim>\<open>types.go\<close> and what it does with them: hexadecimal addresses and
  hashes, the JSON encodings, the header hash, signing and verifying.  Errors of the whole
  node are the datatype \<open>gerror\<close>.  Third-party cryptography (SHA-3, Secp256k1, Whirlpool,
  RIPEMD-160) is the record \<open>crypto\<close> of functions that every definition using it takes as an
  argument; \<open>ecdsa_ok\<close> states the documented law that a signature made with a private key
  verifies under its public key.
\<close>

section \<open>Errors\<close>

datatype storage_error =
    KeyNotFound bytes
  | BucketNotFound string
  | DBError string

datatype gerror =
    ErrStorage storage_error
  | ErrUnmarshal
  | ErrHexLength nat
  | ErrHexDigit
  | ErrInvalidNonce u64 u64
  | ErrInsufficientBalance
  | ErrInsufficientFunds u64 u64
  | ErrZeroStake
  | ErrZeroDelegation
  | ErrUnknownType string
  | ErrApplyTransaction hash gerror
  | ErrValidatorNotFound address
  | ErrDelegateTo address gerror
  | ErrNilValidator
  | ErrNotInCommittee string
  | ErrDuplicateSignature string
  | ErrHeightTooHigh u64 u64
  | ErrBlockNotFound hash
  | ErrTransactionNotFound hash
  | ErrWrapped string gerror
  | ErrBlockSize u64
  | ErrInvalidSignature
  | ErrAlreadyInPool
  | ErrNoReplacement address
  | ErrNotSubscribed string
  | ErrPublish
  | ErrConnect string
  | ErrNoWhitelistedPeers

text \<open>The message of a storage error, as \<^verbatim>\<open>err.Error()\<close> gives it.\<close>

fun storage_error_text :: "storage_error \<Rightarrow> string" where
  "storage_error_text (KeyNotFound k) = ''key not found: '' @ k"
| "storage_error_text (BucketNotFound b) = ''bucket '' @ b @ '' not found''"
| "storage_error_text (DBError m) = m"

section \<open>Third-party cryptography\<close>

type_synonym privkey = bytes
type_synonym pubkey = bytes

record crypto =
  sha3_256 :: "bytes \<Rightarrow> hash"
  sha2_256 :: "bytes \<Rightarrow> hash"
  ecdsa_sign :: "privkey \<Rightarrow> hash \<Rightarrow> bytes"
  parse_der :: "bytes \<Rightarrow> bytes option"
  ecdsa_verify :: "bytes \<Rightarrow> hash \<Rightarrow> pubkey \<Rightarrow> bool"
  pub_key :: "privkey \<Rightarrow> pubkey"
  parse_pub_key :: "bytes \<Rightarrow> pubkey option"
  serialize_uncompressed :: "pubkey \<Rightarrow> bytes"
  whirlpool :: "bytes \<Rightarrow> bytes"
  ripemd160 :: "bytes \<Rightarrow> bytes"

definition ecdsa_ok :: "crypto \<Rightarrow> bool" where
  "ecdsa_ok cr \<longleftrightarrow> (\<forall>sk h. \<exists>s. parse_der cr (ecdsa_sign cr sk h) = Some s \<and>
     ecdsa_verify cr s h (pub_key cr sk))"

section \<open>Hashes and addresses\<close>

definition address_bytes :: "address \<Rightarrow> bytes" where
  "address_bytes a = be_bytes 20 (unat a)"

definition address_of_bytes :: "bytes \<Rightarrow> address" where
  "address_of_bytes bs = word_of_nat (be_nat bs)"

definition hash_bytes :: "hash \<Rightarrow> bytes" where
  "hash_bytes h = be_bytes 32 (unat h)"

definition hash_of_bytes :: "bytes \<Rightarrow> hash" where
  "hash_of_bytes bs = word_of_nat (be_nat bs)"

definition hex_encode :: "bytes \<Rightarrow> string" where
  "hex_encode bs = concat (map (\<lambda>c. let n = of_char c in [hex_digit (n div 16), hex_digit (n mod 16)]) bs)"

fun hex_decode :: "string \<Rightarrow> bytes option" where
  "hex_decode [] = Some []"
| "hex_decode [c] = None"
| "hex_decode (c # d # s) =
     (case (hex_val c, hex_val d) of
        (Some x, Some y) \<Rightarrow> map_option (Cons (char_of (x * 16 + y))) (hex_decode s)
      | _ \<Rightarrow> None)"

definition Hash_ToHex :: "hash \<Rightarrow> string" where
  "Hash_ToHex h = hex_encode (hash_bytes h)"

definition Address_ToHex :: "address \<Rightarrow> string" where
  "Address_ToHex a = hex_encode (address_bytes a)"

definition HexToAddress :: "string \<Rightarrow> gerror + address" where
  "HexToAddress hexStr =
     (if length hexStr \<noteq> 40 then Inl (ErrHexLength (length hexStr))
      else
        (case hex_decode hexStr of
           None \<Rightarrow> Inl ErrHexDigit
         | Some decoded \<Rightarrow>
             if length decoded \<noteq> 20 then Inl (ErrHexLength (length decoded))
             else Inr (address_of_bytes decoded)))"

definition HexToHash :: "string \<Rightarrow> gerror + hash" where
  "HexToHash hexStr =
     (if length hexStr \<noteq> 64 then Inl (ErrHexLength (length hexStr))
      else
        (case hex_decode hexStr of
           None \<Rightarrow> Inl ErrHexDigit
         | Some decoded \<Rightarrow>
             if length decoded \<noteq> 32 then Inl (ErrHexLength (length decoded))
             else Inr (hash_of_bytes decoded)))"

lemma length_address_bytes [simp]: "length (address_bytes a) = 20"
  by (simp add: address_bytes_def)

lemma length_hash_bytes [simp]: "length (hash_bytes h) = 32"
  by (simp add: hash_bytes_def)

lemma unat_address_less: "unat (a :: address) < 256 ^ 20"
  using unsigned_less [of a, where ?'a = nat] by simp

lemma unat_hash_less: "unat (h :: hash) < 256 ^ 32"
  using unsigned_less [of h, where ?'a = nat] by simp

lemma address_of_bytes_address_bytes [simp, codec]: "address_of_bytes (address_bytes a) = a"
  using unat_address_less [of a] by (simp add: address_of_bytes_def address_bytes_def be_nat_be_bytes)

lemma hash_of_bytes_hash_bytes [simp, codec]: "hash_of_bytes (hash_bytes h) = h"
  using unat_hash_less [of h] by (simp add: hash_of_bytes_def hash_bytes_def be_nat_be_bytes)

lemma address_bytes_inject [simp]: "address_bytes a = address_bytes b \<longleftrightarrow> a = b"
  by (metis address_of_bytes_address_bytes)

lemma hash_bytes_inject [simp]: "hash_bytes a = hash_bytes b \<longleftrightarrow> a = b"
  by (metis hash_of_bytes_hash_bytes)

text \<open>Comparing addresses bytewise is comparing the words.\<close>

lemma bytes_less_address: "bytes_less (address_bytes a) (address_bytes b) \<longleftrightarrow> a < b"
  using unat_address_less [of a] unat_address_less [of b]
  by (simp add: bytes_less_be_nat address_bytes_def be_nat_be_bytes word_less_nat_alt)

lemma hex_decode_encode [simp, codec]: "hex_decode (hex_encode bs) = Some bs"
proof (induction bs)
  case Nil
  then show ?case by (simp add: hex_encode_def)
next
  case (Cons c bs)
  have "(of_char c :: nat) div 16 < 16" using of_char_less [of c] by linarith
  with Cons show ?case by (simp add: hex_encode_def Let_def)
qed

lemma length_hex_encode [simp]: "length (hex_encode bs) = 2 * length bs"
  by (induction bs) (simp_all add: hex_encode_def Let_def)

lemma Address_ToHex_inject [simp]: "Address_ToHex a = Address_ToHex b \<longleftrightarrow> a = b"
  by (metis Address_ToHex_def hex_decode_encode address_bytes_inject option.inject)

lemma HexToAddress_ToHex [codec]: "HexToAddress (Address_ToHex a) = Inr a"
  by (simp add: HexToAddress_def Address_ToHex_def)

lemma HexToHash_ToHex [codec]: "HexToHash (Hash_ToHex h) = Inr h"
  by (simp add: HexToHash_def Hash_ToHex_def)

section \<open>The structs\<close>

record Account =
  acc_Address :: address
  acc_Balance :: u64
  acc_Nonce :: u64

record Validator =
  val_Address :: address
  val_Stake :: u64
  val_DelegatedStake :: u64
  val_ComputeReputation :: u64
  val_Participating :: bool

record ValidatorRegistration =
  vreg_Address :: address
  vreg_Stake :: u64

record Transaction =
  tx_From :: address
  tx_To :: address
  tx_Value :: u64
  tx_Nonce :: u64
  tx_Fee :: u64
  tx_Timestamp :: i64
  tx_Type :: string
  tx_Signature :: bytes
  tx_Hash :: hash
  tx_Used :: bool

text \<open>The two members are a pointer and a slice; \<open>None\<close> is \<^verbatim>\<open>nil\<close>, which the receiver tests for.\<close>

record NetworkTransaction =
  ntx_Tx :: "Transaction option"
  ntx_PubKey :: "bytes option"

record Header =
  hdr_BlockNumber :: u64
  hdr_PreviousHash :: hash
  hdr_Timestamp :: i64
  hdr_Proposer :: address
  hdr_Gas :: u64
  hdr_TransactionRoot :: hash
  hdr_Hash :: hash

text \<open>
  The pointer \<open>blk_Header\<close> is never nil in a block the node made; see \<open>json_block\<close>.  The slice
  \<^verbatim>\<open>Transactions\<close> holds pointers, and a block that was read from JSON may hold nil ones: \<open>blk_Transactions\<close> are
  the transactions before the first nil pointer, and \<open>blk_FromNil\<close> is \<open>None\<close> when there is no nil
  pointer and otherwise the elements behind the first one.  \<open>tx_pointers\<close> is the slice.
\<close>

record Block =
  blk_Header :: Header
  blk_Transactions :: "Transaction list"
  blk_FromNil :: "Transaction option list option"
  blk_ValidatorList :: "Validator list"
  blk_Signature :: bytes
  blk_Size :: u64

record Approval =
  app_BlockHash :: hash
  app_Address :: address
  app_Signature :: bytes

abbreviation blk_Hash :: "Block \<Rightarrow> hash" where
  "blk_Hash b \<equiv> hdr_Hash (blk_Header b)"

abbreviation blk_Number :: "Block \<Rightarrow> u64" where
  "blk_Number b \<equiv> hdr_BlockNumber (blk_Header b)"

section \<open>JSON encodings\<close>

definition address_json :: "address \<Rightarrow> json" where
  "address_json a = array_json (address_bytes a)"

definition json_address :: "json \<Rightarrow> address option" where
  "json_address v = map_option address_of_bytes (json_array 20 v)"

definition hash_json :: "hash \<Rightarrow> json" where
  "hash_json h = array_json (hash_bytes h)"

definition json_hash :: "json \<Rightarrow> hash option" where
  "json_hash v = map_option hash_of_bytes (json_array 32 v)"

definition account_json :: "Account \<Rightarrow> json" where
  "account_json a = JObj
     [(''address'', address_json (acc_Address a)),
      (''balance'', u64_json (acc_Balance a)),
      (''nonce'', u64_json (acc_Nonce a))]"

definition json_account :: "json \<Rightarrow> Account option" where
  "json_account v = do {
     kvs \<leftarrow> members v;
     a \<leftarrow> json_address (field kvs ''address'');
     b \<leftarrow> json_u64 (field kvs ''balance'');
     n \<leftarrow> json_u64 (field kvs ''nonce'');
     Some \<lparr>acc_Address = a, acc_Balance = b, acc_Nonce = n\<rparr> }"

definition validator_json :: "Validator \<Rightarrow> json" where
  "validator_json v = JObj
     [(''address'', address_json (val_Address v)),
      (''stake'', u64_json (val_Stake v)),
      (''delegatedStake'', u64_json (val_DelegatedStake v)),
      (''computeReputation'', u64_json (val_ComputeReputation v)),
      (''participating'', JBool (val_Participating v))]"

definition json_validator :: "json \<Rightarrow> Validator option" where
  "json_validator v = do {
     kvs \<leftarrow> members v;
     a \<leftarrow> json_address (field kvs ''address'');
     s \<leftarrow> json_u64 (field kvs ''stake'');
     d \<leftarrow> json_u64 (field kvs ''delegatedStake'');
     r \<leftarrow> json_u64 (field kvs ''computeReputation'');
     p \<leftarrow> json_bool (field kvs ''participating'');
     Some \<lparr>val_Address = a, val_Stake = s, val_DelegatedStake = d, val_ComputeReputation = r,
       val_Participating = p\<rparr> }"

definition transaction_json :: "Transaction \<Rightarrow> json" where
  "transaction_json t = JObj
     [(''from'', address_json (tx_From t)),
      (''to'', address_json (tx_To t)),
      (''value'', u64_json (tx_Value t)),
      (''nonce'', u64_json (tx_Nonce t)),
      (''fee'', u64_json (tx_Fee t)),
      (''timestamp'', i64_json (tx_Timestamp t)),
      (''type'', JStr (tx_Type t)),
      (''signature'', slice_json (tx_Signature t)),
      (''hash'', hash_json (tx_Hash t)),
      (''used'', JBool (tx_Used t))]"

definition json_transaction :: "json \<Rightarrow> Transaction option" where
  "json_transaction v = do {
     kvs \<leftarrow> members v;
     f \<leftarrow> json_address (field kvs ''from'');
     t \<leftarrow> json_address (field kvs ''to'');
     x \<leftarrow> json_u64 (field kvs ''value'');
     n \<leftarrow> json_u64 (field kvs ''nonce'');
     e \<leftarrow> json_u64 (field kvs ''fee'');
     ts \<leftarrow> json_i64 (field kvs ''timestamp'');
     ty \<leftarrow> json_str (field kvs ''type'');
     s \<leftarrow> json_slice (field kvs ''signature'');
     h \<leftarrow> json_hash (field kvs ''hash'');
     u \<leftarrow> json_bool (field kvs ''used'');
     Some \<lparr>tx_From = f, tx_To = t, tx_Value = x, tx_Nonce = n, tx_Fee = e, tx_Timestamp = ts,
       tx_Type = ty, tx_Signature = s, tx_Hash = h, tx_Used = u\<rparr> }"

definition header_json :: "Header \<Rightarrow> json" where
  "header_json h = JObj
     [(''blockNumber'', u64_json (hdr_BlockNumber h)),
      (''previousHash'', hash_json (hdr_PreviousHash h)),
      (''timestamp'', i64_json (hdr_Timestamp h)),
      (''proposer'', address_json (hdr_Proposer h)),
      (''gas'', u64_json (hdr_Gas h)),
      (''transactionRoot'', hash_json (hdr_TransactionRoot h)),
      (''hash'', hash_json (hdr_Hash h))]"

definition json_header :: "json \<Rightarrow> Header option" where
  "json_header v = do {
     kvs \<leftarrow> members v;
     b \<leftarrow> json_u64 (field kvs ''blockNumber'');
     p \<leftarrow> json_hash (field kvs ''previousHash'');
     t \<leftarrow> json_i64 (field kvs ''timestamp'');
     a \<leftarrow> json_address (field kvs ''proposer'');
     g \<leftarrow> json_u64 (field kvs ''gas'');
     r \<leftarrow> json_hash (field kvs ''transactionRoot'');
     h \<leftarrow> json_hash (field kvs ''hash'');
     Some \<lparr>hdr_BlockNumber = b, hdr_PreviousHash = p, hdr_Timestamp = t, hdr_Proposer = a,
       hdr_Gas = g, hdr_TransactionRoot = r, hdr_Hash = h\<rparr> }"

definition tx_pointers :: "Block \<Rightarrow> Transaction option list" where
  "tx_pointers b = map Some (blk_Transactions b) @ (case blk_FromNil b of None \<Rightarrow> [] | Some rest \<Rightarrow> None # rest)"

definition split_nil :: "Transaction option list \<Rightarrow> Transaction list \<times> Transaction option list option" where
  "split_nil ps =
     (map the (takeWhile (\<lambda>p. p \<noteq> None) ps),
      (case dropWhile (\<lambda>p. p \<noteq> None) ps of [] \<Rightarrow> None | _ # rest \<Rightarrow> Some rest))"

text \<open>A nil pointer is \<^verbatim>\<open>null\<close>.\<close>

definition pointer_json :: "Transaction option \<Rightarrow> json" where
  "pointer_json p = (case p of None \<Rightarrow> JNull | Some t \<Rightarrow> transaction_json t)"

definition json_pointer :: "json \<Rightarrow> Transaction option option" where
  "json_pointer v = (if v = JNull then Some None else map_option Some (json_transaction v))"

definition block_json :: "Block \<Rightarrow> json" where
  "block_json b = JObj
     [(''Header'', header_json (blk_Header b)),
      (''Transactions'', list_json pointer_json (tx_pointers b)),
      (''ValidatorList'', list_json validator_json (blk_ValidatorList b)),
      (''Signature'', slice_json (blk_Signature b)),
      (''size'', u64_json (blk_Size b))]"

text \<open>
  A missing or \<^verbatim>\<open>null\<close> header would be a nil pointer in Go, which no block has that this
  node encoded; reading such a text is an error here.
\<close>

definition json_block :: "json \<Rightarrow> Block option" where
  "json_block v = do {
     kvs \<leftarrow> members v;
     h \<leftarrow> (if field kvs ''Header'' = JNull then None else json_header (field kvs ''Header''));
     ps \<leftarrow> json_list json_pointer (field kvs ''Transactions'');
     vs \<leftarrow> json_list json_validator (field kvs ''ValidatorList'');
     s \<leftarrow> json_slice (field kvs ''Signature'');
     z \<leftarrow> json_u64 (field kvs ''size'');
     Some \<lparr>blk_Header = h, blk_Transactions = fst (split_nil ps), blk_FromNil = snd (split_nil ps), blk_ValidatorList = vs, blk_Signature = s,
       blk_Size = z\<rparr> }"

text \<open>\<^verbatim>\<open>json.Marshal\<close> and \<^verbatim>\<open>json.Unmarshal\<close> of the stored structs.\<close>

definition marshal_account :: "Account \<Rightarrow> bytes" where
  "marshal_account a = print_json (account_json a)"

definition unmarshal_account :: "bytes \<Rightarrow> Account option" where
  "unmarshal_account bs = Option.bind (parse_json bs) json_account"

definition marshal_validator :: "Validator \<Rightarrow> bytes" where
  "marshal_validator v = print_json (validator_json v)"

definition unmarshal_validator :: "bytes \<Rightarrow> Validator option" where
  "unmarshal_validator bs = Option.bind (parse_json bs) json_validator"

definition marshal_u64 :: "u64 \<Rightarrow> bytes" where
  "marshal_u64 w = print_json (u64_json w)"

definition unmarshal_u64 :: "bytes \<Rightarrow> u64 option" where
  "unmarshal_u64 bs = Option.bind (parse_json bs) json_u64"

definition Transaction_Encode :: "Transaction \<Rightarrow> bytes" where
  "Transaction_Encode t = print_json (transaction_json (t\<lparr>tx_Hash := 0\<rparr>))"

definition Transaction_Decode :: "bytes \<Rightarrow> gerror + Transaction" where
  "Transaction_Decode data =
     (case Option.bind (parse_json data) json_transaction of
        Some t \<Rightarrow> Inr t | None \<Rightarrow> Inl ErrUnmarshal)"

definition Block_Encode :: "Block \<Rightarrow> bytes" where
  "Block_Encode b = print_json (block_json b)"

definition Block_Decode :: "bytes \<Rightarrow> gerror + Block" where
  "Block_Decode data =
     (case Option.bind (parse_json data) json_block of
        Some b \<Rightarrow> Inr b | None \<Rightarrow> Inl ErrUnmarshal)"

definition network_transaction_json :: "NetworkTransaction \<Rightarrow> json" where
  "network_transaction_json nt = JObj
     [(''tx'', case ntx_Tx nt of None \<Rightarrow> JNull | Some t \<Rightarrow> transaction_json t),
      (''pubKey'', case ntx_PubKey nt of None \<Rightarrow> JNull | Some k \<Rightarrow> JStr (base64_encode k))]"

definition json_network_transaction :: "json \<Rightarrow> NetworkTransaction option" where
  "json_network_transaction v = do {
     kvs \<leftarrow> members v;
     t \<leftarrow> (if field kvs ''tx'' = JNull then Some None
           else map_option Some (json_transaction (field kvs ''tx'')));
     p \<leftarrow> (if field kvs ''pubKey'' = JNull then Some None
           else map_option Some (json_slice (field kvs ''pubKey'')));
     Some \<lparr>ntx_Tx = t, ntx_PubKey = p\<rparr> }"

definition NetworkTransaction_Encode :: "NetworkTransaction \<Rightarrow> bytes" where
  "NetworkTransaction_Encode nt = print_json (network_transaction_json nt)"

definition NetworkTransaction_Decode :: "bytes \<Rightarrow> gerror + NetworkTransaction" where
  "NetworkTransaction_Decode data =
     (case Option.bind (parse_json data) json_network_transaction of
        Some nt \<Rightarrow> Inr nt | None \<Rightarrow> Inl ErrUnmarshal)"

section \<open>Hashing, signing, verifying\<close>

definition ComputeHash :: "crypto \<Rightarrow> Header \<Rightarrow> hash" where
  "ComputeHash cr h = sha3_256 cr (print_json (header_json (h\<lparr>hdr_Hash := 0\<rparr>)))"

definition Transaction_Sign :: "crypto \<Rightarrow> Transaction \<Rightarrow> privkey \<Rightarrow> Transaction" where
  "Transaction_Sign cr t privKey =
     (let data = Transaction_Encode t;
          h = sha3_256 cr data
      in t\<lparr>tx_Hash := h, tx_Signature := ecdsa_sign cr privKey h\<rparr>)"

definition Transaction_Verify :: "crypto \<Rightarrow> Transaction \<Rightarrow> pubkey \<Rightarrow> bool" where
  "Transaction_Verify cr t pubKey =
     (case parse_der cr (tx_Signature t) of
        None \<Rightarrow> False
      | Some sig \<Rightarrow> ecdsa_verify cr sig (tx_Hash t) pubKey)"

definition NewBlock :: "Header \<Rightarrow> Transaction list \<Rightarrow> Block" where
  "NewBlock h txs = \<lparr>blk_Header = h, blk_Transactions = txs, blk_FromNil = None, blk_ValidatorList = [],
     blk_Signature = [], blk_Size = 0\<rparr>"

definition Block_Sign :: "crypto \<Rightarrow> Block \<Rightarrow> privkey \<Rightarrow> Block" where
  "Block_Sign cr b privKey =
     (let hdr = (if blk_Hash b = 0 then (blk_Header b)\<lparr>hdr_Hash := ComputeHash cr (blk_Header b)\<rparr>
                 else blk_Header b)
      in b\<lparr>blk_Header := hdr, blk_Signature := ecdsa_sign cr privKey (hdr_Hash hdr)\<rparr>)"

definition MarshalPublicKey :: "crypto \<Rightarrow> pubkey \<Rightarrow> bytes" where
  "MarshalPublicKey cr pub = serialize_uncompressed cr pub"

definition UnmarshalPublicKey :: "crypto \<Rightarrow> bytes \<Rightarrow> pubkey option" where
  "UnmarshalPublicKey cr data = parse_pub_key cr data"

text \<open>
  \<^verbatim>\<open>pubKeyToAddress\<close> of \<^verbatim>\<open>state.go\<close>: Whirlpool (64 bytes, of which 32 are kept), then
  RIPEMD-160 (20 bytes).
\<close>

definition pubKeyToAddress :: "crypto \<Rightarrow> pubkey \<Rightarrow> address" where
  "pubKeyToAddress cr pub =
     (let b = serialize_uncompressed cr pub;
          whirlpoolDigest = whirlpool cr b;
          ripeDigest = ripemd160 cr (take 32 whirlpoolDigest)
      in address_of_bytes (take 20 ripeDigest))"

section \<open>Decoding inverts encoding\<close>

lemma json_not_JNull [simp]:
  "u64_json w \<noteq> JNull" "i64_json w \<noteq> JNull" "address_json a \<noteq> JNull" "hash_json h \<noteq> JNull"
  "account_json acc \<noteq> JNull" "validator_json v \<noteq> JNull" "transaction_json t \<noteq> JNull"
  "header_json hdr \<noteq> JNull"
  by (simp_all add: u64_json_def i64_json_def address_json_def hash_json_def array_json_def
      account_json_def validator_json_def transaction_json_def header_json_def)

lemma json_address_address [simp, codec]: "json_address (address_json a) = Some a"
  by (simp add: json_address_def address_json_def)

lemma json_hash_hash [simp, codec]: "json_hash (hash_json h) = Some h"
  by (simp add: json_hash_def hash_json_def)

lemma json_account_account [simp, codec]: "json_account (account_json a) = Some a"
  by (simp add: json_account_def account_json_def field_def lower_def)

lemma json_validator_validator [simp, codec]: "json_validator (validator_json v) = Some v"
  by (simp add: json_validator_def validator_json_def field_def lower_def)

lemma json_transaction_transaction [simp, codec]: "json_transaction (transaction_json t) = Some t"
  by (simp add: json_transaction_def transaction_json_def field_def lower_def)

lemma json_header_header [simp, codec]: "json_header (header_json h) = Some h"
  by (simp add: json_header_def header_json_def field_def lower_def)

lemma json_pointer_pointer [simp, codec]: "json_pointer (pointer_json p) = Some p"
  by (simp add: json_pointer_def pointer_json_def split: option.split)

lemma split_nil_pointers [simp]: "split_nil (tx_pointers b) = (blk_Transactions b, blk_FromNil b)"
  by (auto simp: split_nil_def tx_pointers_def takeWhile_append dropWhile_append split: option.split)

lemma nil_pointer_iff: "None \<in> set (tx_pointers b) \<longleftrightarrow> blk_FromNil b \<noteq> None"
  by (cases "blk_FromNil b") (auto simp: tx_pointers_def)

lemma json_block_block [simp, codec]: "json_block (block_json b) = Some b"
  by (simp add: json_block_def block_json_def field_def lower_def json_list_list)

lemma unmarshal_marshal_account [simp, codec]: "unmarshal_account (marshal_account a) = Some a"
  by (simp add: unmarshal_account_def marshal_account_def parse_print_json)

lemma unmarshal_marshal_validator [simp, codec]: "unmarshal_validator (marshal_validator v) = Some v"
  by (simp add: unmarshal_validator_def marshal_validator_def parse_print_json)

lemma unmarshal_marshal_u64 [simp, codec]: "unmarshal_u64 (marshal_u64 w) = Some w"
  by (simp add: unmarshal_u64_def marshal_u64_def parse_print_json)

lemma Block_Decode_Encode [simp, codec]: "Block_Decode (Block_Encode b) = Inr b"
  by (simp add: Block_Decode_def Block_Encode_def parse_print_json)

lemma Transaction_Decode_Encode [codec]: "Transaction_Decode (Transaction_Encode t) = Inr (t\<lparr>tx_Hash := 0\<rparr>)"
  by (simp add: Transaction_Decode_def Transaction_Encode_def parse_print_json)

lemma json_network_transaction_id [simp, codec]:
  "json_network_transaction (network_transaction_json nt) = Some nt"
  by (cases nt; cases "ntx_Tx nt"; cases "ntx_PubKey nt")
    (simp_all add: json_network_transaction_def network_transaction_json_def field_def lower_def json_slice_def base64_decode_encode)

lemma NetworkTransaction_Decode_Encode [simp, codec]:
  "NetworkTransaction_Decode (NetworkTransaction_Encode nt) = Inr nt"
  by (simp add: NetworkTransaction_Decode_def NetworkTransaction_Encode_def parse_print_json)

lemma Transaction_Sign_fields [simp]:
  "tx_From (Transaction_Sign cr t sk) = tx_From t" "tx_To (Transaction_Sign cr t sk) = tx_To t"
  "tx_Value (Transaction_Sign cr t sk) = tx_Value t" "tx_Nonce (Transaction_Sign cr t sk) = tx_Nonce t"
  "tx_Fee (Transaction_Sign cr t sk) = tx_Fee t" "tx_Type (Transaction_Sign cr t sk) = tx_Type t"
  by (simp_all add: Transaction_Sign_def Let_def)

lemma Verify_Sign:
  assumes "ecdsa_ok cr"
  shows "Transaction_Verify cr (Transaction_Sign cr t sk) (pub_key cr sk)"
proof -
  let ?h = "sha3_256 cr (Transaction_Encode t)"
  obtain s where "parse_der cr (ecdsa_sign cr sk ?h) = Some s" "ecdsa_verify cr s ?h (pub_key cr sk)"
    using assms unfolding ecdsa_ok_def by blast
  then show ?thesis by (simp add: Transaction_Verify_def Transaction_Sign_def Let_def)
qed

section \<open>A concrete instance of the cryptography\<close>

text \<open>
  Not cryptography, but functions that satisfy the laws stated of it, for evaluating the
  model on concrete inputs: the digest is read off the last byte, a signature is the key
  followed by the digest.
\<close>

definition demo_crypto :: crypto where
  "demo_crypto = \<lparr>sha3_256 = (\<lambda>bs. word_of_nat (of_char (last (CHR 0x00 # bs)) + 1)),
     sha2_256 = (\<lambda>bs. word_of_nat (be_nat bs + 2)),
     ecdsa_sign = (\<lambda>sk h. sk @ hash_bytes h), parse_der = Some,
     ecdsa_verify = (\<lambda>s h pk. s = pk @ hash_bytes h), pub_key = (\<lambda>sk. sk), parse_pub_key = Some,
     serialize_uncompressed = (\<lambda>pk. pk), whirlpool = (\<lambda>bs. bs @ be_bytes 64 0), ripemd160 = (\<lambda>bs. take 20 bs)\<rparr>"

lemma ecdsa_ok_demo: "ecdsa_ok demo_crypto"
  by (simp add: ecdsa_ok_def demo_crypto_def)

definition demo_tx :: Transaction where
  "demo_tx = \<lparr>tx_From = 1, tx_To = 2, tx_Value = 30, tx_Nonce = 1, tx_Fee = 5, tx_Timestamp = 7,
     tx_Type = ''transfer'', tx_Signature = [], tx_Hash = 0, tx_Used = False\<rparr>"

section \<open>Properties\<close>

text \<open>
  Decoding an encoded block with \<^verbatim>\<open>DecodeBlock\<close> gives the block back: every header field,
  transaction, validator, the signature and the size, through the JSON text.
\<close>

theorem block_round_trip: "Block_Decode (Block_Encode b) = Inr b"
  by simp

text \<open>
  A transaction signed with \<^verbatim>\<open>Transaction.Sign\<close> verifies under the signer's public key, and
  its \<open>Hash\<close> is the digest of its own encoding before signing.
\<close>

theorem sign_then_verify:
  assumes "ecdsa_ok cr"
  shows "Transaction_Verify cr (Transaction_Sign cr t sk) (pub_key cr sk) \<and>
    tx_Hash (Transaction_Sign cr t sk) = sha3_256 cr (Transaction_Encode t)"
  using Verify_Sign [OF assms] by (simp add: Transaction_Sign_def Let_def)

theorem sign_then_verify_witness:
  "ecdsa_ok demo_crypto \<and>
     Transaction_Verify demo_crypto (Transaction_Sign demo_crypto demo_tx ''key'') (pub_key demo_crypto ''key'')"
  using sign_then_verify [OF ecdsa_ok_demo, of demo_tx "''key''"] ecdsa_ok_demo by simp

end
