(* ===== verification/Bar_Network.thy ===== *)
theory Bar_Network
  imports Types
begin

text \<open>
  \<^verbatim>\<open>bar_network.go\<close>: the three peer lists of the BAR network (whitelist, greylist, banned), the
  scores that move peers between them, and the selection of peers for a round.  The operations
  are the steps of the relation \<open>bar_step\<close>; \<open>bar_ok\<close> holds in every reachable state.

  Times are nanoseconds, with 0 for Go's zero time; the time of \<^verbatim>\<open>time.Now()\<close> is the argument
  \<open>now\<close>.  Scores are integers: they grow by small increments, far from 64 bits.  The probing loop
  of \<open>FindNodes\<close> takes fuel and returns \<open>None\<close> if it runs out; \<open>probe_free\<close> shows that as many
  steps as there are peers always suffice.
\<close>

section \<open>Data\<close>

type_synonym peerID = string
type_synonym gtime = int

datatype PeerStatus = PeerStatusGreylist | PeerStatusWhitelist | PeerStatusBanned

record PeerInfo =
  pi_ID :: peerID
  pi_Address :: string
  pi_Status :: PeerStatus
  pi_POMScore :: int
  pi_LastSeen :: gtime
  pi_HandshakeAt :: gtime
  pi_Reputation :: int
  pi_IsSeed :: bool
  pi_ClientVersion :: string
  pi_LastRound :: u64

record ReputationRecord =
  rr_POMScore :: int
  rr_LastRound :: u64
  rr_Reason :: string

record BARConfig =
  cfg_OutgoingConnections :: int
  cfg_IncomingConnections :: int
  cfg_SyncTimeout :: gtime
  cfg_POMThreshold :: int
  cfg_POMBanThreshold :: int
  cfg_ReputationMemory :: u64
  cfg_HandshakeTimeout :: gtime
  cfg_SeedNodes :: "string list"

record BARNetwork =
  bn_whitelist :: "(peerID, PeerInfo) gomap"
  bn_greylist :: "(peerID, PeerInfo) gomap"
  bn_banned :: "(peerID, PeerInfo) gomap"
  bn_config :: BARConfig
  bn_reputationRecords :: "(peerID, ReputationRecord) gomap"
  bn_prngSeed :: bytes
  bn_round :: u64
  bn_seedNodes :: "string list"
  bn_hasCallback :: bool

definition default_config :: BARConfig where
  "default_config = \<lparr>cfg_OutgoingConnections = 8, cfg_IncomingConnections = 8, cfg_SyncTimeout = 10 * 1000000000,
     cfg_POMThreshold = 5, cfg_POMBanThreshold = 15, cfg_ReputationMemory = 10,
     cfg_HandshakeTimeout = 5 * 1000000000, cfg_SeedNodes = []\<rparr>"

text \<open>A nil configuration is \<open>None\<close>; the 32 random bytes of the seed are an argument.\<close>

definition NewBARNetwork :: "bytes \<Rightarrow> BARConfig option \<Rightarrow> BARNetwork" where
  "NewBARNetwork seed config =
     (let cfg = (case config of None \<Rightarrow> default_config | Some c \<Rightarrow> c)
      in \<lparr>bn_whitelist = [], bn_greylist = [], bn_banned = [], bn_config = cfg, bn_reputationRecords = [],
          bn_prngSeed = seed, bn_round = 0, bn_seedNodes = cfg_SeedNodes cfg, bn_hasCallback = False\<rparr>)"

section \<open>Moving peers\<close>

definition isPeerInAnyList :: "BARNetwork \<Rightarrow> peerID \<Rightarrow> bool" where
  "isPeerInAnyList bn p =
     (if go_get (bn_whitelist bn) p \<noteq> None then True
      else if go_get (bn_greylist bn) p \<noteq> None then True
      else go_get (bn_banned bn) p \<noteq> None)"

definition AddPeer :: "gtime \<Rightarrow> BARNetwork \<Rightarrow> peerID \<Rightarrow> string \<Rightarrow> BARNetwork" where
  "AddPeer now bn p address =
     (if isPeerInAnyList bn p then bn
      else bn\<lparr>bn_greylist := go_set (bn_greylist bn) p
        \<lparr>pi_ID = p, pi_Address = address, pi_Status = PeerStatusGreylist, pi_POMScore = 0, pi_LastSeen = now,
         pi_HandshakeAt = 0, pi_Reputation = 0, pi_IsSeed = False, pi_ClientVersion = [], pi_LastRound = 0\<rparr>\<rparr>)"

definition promoteToWhitelistNoLock :: "gtime \<Rightarrow> BARNetwork \<Rightarrow> peerID \<Rightarrow> bool \<times> BARNetwork" where
  "promoteToWhitelistNoLock now bn p =
     (case go_get (bn_greylist bn) p of
        None \<Rightarrow> (False, bn)
      | Some info \<Rightarrow>
          if cfg_IncomingConnections (bn_config bn) \<le> int (length (bn_whitelist bn)) then (False, bn)
          else (True, bn\<lparr>bn_greylist := go_delete (bn_greylist bn) p,
                 bn_whitelist := go_set (bn_whitelist bn) p
                   (info\<lparr>pi_Status := PeerStatusWhitelist, pi_HandshakeAt := now\<rparr>)\<rparr>))"

definition PromoteToWhitelist :: "gtime \<Rightarrow> BARNetwork \<Rightarrow> peerID \<Rightarrow> bool \<times> BARNetwork" where
  "PromoteToWhitelist now bn p = promoteToWhitelistNoLock now bn p"

definition demoteToGreylistNoLock :: "BARNetwork \<Rightarrow> peerID \<Rightarrow> bool \<times> BARNetwork" where
  "demoteToGreylistNoLock bn p =
     (case go_get (bn_whitelist bn) p of
        None \<Rightarrow> (False, bn)
      | Some info \<Rightarrow>
          (True, bn\<lparr>bn_whitelist := go_delete (bn_whitelist bn) p,
            bn_greylist := go_set (bn_greylist bn) p (info\<lparr>pi_Status := PeerStatusGreylist\<rparr>)\<rparr>))"

definition DemoteToGreylist :: "BARNetwork \<Rightarrow> peerID \<Rightarrow> bool \<times> BARNetwork" where
  "DemoteToGreylist bn p = demoteToGreylistNoLock bn p"

definition record_ban :: "BARNetwork \<Rightarrow> peerID \<Rightarrow> PeerInfo \<Rightarrow> string \<Rightarrow> BARNetwork" where
  "record_ban bn p info reason =
     bn\<lparr>bn_banned := go_set (bn_banned bn) p (info\<lparr>pi_Status := PeerStatusBanned\<rparr>),
       bn_reputationRecords := go_set (bn_reputationRecords bn) p
         \<lparr>rr_POMScore = pi_POMScore info, rr_LastRound = bn_round bn, rr_Reason = reason\<rparr>\<rparr>"

definition banPeerNoLock :: "BARNetwork \<Rightarrow> peerID \<Rightarrow> string \<Rightarrow> BARNetwork" where
  "banPeerNoLock bn p reason =
     (case go_get (bn_whitelist bn) p of
        Some info \<Rightarrow> record_ban (bn\<lparr>bn_whitelist := go_delete (bn_whitelist bn) p\<rparr>) p info reason
      | None \<Rightarrow>
          (case go_get (bn_greylist bn) p of
             Some info \<Rightarrow> record_ban (bn\<lparr>bn_greylist := go_delete (bn_greylist bn) p\<rparr>) p info reason
           | None \<Rightarrow> bn))"

definition BanPeer :: "BARNetwork \<Rightarrow> peerID \<Rightarrow> string \<Rightarrow> BARNetwork" where
  "BanPeer bn p reason = banPeerNoLock bn p reason"

text \<open>The score is changed in place, in whichever list holds the peer, before the thresholds are checked.\<close>

definition UpdatePOMScore :: "gtime \<Rightarrow> BARNetwork \<Rightarrow> peerID \<Rightarrow> int \<Rightarrow> string \<Rightarrow> BARNetwork" where
  "UpdatePOMScore now bn p increment reason =
     (let apply = (\<lambda>info. info\<lparr>pi_POMScore := pi_POMScore info + increment, pi_LastSeen := now\<rparr>);
          check = (\<lambda>bn info.
            if pi_Status info = PeerStatusWhitelist \<and> cfg_POMThreshold (bn_config bn) \<le> pi_POMScore info
            then snd (demoteToGreylistNoLock bn p)
            else if pi_Status info = PeerStatusGreylist \<and> cfg_POMBanThreshold (bn_config bn) \<le> pi_POMScore info
            then banPeerNoLock bn p (''POM score '' @ print_int (pi_POMScore info) @ '' exceeded ban threshold'')
            else bn)
      in case go_get (bn_whitelist bn) p of
           Some info \<Rightarrow> check (bn\<lparr>bn_whitelist := go_set (bn_whitelist bn) p (apply info)\<rparr>) (apply info)
         | None \<Rightarrow>
             (case go_get (bn_greylist bn) p of
                Some info \<Rightarrow> check (bn\<lparr>bn_greylist := go_set (bn_greylist bn) p (apply info)\<rparr>) (apply info)
              | None \<Rightarrow> bn))"

section \<open>Selecting peers\<close>

definition generateRoundSeed :: "crypto \<Rightarrow> BARNetwork \<Rightarrow> u64 \<Rightarrow> bytes" where
  "generateRoundSeed cr bn r = hash_bytes (sha2_256 cr (bn_prngSeed bn @ be_bytes 8 (unat r)))"

definition prngSelect :: "crypto \<Rightarrow> bytes \<Rightarrow> nat \<Rightarrow> nat \<Rightarrow> nat" where
  "prngSelect cr seed iteration n =
     be_nat (take 4 (hash_bytes (sha2_256 cr (seed @ be_bytes 8 iteration)))) mod (n mod 2 ^ 32)"

fun probe :: "nat \<Rightarrow> nat list \<Rightarrow> nat \<Rightarrow> nat \<Rightarrow> nat option" where
  "probe 0 used n index = None"
| "probe (Suc fuel) used n index =
     (if index \<in> set used then probe fuel used n ((index + 1) mod n) else Some index)"

fun find_nodes_loop :: "crypto \<Rightarrow> bytes \<Rightarrow> PeerInfo list \<Rightarrow> nat list \<Rightarrow> nat list \<Rightarrow> nat list option" where
  "find_nodes_loop cr seed eligible [] used = Some used"
| "find_nodes_loop cr seed eligible (i # is) used =
     (case probe (Suc (length eligible)) used (length eligible) (prngSelect cr seed i (length eligible)) of
        None \<Rightarrow> None
      | Some index \<Rightarrow> find_nodes_loop cr seed eligible is (used @ [index]))"

definition FindNodes :: "crypto \<Rightarrow> BARNetwork \<Rightarrow> u64 \<Rightarrow> peerID list option \<times> BARNetwork" where
  "FindNodes cr bn r =
     (let bn' = bn\<lparr>bn_round := r\<rparr>;
          roundSeed = generateRoundSeed cr bn' r;
          eligible = map snd (bn_whitelist bn')
      in if eligible = [] then (Some [], bn')
         else
           (map_option (map (\<lambda>index. pi_ID (eligible ! index)))
              (find_nodes_loop cr roundSeed eligible
                 [0..<min (nat (cfg_IncomingConnections (bn_config bn'))) (length eligible)] []),
            bn'))"

section \<open>Queries\<close>

definition GetWhitelist :: "BARNetwork \<Rightarrow> PeerInfo list" where
  "GetWhitelist bn = map snd (bn_whitelist bn)"

definition GetGreylist :: "BARNetwork \<Rightarrow> PeerInfo list" where
  "GetGreylist bn = map snd (bn_greylist bn)"

definition GetBanned :: "BARNetwork \<Rightarrow> PeerInfo list" where
  "GetBanned bn = map snd (bn_banned bn)"

definition GetAllPeers :: "BARNetwork \<Rightarrow> PeerInfo list" where
  "GetAllPeers bn = map snd (bn_whitelist bn) @ map snd (bn_greylist bn) @ map snd (bn_banned bn)"

definition GetPeerStatus :: "BARNetwork \<Rightarrow> peerID \<Rightarrow> PeerStatus \<times> bool" where
  "GetPeerStatus bn p =
     (case go_get (bn_whitelist bn) p of
        Some info \<Rightarrow> (pi_Status info, True)
      | None \<Rightarrow>
          (case go_get (bn_greylist bn) p of
             Some info \<Rightarrow> (pi_Status info, True)
           | None \<Rightarrow>
               (case go_get (bn_banned bn) p of
                  Some info \<Rightarrow> (pi_Status info, True)
                | None \<Rightarrow> (PeerStatusGreylist, False))))"

definition SetOnPeerStatusChange :: "BARNetwork \<Rightarrow> BARNetwork" where
  "SetOnPeerStatusChange bn = bn\<lparr>bn_hasCallback := True\<rparr>"

definition CleanupReputationRecords :: "BARNetwork \<Rightarrow> BARNetwork" where
  "CleanupReputationRecords bn =
     bn\<lparr>bn_reputationRecords :=
       filter (\<lambda>(p, rec). \<not> cfg_ReputationMemory (bn_config bn) < bn_round bn - rr_LastRound rec) (bn_reputationRecords bn)\<rparr>"

section \<open>The invariant\<close>

text \<open>Every list is keyed by its peers' identifiers, has the matching status, and no peer is in two lists.\<close>

definition list_ok :: "(peerID, PeerInfo) gomap \<Rightarrow> PeerStatus \<Rightarrow> bool" where
  "list_ok m st \<longleftrightarrow> go_wf m \<and> (\<forall>p info. go_get m p = Some info \<longrightarrow> pi_ID info = p \<and> pi_Status info = st)"

definition bar_ok :: "BARNetwork \<Rightarrow> bool" where
  "bar_ok bn \<longleftrightarrow> list_ok (bn_whitelist bn) PeerStatusWhitelist \<and> list_ok (bn_greylist bn) PeerStatusGreylist \<and>
     list_ok (bn_banned bn) PeerStatusBanned \<and>
     (\<forall>p. go_get (bn_whitelist bn) p \<noteq> None \<longrightarrow> go_get (bn_greylist bn) p = None \<and> go_get (bn_banned bn) p = None) \<and>
     (\<forall>p. go_get (bn_greylist bn) p \<noteq> None \<longrightarrow> go_get (bn_banned bn) p = None) \<and>
     int (length (bn_whitelist bn)) \<le> max 0 (cfg_IncomingConnections (bn_config bn))"

lemma list_ok_set: "list_ok m st \<Longrightarrow> pi_ID info = p \<Longrightarrow> pi_Status info = st \<Longrightarrow> list_ok (go_set m p info) st"
  by (auto simp: list_ok_def)

lemma list_ok_delete: "list_ok m st \<Longrightarrow> list_ok (go_delete m p) st"
  by (auto simp: list_ok_def split: if_splits)

lemma list_ok_get: "list_ok m st \<Longrightarrow> go_get m p = Some info \<Longrightarrow> pi_ID info = p \<and> pi_Status info = st"
  by (simp add: list_ok_def)

lemma length_delete_le: "length (go_delete m k) \<le> length m"
  by (simp add: AList.delete_eq)

lemma bar_ok_New: "bar_ok (NewBARNetwork seed cfg)"
  by (simp add: bar_ok_def NewBARNetwork_def list_ok_def Let_def)

lemma bar_ok_AddPeer: "bar_ok bn \<Longrightarrow> bar_ok (AddPeer now bn p a)"
  by (auto simp: bar_ok_def AddPeer_def isPeerInAnyList_def intro!: list_ok_set split: if_splits)

lemma bar_ok_promote: "bar_ok bn \<Longrightarrow> bar_ok (snd (promoteToWhitelistNoLock now bn p))"
  by (auto simp: bar_ok_def promoteToWhitelistNoLock_def length_go_set list_ok_get
      intro!: list_ok_set list_ok_delete split: option.split)

lemma bar_ok_demote: "bar_ok bn \<Longrightarrow> bar_ok (snd (demoteToGreylistNoLock bn p))"
  using length_delete_le [of p "bn_whitelist bn"]
  by (auto simp: bar_ok_def demoteToGreylistNoLock_def list_ok_get
      intro!: list_ok_set list_ok_delete split: option.split)

lemma bar_ok_ban: "bar_ok bn \<Longrightarrow> bar_ok (banPeerNoLock bn p r)"
  using length_delete_le [of p "bn_whitelist bn"]
  by (auto simp: bar_ok_def banPeerNoLock_def record_ban_def list_ok_get
      intro!: list_ok_set list_ok_delete split: option.split)

lemma bar_ok_upd_white:
  "bar_ok bn \<Longrightarrow> go_get (bn_whitelist bn) p = Some info \<Longrightarrow> pi_ID info' = p \<Longrightarrow> pi_Status info' = PeerStatusWhitelist \<Longrightarrow>
     bar_ok (bn\<lparr>bn_whitelist := go_set (bn_whitelist bn) p info'\<rparr>)"
  by (auto simp: bar_ok_def length_go_set intro!: list_ok_set)

lemma bar_ok_upd_grey:
  "bar_ok bn \<Longrightarrow> go_get (bn_greylist bn) p = Some info \<Longrightarrow> pi_ID info' = p \<Longrightarrow> pi_Status info' = PeerStatusGreylist \<Longrightarrow>
     bar_ok (bn\<lparr>bn_greylist := go_set (bn_greylist bn) p info'\<rparr>)"
  by (auto simp: bar_ok_def intro!: list_ok_set)

lemma bar_ok_status:
  assumes "bar_ok bn"
  shows "go_get (bn_whitelist bn) p = Some info \<Longrightarrow> pi_ID info = p \<and> pi_Status info = PeerStatusWhitelist"
    and "go_get (bn_greylist bn) p = Some info \<Longrightarrow> pi_ID info = p \<and> pi_Status info = PeerStatusGreylist"
    and "go_get (bn_banned bn) p = Some info \<Longrightarrow> pi_ID info = p \<and> pi_Status info = PeerStatusBanned"
  using assms by (auto simp: bar_ok_def dest: list_ok_get)

text \<open>The outcome of a score update, by the list that holds the peer.\<close>

lemma UpdatePOM_white:
  assumes "bar_ok bn" "go_get (bn_whitelist bn) p = Some info"
    and i'_def: "i' = info\<lparr>pi_POMScore := pi_POMScore info + inc, pi_LastSeen := now\<rparr>"
  shows "UpdatePOMScore now bn p inc r =
    (let bn' = bn\<lparr>bn_whitelist := go_set (bn_whitelist bn) p i'\<rparr>
     in if cfg_POMThreshold (bn_config bn) \<le> pi_POMScore i' then snd (demoteToGreylistNoLock bn' p) else bn')"
  using assms(2) bar_ok_status(1) [OF assms(1,2)] by (simp add: UpdatePOMScore_def Let_def i'_def)

lemma UpdatePOM_grey:
  assumes "bar_ok bn" "go_get (bn_greylist bn) p = Some info"
    and i'_def: "i' = info\<lparr>pi_POMScore := pi_POMScore info + inc, pi_LastSeen := now\<rparr>"
  shows "UpdatePOMScore now bn p inc r =
    (let bn' = bn\<lparr>bn_greylist := go_set (bn_greylist bn) p i'\<rparr>
     in if cfg_POMBanThreshold (bn_config bn) \<le> pi_POMScore i'
        then banPeerNoLock bn' p (''POM score '' @ print_int (pi_POMScore i') @ '' exceeded ban threshold'') else bn')"
proof -
  have "go_get (bn_whitelist bn) p = None"
    using assms(1,2) unfolding bar_ok_def by (metis option.distinct(1))
  then show ?thesis
    using assms(2) bar_ok_status(2) [OF assms(1,2)] by (simp add: UpdatePOMScore_def Let_def i'_def)
qed

lemma bar_ok_UpdatePOM:
  assumes "bar_ok bn" shows "bar_ok (UpdatePOMScore now bn p inc r)"
proof -
  consider (w) info where "go_get (bn_whitelist bn) p = Some info"
    | (g) info where "go_get (bn_greylist bn) p = Some info"
    | (n) "go_get (bn_whitelist bn) p = None" "go_get (bn_greylist bn) p = None" by fastforce
  then show ?thesis
  proof cases
    case w
    then show ?thesis
      using assms bar_ok_status(1) [OF assms w]
      by (simp add: UpdatePOM_white [OF assms w] Let_def bar_ok_demote bar_ok_upd_white)
  next
    case g
    then show ?thesis
      using assms bar_ok_status(2) [OF assms g]
      by (simp add: UpdatePOM_grey [OF assms g] Let_def bar_ok_ban bar_ok_upd_grey)
  next
    case n
    then show ?thesis using assms by (simp add: UpdatePOMScore_def Let_def)
  qed
qed

section \<open>Reachable states\<close>

inductive bar_step :: "crypto \<Rightarrow> BARNetwork \<Rightarrow> BARNetwork \<Rightarrow> bool" for cr where
  step_add: "bar_step cr bn (AddPeer now bn p address)"
| step_promote: "bar_step cr bn (snd (PromoteToWhitelist now bn p))"
| step_demote: "bar_step cr bn (snd (DemoteToGreylist bn p))"
| step_ban: "bar_step cr bn (BanPeer bn p reason)"
| step_score: "bar_step cr bn (UpdatePOMScore now bn p increment reason)"
| step_find: "bar_step cr bn (snd (FindNodes cr bn r))"
| step_cleanup: "bar_step cr bn (CleanupReputationRecords bn)"
| step_callback: "bar_step cr bn (SetOnPeerStatusChange bn)"

inductive_cases bar_stepE: "bar_step cr bn bn'"

inductive bar_reach :: "crypto \<Rightarrow> bytes \<Rightarrow> BARConfig option \<Rightarrow> BARNetwork \<Rightarrow> bool" for cr seed cfg where
  reach_init: "bar_reach cr seed cfg (NewBARNetwork seed cfg)"
| reach_step: "bar_reach cr seed cfg bn \<Longrightarrow> bar_step cr bn bn' \<Longrightarrow> bar_reach cr seed cfg bn'"

lemmas bar_ops = PromoteToWhitelist_def DemoteToGreylist_def BanPeer_def

lemma bar_ok_frame:
  "bn_whitelist bn' = bn_whitelist bn \<Longrightarrow> bn_greylist bn' = bn_greylist bn \<Longrightarrow> bn_banned bn' = bn_banned bn \<Longrightarrow>
   bn_config bn' = bn_config bn \<Longrightarrow> bar_ok bn' = bar_ok bn"
  by (simp add: bar_ok_def)

lemma FindNodes_frame:
  "snd (FindNodes cr bn r) = bn\<lparr>bn_round := r\<rparr>"
  by (simp add: FindNodes_def Let_def)

lemma bar_ok_step: "bar_step cr bn bn' \<Longrightarrow> bar_ok bn \<Longrightarrow> bar_ok bn'"
proof (induction rule: bar_step.induct)
  case (step_find bn r)
  then show ?case by (subst bar_ok_frame [of _ bn]) (simp_all add: FindNodes_frame)
next
  case (step_cleanup bn)
  then show ?case by (subst bar_ok_frame [of _ bn]) (simp_all add: CleanupReputationRecords_def)
next
  case (step_callback bn)
  then show ?case by (subst bar_ok_frame [of _ bn]) (simp_all add: SetOnPeerStatusChange_def)
qed (simp_all add: bar_ops bar_ok_AddPeer bar_ok_promote bar_ok_demote bar_ok_ban bar_ok_UpdatePOM)

lemma bar_reach_ok: "bar_reach cr seed cfg bn \<Longrightarrow> bar_ok bn"
  by (induction rule: bar_reach.induct) (auto intro: bar_ok_New bar_ok_step)

text \<open>No operation takes a peer off the banned list.\<close>

lemma ban_keeps: "go_get (bn_banned bn) q = Some i \<Longrightarrow> q \<noteq> p \<Longrightarrow> go_get (bn_banned (banPeerNoLock bn p r)) q = Some i"
  by (simp add: banPeerNoLock_def record_ban_def split: option.split)

lemma banned_other_lists:
  "bar_ok bn \<Longrightarrow> go_get (bn_banned bn) p = Some i \<Longrightarrow> go_get (bn_whitelist bn) p = None \<and> go_get (bn_greylist bn) p = None"
  unfolding bar_ok_def by (metis option.distinct(1))

lemma demote_banned [simp]: "bn_banned (snd (demoteToGreylistNoLock bn p)) = bn_banned bn"
  by (simp add: demoteToGreylistNoLock_def split: option.split)

lemma banned_step:
  assumes "bar_step cr bn bn'" "bar_ok bn" "go_get (bn_banned bn) q = Some i"
  shows "go_get (bn_banned bn') q = Some i"
  using assms(1)
proof (cases rule: bar_step.cases)
  case (step_ban p reason)
  then show ?thesis
    using assms(3) banned_other_lists [OF assms(2,3)] ban_keeps [OF assms(3)]
    by (cases "p = q") (auto simp: bar_ops banPeerNoLock_def)
next
  case (step_score now p inc reason)
  then show ?thesis
    using assms(3) banned_other_lists [OF assms(2,3)]
    by (cases "p = q") (auto simp: UpdatePOMScore_def Let_def intro!: ban_keeps split: option.split)
next
  case (step_promote now p)
  then show ?thesis using assms(3) by (simp add: bar_ops promoteToWhitelistNoLock_def split: option.split)
next
  case (step_add now p a)
  then show ?thesis using assms(3) by (simp add: AddPeer_def)
qed (use assms(3) in \<open>simp_all add: bar_ops FindNodes_frame CleanupReputationRecords_def SetOnPeerStatusChange_def\<close>)

section \<open>Peer selection\<close>

lemma probe_reaches:
  "index < n \<Longrightarrow> k < fuel \<Longrightarrow> (index + k) mod n \<notin> set used \<Longrightarrow>
     \<exists>j. probe fuel used n index = Some j \<and> j < n \<and> j \<notin> set used"
proof (induction fuel arbitrary: index k)
  case (Suc fuel)
  show ?case
  proof (cases "index \<in> set used")
    case True
    then obtain k' where k: "k = Suc k'" using Suc.prems by (cases k) auto
    have "((index + 1) mod n + k') mod n = (index + k) mod n" by (simp add: k mod_simps)
    then show ?thesis using Suc.IH [of "(index + 1) mod n" k'] Suc.prems k True by simp
  next
    case False
    then show ?thesis using Suc.prems by simp
  qed
qed simp

lemma probe_free:
  assumes "index < n" "distinct used" "set used \<subseteq> {..<n}" "length used < n"
  obtains j where "probe (Suc n) used n index = Some j" "j < n" "j \<notin> set used"
proof -
  have "card (set used) < card {..<n}" using assms(2,4) by (simp add: distinct_card)
  then obtain j0 where j0: "j0 < n" "j0 \<notin> set used"
    using assms(3) by (metis lessThan_iff order_less_irrefl subsetI subset_antisym)
  let ?k = "(j0 + n - index) mod n"
  have "(index + ?k) mod n = (index + (j0 + n - index)) mod n" by (simp add: mod_simps)
  also have "\<dots> = j0" using assms(1) j0(1) by simp
  finally have "(index + ?k) mod n \<notin> set used" using j0(2) by simp
  moreover have "?k < Suc n" using assms(1) by (simp add: less_SucI)
  ultimately show ?thesis using probe_reaches [OF assms(1), of ?k "Suc n" used] that by blast
qed

lemma prngSelect_less: "0 < n \<Longrightarrow> n < 2 ^ 32 \<Longrightarrow> prngSelect cr seed i n < n"
  by (simp add: prngSelect_def)

lemma find_nodes_loop_ok:
  assumes "0 < length el" "length el < 2 ^ 32"
  shows "distinct used \<Longrightarrow> set used \<subseteq> {..<length el} \<Longrightarrow> length used + length is \<le> length el \<Longrightarrow>
    \<exists>u. find_nodes_loop cr seed el is used = Some u \<and> distinct u \<and> set u \<subseteq> {..<length el} \<and>
      length u = length used + length is"
proof (induction "is" arbitrary: used)
  case (Cons i "is")
  let ?n = "length el"
  obtain j where j: "probe (Suc ?n) used ?n (prngSelect cr seed i ?n) = Some j" "j < ?n" "j \<notin> set used"
    by (rule probe_free [OF prngSelect_less [OF assms] Cons.prems(1,2)]) (use Cons.prems(3) in auto)
  then show ?case using Cons.IH [of "used @ [j]"] Cons.prems by simp
qed simp

lemma FindNodes_perm:
  assumes ok: "bar_ok bn" and few: "length (bn_whitelist bn) < 2 ^ 32"
  obtains ids where "fst (FindNodes cr bn r) = Some ids" "mset ids = mset (map fst (bn_whitelist bn))"
proof (cases "bn_whitelist bn = []")
  case True
  then show ?thesis using that by (simp add: FindNodes_def Let_def)
next
  case False
  let ?el = "map snd (bn_whitelist bn)" and ?n = "length (bn_whitelist bn)"
  have min: "min (nat (cfg_IncomingConnections (bn_config bn))) ?n = ?n"
    using ok False by (auto simp: bar_ok_def)
  obtain u where u: "find_nodes_loop cr (generateRoundSeed cr (bn\<lparr>bn_round := r\<rparr>) r) ?el [0..<?n] [] = Some u"
    "distinct u" "set u \<subseteq> {..<?n}" "length u = ?n"
    using find_nodes_loop_ok [of ?el "[]" "[0..<?n]" cr] False few by fastforce
  have "set u = {..<?n}" using u(2-4) by (metis card_lessThan card_subset_eq distinct_card finite_lessThan)
  then have "mset u = mset [0..<?n]" using u(2) by (metis atLeast_upt distinct_upt set_eq_iff_mset_eq_distinct)
  moreover have "map (\<lambda>i. pi_ID (?el ! i)) [0..<?n] = map fst (bn_whitelist bn)"
  proof (rule nth_equalityI)
    fix i assume "i < length (map (\<lambda>i. pi_ID (?el ! i)) [0..<?n])"
    then have i: "i < ?n" by simp
    then have "go_get (bn_whitelist bn) (fst (bn_whitelist bn ! i)) = Some (snd (bn_whitelist bn ! i))"
      using ok by (intro map_of_is_SomeI) (auto simp: bar_ok_def list_ok_def go_wf_def)
    then show "map (\<lambda>i. pi_ID (?el ! i)) [0..<?n] ! i = map fst (bn_whitelist bn) ! i"
      using i bar_ok_status(1) [OF ok] by simp
  qed simp
  ultimately have "mset (map (\<lambda>i. pi_ID (?el ! i)) u) = mset (map fst (bn_whitelist bn))"
    by (metis mset_map)
  moreover have "fst (FindNodes cr bn r) = Some (map (\<lambda>i. pi_ID (?el ! i)) u)"
    using False min u(1) by (simp add: FindNodes_def Let_def)
  ultimately show ?thesis using that by blast
qed

lemma banned_steps:
  assumes "(bar_step cr)\<^sup>*\<^sup>* bn bn'" "bar_ok bn" "go_get (bn_banned bn) q = Some i"
  shows "bar_ok bn' \<and> go_get (bn_banned bn') q = Some i"
  using assms(1)
proof (induction rule: rtranclp_induct)
  case base
  then show ?case using assms(2,3) by simp
next
  case (step y z)
  then show ?case using bar_ok_step [OF step.hyps(2)] banned_step [OF step.hyps(2)] by blast
qed

section \<open>Properties\<close>

text \<open>
  C37: The peer lists stay consistent.  In every state reachable by the operations of the BAR
  network, no peer is in two of the three lists, the stored status of a peer is that of the
  list it is in, which is also what \<^verbatim>\<open>GetPeerStatus\<close> returns, and the whitelist never holds more than
  \<open>IncomingConnections\<close> peers.
\<close>

theorem bar_lists_consistent:
  assumes "bar_reach cr seed cfg bn"
  shows "int (length (GetWhitelist bn)) \<le> max 0 (cfg_IncomingConnections (bn_config bn)) \<and>
    distinct (map fst (bn_whitelist bn @ bn_greylist bn @ bn_banned bn)) \<and>
    (\<forall>p info. go_get (bn_whitelist bn) p = Some info \<longrightarrow> pi_ID info = p \<and> GetPeerStatus bn p = (PeerStatusWhitelist, True)) \<and>
    (\<forall>p info. go_get (bn_greylist bn) p = Some info \<longrightarrow> pi_ID info = p \<and> GetPeerStatus bn p = (PeerStatusGreylist, True)) \<and>
    (\<forall>p info. go_get (bn_banned bn) p = Some info \<longrightarrow> pi_ID info = p \<and> GetPeerStatus bn p = (PeerStatusBanned, True))"
proof -
  have ok: "bar_ok bn" using bar_reach_ok [OF assms] .
  have in_list: "p \<in> fst ` set m \<longleftrightarrow> go_get m p \<noteq> None" for p and m :: "(peerID, PeerInfo) gomap"
    by (simp add: map_of_eq_None_iff)
  have "fst ` set (bn_whitelist bn) \<inter> fst ` set (bn_greylist bn) = {}"
    "fst ` set (bn_whitelist bn) \<inter> fst ` set (bn_banned bn) = {}"
    "fst ` set (bn_greylist bn) \<inter> fst ` set (bn_banned bn) = {}"
    using ok unfolding bar_ok_def disjoint_iff in_list by simp_all
  moreover have "distinct (map fst (bn_whitelist bn))" "distinct (map fst (bn_greylist bn))" "distinct (map fst (bn_banned bn))"
    using ok by (simp_all add: bar_ok_def list_ok_def go_wf_def)
  ultimately have "distinct (map fst (bn_whitelist bn @ bn_greylist bn @ bn_banned bn))" by auto
  moreover have "int (length (GetWhitelist bn)) \<le> max 0 (cfg_IncomingConnections (bn_config bn))"
    using ok by (simp add: bar_ok_def GetWhitelist_def)
  moreover have "pi_ID info = p \<and> GetPeerStatus bn p = (PeerStatusWhitelist, True)"
    if "go_get (bn_whitelist bn) p = Some info" for p info
    using bar_ok_status(1) [OF ok that] that by (simp add: GetPeerStatus_def)
  moreover have "pi_ID info = p \<and> GetPeerStatus bn p = (PeerStatusGreylist, True)"
    if "go_get (bn_greylist bn) p = Some info" for p info
  proof -
    have "go_get (bn_whitelist bn) p = None" using ok that unfolding bar_ok_def by (metis option.distinct(1))
    then show ?thesis using bar_ok_status(2) [OF ok that] that by (simp add: GetPeerStatus_def)
  qed
  moreover have "pi_ID info = p \<and> GetPeerStatus bn p = (PeerStatusBanned, True)"
    if "go_get (bn_banned bn) p = Some info" for p info
    using banned_other_lists [OF ok that] bar_ok_status(3) [OF ok that] that by (simp add: GetPeerStatus_def)
  ultimately show ?thesis by blast
qed

definition demo_bar :: BARNetwork where
  "demo_bar = snd (PromoteToWhitelist 2 (AddPeer 1 (AddPeer 1 (NewBARNetwork [] None) ''p'' ''addr'') ''q'' ''addr'') ''p'')"

lemma demo_bar_reach: "bar_reach demo_crypto [] None demo_bar"
  unfolding demo_bar_def by (intro reach_step [OF _ step_promote] reach_step [OF _ step_add] reach_init)

lemma demo_bar_lists: "map fst (bn_whitelist demo_bar) = [''p'']" "go_get (bn_whitelist demo_bar) ''p'' \<noteq> None"
    "go_get (bn_greylist demo_bar) ''q'' \<noteq> None" "go_get (bn_greylist demo_bar) ''p'' = None"
  by (simp_all add: demo_bar_def PromoteToWhitelist_def promoteToWhitelistNoLock_def AddPeer_def isPeerInAnyList_def
      NewBARNetwork_def default_config_def Let_def)

theorem bar_lists_consistent_witness:
  "GetPeerStatus demo_bar ''p'' = (PeerStatusWhitelist, True) \<and> GetPeerStatus demo_bar ''q'' = (PeerStatusGreylist, True)"
  using bar_lists_consistent [OF demo_bar_reach] demo_bar_lists by blast

text \<open>
  C38: A ban is final.  Once a peer is banned, no sequence of operations takes it off the banned
  list, and it is never again whitelisted or greylisted.
\<close>

theorem ban_is_permanent:
  assumes "bar_reach cr seed cfg bn" and "go_get (bn_banned bn) q = Some info" and "(bar_step cr)\<^sup>*\<^sup>* bn bn'"
  shows "go_get (bn_banned bn') q = Some info \<and> GetPeerStatus bn' q = (PeerStatusBanned, True) \<and>
    go_get (bn_whitelist bn') q = None \<and> go_get (bn_greylist bn') q = None"
proof -
  have ok: "bar_ok bn'" and ban: "go_get (bn_banned bn') q = Some info"
    using banned_steps [OF assms(3) bar_reach_ok [OF assms(1)] assms(2)] by auto
  then show ?thesis
    using banned_other_lists [OF ok ban] bar_ok_status(3) [OF ok ban] by (simp add: GetPeerStatus_def)
qed

theorem ban_is_permanent_witness:
  "GetPeerStatus (snd (PromoteToWhitelist 9 (AddPeer 8 (BanPeer demo_bar ''p'' ''bad'') ''p'' ''addr'') ''p'')) ''p'' =
     (PeerStatusBanned, True)"
proof -
  let ?bn = "BanPeer demo_bar ''p'' ''bad''"
  have reach: "bar_reach demo_crypto [] None ?bn" by (rule reach_step [OF demo_bar_reach step_ban])
  obtain info where "go_get (bn_banned ?bn) ''p'' = Some info"
    using demo_bar_lists(2) by (auto simp: BanPeer_def banPeerNoLock_def record_ban_def)
  moreover have "(bar_step demo_crypto)\<^sup>*\<^sup>* ?bn (snd (PromoteToWhitelist 9 (AddPeer 8 ?bn ''p'' ''addr'') ''p''))"
  proof (rule rtranclp.rtrancl_into_rtrancl)
    show "(bar_step demo_crypto)\<^sup>*\<^sup>* ?bn (AddPeer 8 ?bn ''p'' ''addr'')"
      by (rule r_into_rtranclp, rule step_add)
  qed (rule step_promote)
  ultimately show ?thesis using ban_is_permanent [OF reach] by blast
qed

text \<open>
  C36: \<^verbatim>\<open>FindNodes\<close> returns, and selects everyone.  Its probing loop always finds an unused index, and
  since a reachable whitelist is never larger than the number of peers to select, the result is
  the whole whitelist, every peer exactly once: the random numbers only affect its order.
\<close>

theorem find_nodes_selects_whitelist:
  assumes "bar_reach cr seed cfg bn" and "length (bn_whitelist bn) < 2 ^ 32"
  shows "\<exists>ids. fst (FindNodes cr bn r) = Some ids \<and> mset ids = mset (map pi_ID (GetWhitelist bn)) \<and> distinct ids"
proof -
  have ok: "bar_ok bn" using bar_reach_ok [OF assms(1)] .
  obtain ids where ids: "fst (FindNodes cr bn r) = Some ids" "mset ids = mset (map fst (bn_whitelist bn))"
    using FindNodes_perm [OF ok assms(2)] .
  have wf: "distinct (map fst (bn_whitelist bn))" using ok by (simp add: bar_ok_def list_ok_def go_wf_def)
  have "pi_ID (snd x) = fst x" if "x \<in> set (bn_whitelist bn)" for x
    using bar_ok_status(1) [OF ok, of "fst x" "snd x"] map_of_is_SomeI [OF wf, of "fst x" "snd x"] that by simp
  then have "map pi_ID (GetWhitelist bn) = map fst (bn_whitelist bn)" by (simp add: GetWhitelist_def)
  moreover have "distinct ids" using wf ids(2) mset_eq_imp_distinct_iff by blast
  ultimately show ?thesis using ids by simp
qed

theorem find_nodes_selects_whitelist_witness: "fst (FindNodes demo_crypto demo_bar 3) = Some [''p'']"
proof -
  have len: "length (bn_whitelist demo_bar) = 1" using demo_bar_lists(1) by (metis length_map length_Cons list.size(3) One_nat_def)
  obtain i where "bn_whitelist demo_bar = [(''p'', i)]"
    using demo_bar_lists(1) by (cases "bn_whitelist demo_bar") auto
  moreover have "pi_ID i = ''p''"
    using calculation bar_ok_status(1) [OF bar_reach_ok [OF demo_bar_reach], of "''p''" i] by simp
  ultimately show ?thesis
    using find_nodes_selects_whitelist [OF demo_bar_reach, of 3] len by (auto simp: GetWhitelist_def)
qed

text \<open>
  What a misbehaviour score does.  A whitelisted peer is demoted exactly when its new score
  reaches \<open>POMThreshold\<close>, a greylisted one is banned exactly when it reaches \<open>POMBanThreshold\<close>; no
  other peer moves.
\<close>

theorem score_moves_peers:
  assumes "bar_reach cr seed cfg bn"
    and "go_get (bn_whitelist bn) p = Some info \<or> go_get (bn_greylist bn) p = Some info"
  shows "fst (GetPeerStatus (UpdatePOMScore now bn p increment reason) p) =
      (if pi_Status info = PeerStatusWhitelist
       then if cfg_POMThreshold (bn_config bn) \<le> pi_POMScore info + increment then PeerStatusGreylist else PeerStatusWhitelist
       else if cfg_POMBanThreshold (bn_config bn) \<le> pi_POMScore info + increment then PeerStatusBanned else PeerStatusGreylist) \<and>
    (q \<noteq> p \<longrightarrow> GetPeerStatus (UpdatePOMScore now bn p increment reason) q = GetPeerStatus bn q)"
proof -
  have ok: "bar_ok bn" using bar_reach_ok [OF assms(1)] .
  show ?thesis
    using assms(2)
  proof
    assume w: "go_get (bn_whitelist bn) p = Some info"
    then show ?thesis
      using bar_ok_status(1) [OF ok w]
      by (auto simp: UpdatePOM_white [OF ok w refl] Let_def demoteToGreylistNoLock_def GetPeerStatus_def split: option.split)
  next
    assume g: "go_get (bn_greylist bn) p = Some info"
    moreover have "go_get (bn_whitelist bn) p = None" using ok g unfolding bar_ok_def by (metis option.distinct(1))
    ultimately show ?thesis
      using bar_ok_status(2) [OF ok g]
      by (auto simp: UpdatePOM_grey [OF ok g refl] Let_def banPeerNoLock_def record_ban_def GetPeerStatus_def split: option.split)
  qed
qed

theorem score_moves_peers_witness:
  "fst (GetPeerStatus (UpdatePOMScore 5 demo_bar ''p'' 7 ''late'') ''p'') = PeerStatusGreylist"
proof -
  obtain info where info: "go_get (bn_whitelist demo_bar) ''p'' = Some info" "pi_POMScore info = 0"
    by (simp add: demo_bar_def PromoteToWhitelist_def promoteToWhitelistNoLock_def AddPeer_def isPeerInAnyList_def
        NewBARNetwork_def default_config_def Let_def)
  have "cfg_POMThreshold (bn_config demo_bar) = 5"
    by (simp add: demo_bar_def PromoteToWhitelist_def promoteToWhitelistNoLock_def AddPeer_def isPeerInAnyList_def
        NewBARNetwork_def default_config_def Let_def)
  then show ?thesis
    using score_moves_peers [OF demo_bar_reach disjI1 [OF info(1)], of 5 7 "''late''"] info(2)
      bar_ok_status(1) [OF bar_reach_ok [OF demo_bar_reach] info(1)] by simp
qed

end
