(* ===== verification/P2p.thy ===== *)
theory P2p
  imports Bar_Network
begin

text \<open>
  \<^verbatim>\<open>p2p.go\<close>: the node's view of the publish/subscribe network, with its registered topics, its
  subscriptions and its bandwidth counters.  The libp2p library is the record \<open>libp2p\<close> of what its
  calls return; messages that were handed to it are kept in \<open>p2p_sent\<close>, in order, so that
  networks of nodes can be modelled.  Creating the node and peer discovery (\<^verbatim>\<open>NewP2PNode\<close>, \<^verbatim>\<open>Discover\<close>,
  \<^verbatim>\<open>GetListenPort\<close>) are in \<open>Program\<close>.
\<close>

section \<open>The library and the node\<close>

record libp2p =
  lp_join :: "string \<Rightarrow> bool"
  lp_subscribe :: "string \<Rightarrow> bool"
  lp_publish :: "string \<Rightarrow> bytes \<Rightarrow> bool"
  lp_parse_addr :: "string \<Rightarrow> (peerID \<times> string list) option"
  lp_connect :: "peerID \<Rightarrow> bool"
  lp_peer_encode :: "peerID \<Rightarrow> string"
  lp_peer_decode :: "string \<Rightarrow> peerID option"

text \<open>The documented round trip of \<^verbatim>\<open>peer.ID\<close> and its text form, for one identifier.\<close>

definition peer_ok :: "libp2p \<Rightarrow> peerID \<Rightarrow> bool" where
  "peer_ok lp p \<longleftrightarrow> lp_peer_decode lp (lp_peer_encode lp p) = Some p"

record Message =
  msg_Data :: bytes
  msg_ReceivedFrom :: peerID

text \<open>The four callbacks that the program passes to \<^verbatim>\<open>Subscribe\<close>.\<close>

datatype msg_handler = NodeHandler | HandshakeHandler | PushHandler | InactivityHandler

record P2PNode =
  p2p_ID :: peerID
  p2p_Addrs :: "string list"
  p2p_topics :: "string list"
  p2p_subs :: "(string \<times> msg_handler) list"
  p2p_bandwidthIn :: u64
  p2p_bandwidthOut :: u64
  p2p_sent :: "(string \<times> bytes) list"

section \<open>Operations\<close>

text \<open>A failing \<^verbatim>\<open>Join\<close> ends the process: \<open>None\<close>.\<close>

definition RegisterTopic :: "libp2p \<Rightarrow> P2PNode \<Rightarrow> string \<Rightarrow> P2PNode option" where
  "RegisterTopic lp p topicName =
     (if \<not> lp_join lp topicName then None
      else Some (p\<lparr>p2p_topics := List.insert topicName (p2p_topics p)\<rparr>))"

text \<open>Every topic registered so far gets a subscription with this handler.\<close>

definition Subscribe :: "libp2p \<Rightarrow> P2PNode \<Rightarrow> msg_handler \<Rightarrow> P2PNode" where
  "Subscribe lp p handler =
     p\<lparr>p2p_subs := p2p_subs p @ map (\<lambda>t. (t, handler)) (filter (lp_subscribe lp) (p2p_topics p))\<rparr>"

definition UpdateBandwidthIn :: "P2PNode \<Rightarrow> u64 \<Rightarrow> P2PNode" where
  "UpdateBandwidthIn p n = p\<lparr>p2p_bandwidthIn := p2p_bandwidthIn p + n\<rparr>"

definition UpdateBandwidthOut :: "P2PNode \<Rightarrow> u64 \<Rightarrow> P2PNode" where
  "UpdateBandwidthOut p n = p\<lparr>p2p_bandwidthOut := p2p_bandwidthOut p + n\<rparr>"

definition GetBandwidthStats :: "P2PNode \<Rightarrow> u64 \<times> u64" where
  "GetBandwidthStats p = (p2p_bandwidthIn p, p2p_bandwidthOut p)"

text \<open>
  One iteration of \<^verbatim>\<open>handleSubscription\<close>: \<open>None\<close> for a message that came from the node itself,
  otherwise the counted message is passed on to the handler.
\<close>

definition handleSubscription :: "P2PNode \<Rightarrow> Message \<Rightarrow> P2PNode option" where
  "handleSubscription p msg =
     (if msg_ReceivedFrom msg = p2p_ID p then None
      else Some (UpdateBandwidthIn p (of_nat (length (msg_Data msg)))))"

definition Publish :: "libp2p \<Rightarrow> P2PNode \<Rightarrow> string \<Rightarrow> bytes \<Rightarrow> gerror option \<times> P2PNode" where
  "Publish lp p topicName dat =
     (if topicName \<notin> set (p2p_topics p) then (Some (ErrNotSubscribed topicName), p)
      else
        (let p1 = UpdateBandwidthOut p (of_nat (length dat))
         in if \<not> lp_publish lp topicName dat then (Some ErrPublish, p1)
            else (None, p1\<lparr>p2p_sent := p2p_sent p1 @ [(topicName, dat)]\<rparr>)))"

text \<open>The second component is the call of \<^verbatim>\<open>OnPeerConnect\<close>, if any.\<close>

definition Connect :: "libp2p \<Rightarrow> string \<Rightarrow> gerror option \<times> (peerID \<times> string) option" where
  "Connect lp peerAddr =
     (case lp_parse_addr lp peerAddr of
        None \<Rightarrow> (Some (ErrConnect ''failed to get peer info from maddr''), None)
      | Some (peer, addrs) \<Rightarrow>
          if \<not> lp_connect lp peer then (Some (ErrConnect ''failed to connect to peer''), None)
          else (None, Some (peer, case addrs of [] \<Rightarrow> [] | a # _ \<Rightarrow> a)))"

definition GetListenAddr :: "P2PNode \<Rightarrow> string" where
  "GetListenAddr p = (case p2p_Addrs p of a # _ \<Rightarrow> a | [] \<Rightarrow> [])"

section \<open>Facts\<close>

lemma Publish_frame [simp]:
  "p2p_ID (snd (Publish lp p t d)) = p2p_ID p"
  "p2p_topics (snd (Publish lp p t d)) = p2p_topics p"
  "p2p_subs (snd (Publish lp p t d)) = p2p_subs p"
  "p2p_Addrs (snd (Publish lp p t d)) = p2p_Addrs p"
  by (simp_all add: Publish_def Let_def UpdateBandwidthOut_def)

lemma Publish_sent:
  "p2p_sent (snd (Publish lp p t d)) =
     p2p_sent p @ (if t \<in> set (p2p_topics p) \<and> lp_publish lp t d then [(t, d)] else [])"
  by (simp add: Publish_def Let_def UpdateBandwidthOut_def)

lemma Publish_ok_iff: "fst (Publish lp p t d) = None \<longleftrightarrow> t \<in> set (p2p_topics p) \<and> lp_publish lp t d"
  by (simp add: Publish_def Let_def)

text \<open>A library that accepts everything; identifiers are their own text form, the empty one excepted.\<close>

definition demo_libp2p :: libp2p where
  "demo_libp2p = \<lparr>lp_join = (\<lambda>_. True), lp_subscribe = (\<lambda>_. True), lp_publish = (\<lambda>_ _. True),
     lp_parse_addr = (\<lambda>s. Some (s, [s])), lp_connect = (\<lambda>_. True), lp_peer_encode = (\<lambda>p. p),
     lp_peer_decode = (\<lambda>s. if s = [] then None else Some s)\<rparr>"

end
