(* ===== verification/Float64.thy ===== *)
theory Float64
  imports Complex_Main
begin

text \<open>
  The \<open>float64\<close> arithmetic the program computes priorities and averages with: IEEE-754 binary64
  values, rounded to nearest with ties to even.  The two zeros are one value here; no
  expression of the program divides by a negative zero.
\<close>

datatype float64 = Fin rat | PInf | NInf | NaN

definition round_half_even :: "rat \<Rightarrow> int" where
  "round_half_even x =
     (let f = floor x; r = x - of_int f
      in if r < 1 / 2 then f else if 1 / 2 < r then f + 1 else if even f then f else f + 1)"

definition pow2 :: "int \<Rightarrow> rat" where
  "pow2 e = (if 0 \<le> e then 2 ^ nat e else 1 / 2 ^ nat (- e))"

function ilog2 :: "int \<Rightarrow> int" where
  "ilog2 i = (if i \<le> 1 then 0 else ilog2 (i div 2) + 1)"
  by pat_completeness auto
termination
  by (relation "measure nat") auto

declare ilog2.simps [simp del]

text \<open>The exponent of the leading bit of a positive rational.\<close>

definition exponent_of :: "rat \<Rightarrow> int" where
  "exponent_of x =
     (case quotient_of x of
        (n, d) \<Rightarrow>
          let e = ilog2 n - ilog2 d
          in if pow2 e \<le> x then e else e - 1)"

definition round64 :: "rat \<Rightarrow> float64" where
  "round64 x =
     (if x = 0 then Fin 0
      else
        (let q = max (- 1074) (exponent_of \<bar>x\<bar> - 52);
             m = of_int (round_half_even (\<bar>x\<bar> / pow2 q)) * pow2 q
         in if pow2 1024 \<le> m then (if 0 < x then PInf else NInf)
            else Fin (if 0 < x then m else - m)))"

definition f64_of_int :: "int \<Rightarrow> float64" where
  "f64_of_int i = round64 (of_int i)"

fun f64_add :: "float64 \<Rightarrow> float64 \<Rightarrow> float64" where
  "f64_add (Fin x) (Fin y) = round64 (x + y)"
| "f64_add NaN b = NaN"
| "f64_add a NaN = NaN"
| "f64_add PInf NInf = NaN"
| "f64_add NInf PInf = NaN"
| "f64_add PInf b = PInf"
| "f64_add NInf b = NInf"
| "f64_add a PInf = PInf"
| "f64_add a NInf = NInf"

fun f64_neg :: "float64 \<Rightarrow> float64" where
  "f64_neg (Fin x) = Fin (- x)"
| "f64_neg PInf = NInf"
| "f64_neg NInf = PInf"
| "f64_neg NaN = NaN"

fun f64_mul :: "float64 \<Rightarrow> float64 \<Rightarrow> float64" where
  "f64_mul (Fin x) (Fin y) = round64 (x * y)"
| "f64_mul NaN b = NaN"
| "f64_mul a NaN = NaN"
| "f64_mul (Fin x) b = (if x = 0 then NaN else if 0 < x then b else f64_neg b)"
| "f64_mul a (Fin y) = (if y = 0 then NaN else if 0 < y then a else f64_neg a)"
| "f64_mul a b = (if a = b then PInf else NInf)"

fun f64_div :: "float64 \<Rightarrow> float64 \<Rightarrow> float64" where
  "f64_div (Fin x) (Fin y) =
     (if y = 0 then (if x = 0 then NaN else if 0 < x then PInf else NInf) else round64 (x / y))"
| "f64_div NaN b = NaN"
| "f64_div a NaN = NaN"
| "f64_div (Fin x) b = Fin 0"
| "f64_div a (Fin y) = (if 0 \<le> y then a else f64_neg a)"
| "f64_div a b = NaN"

text \<open>The comparison \<^verbatim>\<open>a > b\<close>, false as soon as one side is not a number.\<close>

fun f64_gt :: "float64 \<Rightarrow> float64 \<Rightarrow> bool" where
  "f64_gt (Fin x) (Fin y) = (y < x)"
| "f64_gt NaN b = False"
| "f64_gt a NaN = False"
| "f64_gt PInf b = (b \<noteq> PInf)"
| "f64_gt a NInf = (a \<noteq> NInf)"
| "f64_gt a b = False"

lemma f64_gt_asym: "f64_gt a b \<Longrightarrow> \<not> f64_gt b a"
  by (cases a; cases b) auto

lemma f64_gt_irrefl [simp]: "\<not> f64_gt a a"
  using f64_gt_asym by blast

lemma f64_gt_negtrans: "b \<noteq> NaN \<Longrightarrow> \<not> f64_gt a b \<Longrightarrow> \<not> f64_gt b c \<Longrightarrow> \<not> f64_gt a c"
  by (cases a; cases b; cases c) auto

lemma round64_not_NaN [simp]: "round64 x \<noteq> NaN"
  by (simp add: round64_def Let_def)

lemma f64_of_int_not_NaN [simp]: "f64_of_int i \<noteq> NaN"
  by (simp add: f64_of_int_def)

end
