(* ===== verification/Metrics.thy ===== *)
theory Metrics
  imports Bar_Network Float64
begin

text \<open>
  \<^verbatim>\<open>metrics.go\<close>: the counters and sliding windows of the metrics collector and the maps it reports.
  Times and durations are nanoseconds; readings of \<^verbatim>\<open>time.Now()\<close> and of the Go runtime
  (\<^verbatim>\<open>ReadMemStats\<close>, \<^verbatim>\<open>NumGoroutine\<close>) are arguments.  A reported map is a list of named values.
\<close>

section \<open>Data\<close>

record MetricsCollector =
  mc_messageLatency :: "(string, int) gomap"
  mc_bandwidthIn :: u64
  mc_bandwidthOut :: u64
  mc_connectionErrors :: u64
  mc_peerCount :: int
  mc_blockHeight :: u64
  mc_blockTime :: int
  mc_committeeSize :: int
  mc_approvalRate :: float64
  mc_forkCount :: u64
  mc_finalityTime :: int
  mc_databaseSizeBytes :: u64
  mc_transactionCount :: u64
  mc_blockCount :: u64
  mc_validatorCount :: int
  mc_memoryUsageBytes :: u64
  mc_cpuUsagePercent :: float64
  mc_goroutineCount :: int
  mc_transactionTPS :: float64
  mc_blockTPS :: float64
  mc_syncing :: bool
  mc_syncProgress :: float64
  mc_syncSpeed :: float64
  mc_peersSyncing :: int
  mc_syncErrors :: u64
  mc_blockTimes :: "gtime list"
  mc_transactionTimes :: "gtime list"
  mc_lastUpdate :: gtime

datatype metric = MInt int | MFloat float64 | MBool bool | MText string | MMap "(string \<times> metric) list"

definition NewMetricsCollector :: "gtime \<Rightarrow> MetricsCollector" where
  "NewMetricsCollector now =
     \<lparr>mc_messageLatency = [], mc_bandwidthIn = 0, mc_bandwidthOut = 0, mc_connectionErrors = 0, mc_peerCount = 0,
      mc_blockHeight = 0, mc_blockTime = 0, mc_committeeSize = 0, mc_approvalRate = Fin 0, mc_forkCount = 0,
      mc_finalityTime = 0, mc_databaseSizeBytes = 0, mc_transactionCount = 0, mc_blockCount = 0,
      mc_validatorCount = 0, mc_memoryUsageBytes = 0, mc_cpuUsagePercent = Fin 0, mc_goroutineCount = 0,
      mc_transactionTPS = Fin 0, mc_blockTPS = Fin 0, mc_syncing = False, mc_syncProgress = Fin 0,
      mc_syncSpeed = Fin 0, mc_peersSyncing = 0, mc_syncErrors = 0, mc_blockTimes = [], mc_transactionTimes = [],
      mc_lastUpdate = now\<rparr>"

section \<open>Recording\<close>

definition UpdateNetworkMetrics :: "MetricsCollector \<Rightarrow> int \<Rightarrow> u64 \<Rightarrow> u64 \<Rightarrow> MetricsCollector" where
  "UpdateNetworkMetrics mc peerCount bIn bOut =
     mc\<lparr>mc_peerCount := peerCount, mc_bandwidthIn := bIn, mc_bandwidthOut := bOut\<rparr>"

definition RecordMessageLatency :: "MetricsCollector \<Rightarrow> string \<Rightarrow> int \<Rightarrow> MetricsCollector" where
  "RecordMessageLatency mc messageType latency =
     mc\<lparr>mc_messageLatency := go_set (mc_messageLatency mc) messageType latency\<rparr>"

definition IncrementConnectionErrors :: "MetricsCollector \<Rightarrow> MetricsCollector" where
  "IncrementConnectionErrors mc = mc\<lparr>mc_connectionErrors := mc_connectionErrors mc + 1\<rparr>"

definition UpdateConsensusMetrics :: "MetricsCollector \<Rightarrow> u64 \<Rightarrow> int \<Rightarrow> float64 \<Rightarrow> MetricsCollector" where
  "UpdateConsensusMetrics mc height committeeSize approvalRate =
     mc\<lparr>mc_blockHeight := height, mc_committeeSize := committeeSize, mc_approvalRate := approvalRate\<rparr>"

text \<open>\<^verbatim>\<open>Duration.Seconds\<close>: whole seconds and nanoseconds are converted separately.\<close>

definition seconds :: "int \<Rightarrow> float64" where
  "seconds d =
     (let s = (if 0 \<le> d then d div 1000000000 else - ((- d) div 1000000000))
      in f64_add (f64_of_int s) (f64_div (f64_of_int (d - s * 1000000000)) (f64_of_int 1000000000)))"

text \<open>Appending a time to a window of at most \<open>n\<close> times.\<close>

definition push_time :: "nat \<Rightarrow> gtime list \<Rightarrow> gtime \<Rightarrow> gtime list" where
  "push_time n ts now = (let ts' = ts @ [now] in if n < length ts' then tl ts' else ts')"

text \<open>The rate over a window, or the old value when it cannot be computed.\<close>

definition window_rate :: "gtime list \<Rightarrow> float64 \<Rightarrow> float64" where
  "window_rate ts old =
     (if 2 \<le> length ts then
        (let timeSpan = last ts - hd ts
         in if 0 < timeSpan then f64_div (f64_of_int (int (length ts) - 1)) (seconds timeSpan) else old)
      else old)"

definition RecordBlockProduction :: "gtime \<Rightarrow> MetricsCollector \<Rightarrow> MetricsCollector" where
  "RecordBlockProduction now mc =
     (let ts = push_time 100 (mc_blockTimes mc) now
      in mc\<lparr>mc_blockTimes := ts, mc_blockCount := mc_blockCount mc + 1,
            mc_blockTime := (if 2 \<le> length ts then last ts - ts ! (length ts - 2) else mc_blockTime mc),
            mc_blockTPS := window_rate ts (mc_blockTPS mc)\<rparr>)"

definition RecordTransaction :: "gtime \<Rightarrow> MetricsCollector \<Rightarrow> MetricsCollector" where
  "RecordTransaction now mc =
     (let ts = push_time 1000 (mc_transactionTimes mc) now
      in mc\<lparr>mc_transactionTimes := ts, mc_transactionCount := mc_transactionCount mc + 1,
            mc_transactionTPS := window_rate ts (mc_transactionTPS mc)\<rparr>)"

definition UpdateStorageMetrics :: "MetricsCollector \<Rightarrow> u64 \<Rightarrow> u64 \<Rightarrow> u64 \<Rightarrow> int \<Rightarrow> MetricsCollector" where
  "UpdateStorageMetrics mc databaseSize transactionCount blockCount validatorCount =
     mc\<lparr>mc_databaseSizeBytes := databaseSize, mc_transactionCount := transactionCount,
        mc_blockCount := blockCount, mc_validatorCount := validatorCount\<rparr>"

definition UpdatePerformanceMetrics :: "gtime \<Rightarrow> u64 \<Rightarrow> int \<Rightarrow> MetricsCollector \<Rightarrow> MetricsCollector" where
  "UpdatePerformanceMetrics now alloc goroutines mc =
     mc\<lparr>mc_memoryUsageBytes := alloc, mc_goroutineCount := goroutines, mc_cpuUsagePercent := Fin 0,
        mc_lastUpdate := now\<rparr>"

definition UpdateSyncMetrics :: "MetricsCollector \<Rightarrow> bool \<Rightarrow> float64 \<Rightarrow> float64 \<Rightarrow> int \<Rightarrow> MetricsCollector" where
  "UpdateSyncMetrics mc syncing progress speed peersSyncing =
     mc\<lparr>mc_syncing := syncing, mc_syncProgress := progress, mc_syncSpeed := speed, mc_peersSyncing := peersSyncing\<rparr>"

definition IncrementSyncErrors :: "MetricsCollector \<Rightarrow> MetricsCollector" where
  "IncrementSyncErrors mc = mc\<lparr>mc_syncErrors := mc_syncErrors mc + 1\<rparr>"

definition IncrementForkCount :: "MetricsCollector \<Rightarrow> MetricsCollector" where
  "IncrementForkCount mc = mc\<lparr>mc_forkCount := mc_forkCount mc + 1\<rparr>"

definition RecordFinalityTime :: "MetricsCollector \<Rightarrow> int \<Rightarrow> MetricsCollector" where
  "RecordFinalityTime mc finalityTime = mc\<lparr>mc_finalityTime := finalityTime\<rparr>"

section \<open>Reporting\<close>

definition avg_latency :: "MetricsCollector \<Rightarrow> float64" where
  "avg_latency mc =
     (if mc_messageLatency mc \<noteq> []
      then f64_div (f64_of_int (sum_list (map snd (mc_messageLatency mc)))) (f64_of_int (int (length (mc_messageLatency mc))))
      else Fin 0)"

definition avg_block_time :: "MetricsCollector \<Rightarrow> float64" where
  "avg_block_time mc =
     (let ts = mc_blockTimes mc
      in if 2 \<le> length ts \<and> 0 < last ts - hd ts
         then f64_div (seconds (last ts - hd ts)) (f64_of_int (int (length ts) - 1))
         else Fin 0)"

definition GetNetworkMetrics :: "MetricsCollector \<Rightarrow> (string \<times> metric) list" where
  "GetNetworkMetrics mc =
     [(''connected_peers'', MInt (mc_peerCount mc)), (''message_latency'', MFloat (avg_latency mc)),
      (''bandwidth_in'', MInt (uint (mc_bandwidthIn mc))), (''bandwidth_out'', MInt (uint (mc_bandwidthOut mc))),
      (''connection_errors'', MInt (uint (mc_connectionErrors mc)))]"

definition GetConsensusMetrics :: "MetricsCollector \<Rightarrow> (string \<times> metric) list" where
  "GetConsensusMetrics mc =
     [(''block_height'', MInt (uint (mc_blockHeight mc))), (''block_time'', MFloat (avg_block_time mc)),
      (''committee_size'', MInt (mc_committeeSize mc)), (''approval_rate'', MFloat (mc_approvalRate mc)),
      (''fork_count'', MInt (uint (mc_forkCount mc))), (''finality_time'', MFloat (seconds (mc_finalityTime mc)))]"

definition GetPerformanceMetrics :: "MetricsCollector \<Rightarrow> (string \<times> metric) list" where
  "GetPerformanceMetrics mc =
     [(''memory_usage_bytes'', MInt (uint (mc_memoryUsageBytes mc))),
      (''cpu_usage_percent'', MFloat (mc_cpuUsagePercent mc)), (''goroutine_count'', MInt (mc_goroutineCount mc)),
      (''transaction_tps'', MFloat (mc_transactionTPS mc)), (''block_tps'', MFloat (mc_blockTPS mc))]"

definition GetStorageMetrics :: "MetricsCollector \<Rightarrow> (string \<times> metric) list" where
  "GetStorageMetrics mc =
     [(''database_size_bytes'', MInt (uint (mc_databaseSizeBytes mc))),
      (''transaction_count'', MInt (uint (mc_transactionCount mc))),
      (''block_count'', MInt (uint (mc_blockCount mc))), (''validator_count'', MInt (mc_validatorCount mc))]"

definition GetSyncMetrics :: "MetricsCollector \<Rightarrow> (string \<times> metric) list" where
  "GetSyncMetrics mc =
     [(''syncing'', MBool (mc_syncing mc)), (''sync_progress'', MFloat (mc_syncProgress mc)),
      (''sync_speed'', MFloat (mc_syncSpeed mc)), (''peers_syncing'', MInt (mc_peersSyncing mc)),
      (''sync_errors'', MInt (uint (mc_syncErrors mc)))]"

text \<open>The formatted time is an argument; the network part here names its first entry differently.\<close>

definition GetMetrics :: "string \<Rightarrow> MetricsCollector \<Rightarrow> (string \<times> metric) list" where
  "GetMetrics timestamp mc =
     [(''timestamp'', MText timestamp),
      (''network'', MMap ((''peer_count'', MInt (mc_peerCount mc)) # tl (GetNetworkMetrics mc))),
      (''consensus'', MMap (GetConsensusMetrics mc)),
      (''storage'', MMap (GetStorageMetrics mc)),
      (''performance'', MMap (GetPerformanceMetrics mc)),
      (''sync'', MMap (GetSyncMetrics mc))]"

definition Reset :: "gtime \<Rightarrow> MetricsCollector \<Rightarrow> MetricsCollector" where
  "Reset now mc =
     mc\<lparr>mc_messageLatency := [], mc_bandwidthIn := 0, mc_bandwidthOut := 0, mc_connectionErrors := 0,
        mc_peerCount := 0, mc_blockHeight := 0, mc_blockTime := 0, mc_committeeSize := 0,
        mc_approvalRate := Fin 0, mc_forkCount := 0, mc_finalityTime := 0, mc_databaseSizeBytes := 0,
        mc_transactionCount := 0, mc_blockCount := 0, mc_validatorCount := 0, mc_memoryUsageBytes := 0,
        mc_cpuUsagePercent := Fin 0, mc_goroutineCount := 0, mc_transactionTPS := Fin 0, mc_blockTPS := Fin 0,
        mc_syncing := False, mc_syncProgress := Fin 0, mc_syncSpeed := Fin 0, mc_peersSyncing := 0,
        mc_syncErrors := 0, mc_blockTimes := [], mc_transactionTimes := [], mc_lastUpdate := now\<rparr>"

section \<open>The sliding windows\<close>

lemma push_time_drop: "push_time n (drop (length ts - n) ts) t = drop (length (ts @ [t]) - n) (ts @ [t])"
proof (cases "n \<le> length ts")
  case True
  have "drop (length ts - n) ts @ [t] = drop (length ts - n) (ts @ [t])" by simp
  moreover have "tl (drop k xs) = drop (Suc k) xs" for k and xs :: "gtime list" by (simp add: drop_Suc tl_drop)
  ultimately show ?thesis using True by (simp only: push_time_def Let_def) (simp add: Suc_diff_le)
next
  case False
  then show ?thesis by (simp add: push_time_def Let_def)
qed

definition record_blocks :: "MetricsCollector \<Rightarrow> gtime list \<Rightarrow> MetricsCollector" where
  "record_blocks mc ts = foldl (\<lambda>mc t. RecordBlockProduction t mc) mc ts"

definition record_transactions :: "MetricsCollector \<Rightarrow> gtime list \<Rightarrow> MetricsCollector" where
  "record_transactions mc ts = foldl (\<lambda>mc t. RecordTransaction t mc) mc ts"

lemma record_blocks_snoc: "record_blocks mc (ts @ [t]) = RecordBlockProduction t (record_blocks mc ts)"
  by (simp add: record_blocks_def)

lemma record_transactions_snoc: "record_transactions mc (ts @ [t]) = RecordTransaction t (record_transactions mc ts)"
  by (simp add: record_transactions_def)

lemma record_blocks_window:
  "mc_blockTimes (record_blocks (NewMetricsCollector t0) ts) = drop (length ts - 100) ts \<and>
   mc_blockCount (record_blocks (NewMetricsCollector t0) ts) = of_nat (length ts)"
proof (induction ts rule: rev_induct)
  case Nil
  show ?case by (simp add: record_blocks_def NewMetricsCollector_def)
next
  case (snoc t ts)
  then show ?case
    using push_time_drop [of 100 ts t] by (simp add: record_blocks_snoc RecordBlockProduction_def Let_def)
qed

lemma record_transactions_window:
  "mc_transactionTimes (record_transactions (NewMetricsCollector t0) ts) = drop (length ts - 1000) ts \<and>
   mc_transactionCount (record_transactions (NewMetricsCollector t0) ts) = of_nat (length ts)"
proof (induction ts rule: rev_induct)
  case Nil
  show ?case by (simp add: record_transactions_def NewMetricsCollector_def)
next
  case (snoc t ts)
  then show ?case
    using push_time_drop [of 1000 ts t] by (simp add: record_transactions_snoc RecordTransaction_def Let_def)
qed

section \<open>Properties\<close>

text \<open>
  The sliding windows of the metrics.  However many blocks and transactions are recorded,
  the collector keeps exactly the last 100 block times and the last 1000 transaction times, in
  order, and its two counters are the numbers of recorded events (modulo \<open>2^64\<close>); the block time
  is the distance of the last two blocks and the rates are taken over the windows.
\<close>

theorem metrics_windows:
  "mc_blockTimes (record_blocks (NewMetricsCollector t0) (bs @ [b, b'])) = drop (length bs - 98) (bs @ [b, b']) \<and>
   mc_blockCount (record_blocks (NewMetricsCollector t0) bs) = of_nat (length bs) \<and>
   mc_blockTime (record_blocks (NewMetricsCollector t0) (bs @ [b, b'])) = b' - b \<and>
   mc_blockTPS (record_blocks (NewMetricsCollector t0) (bs @ [b, b'])) =
     window_rate (drop (length bs - 98) (bs @ [b, b'])) (mc_blockTPS (record_blocks (NewMetricsCollector t0) (bs @ [b]))) \<and>
   mc_transactionTimes (record_transactions (NewMetricsCollector t0) txs) = drop (length txs - 1000) txs \<and>
   mc_transactionCount (record_transactions (NewMetricsCollector t0) txs) = of_nat (length txs)"
proof -
  let ?mc = "record_blocks (NewMetricsCollector t0) (bs @ [b])"
  have w: "push_time 100 (mc_blockTimes ?mc) b' = drop (length bs - 98) (bs @ [b, b'])"
    using record_blocks_window [of t0 "bs @ [b]"] push_time_drop [of 100 "bs @ [b]" b'] by simp
  have step: "record_blocks (NewMetricsCollector t0) (bs @ [b, b']) = RecordBlockProduction b' ?mc"
    using record_blocks_snoc [of _ "bs @ [b]" b'] by simp
  have "last (bs @ [b, b']) - drop (length bs - 98) (bs @ [b, b']) ! (length bs - (length bs - 98)) = b' - b"
    by (simp add: nth_append)
  then show ?thesis
    using w record_blocks_window [of t0 bs] record_transactions_window [of t0 txs] unfolding step
    by (simp add: RecordBlockProduction_def Let_def)
qed

end
