(* ===== verification/Merkle_Trie.thy ===== *)
theory Merkle_Trie
  imports Types
begin

text \<open>
  \<^verbatim>\<open>merkle_trie.go\<close>: a binary trie over the bits of the key, most significant bit first,
  whose nodes carry SHA-3 hashes, and beside it a Go map of all pairs.  The recursion of
  \<open>insert\<close> and \<open>get\<close> over a depth counter is shown equal to a structural recursion over the
  list of key bits, on which the lookup laws are proved.  For keys of one length the trie
  is canonical: its root is a function of its contents (\<open>canonical_unique\<close>), and equal
  root hashes mean equal contents unless SHA-3 collides on what the tries hash
  (\<open>canonical_binding\<close>).
\<close>

section \<open>Nodes\<close>

text \<open>\<open>NilNode\<close> is the nil pointer; a nil \<open>Value\<close> is \<open>None\<close>.\<close>

datatype Node =
    NilNode
  | Node (node_Hash: hash) (node_Value: "bytes option") (node_Key: bytes)
      (node_Left: Node) (node_Right: Node)

definition emptyNode :: Node where
  "emptyNode = Node 0 None [] NilNode NilNode"

record MerkleTrie =
  mt_Root :: Node
  mt_kvMap :: "(bytes, bytes option) gomap"

definition NewMerkleTrie :: MerkleTrie where
  "NewMerkleTrie = \<lparr>mt_Root = emptyNode, mt_kvMap = []\<rparr>"

text \<open>\<^verbatim>\<open>(key[depth/8] >> (7 - (depth % 8))) & 1\<close>, as a truth value.\<close>

definition key_bit :: "bytes \<Rightarrow> nat \<Rightarrow> bool" where
  "key_bit key depth = odd (drop_bit (7 - depth mod 8) (of_char (key ! (depth div 8)) :: nat))"

fun hash_or_zero :: "Node \<Rightarrow> hash" where
  "hash_or_zero NilNode = 0"
| "hash_or_zero (Node h v k l r) = h"

definition recalculateHash :: "crypto \<Rightarrow> Node \<Rightarrow> Node \<Rightarrow> hash" where
  "recalculateHash cr left right =
     sha3_256 cr (hash_bytes (hash_or_zero left) @ hash_bytes (hash_or_zero right))"

text \<open>
  \<open>insert\<close> starts at depth 0 and stops at \<^verbatim>\<open>len(key)*8\<close>, which the counter meets exactly; a
  larger depth, where \<^verbatim>\<open>key[depth/8]\<close> would be out of range, does not occur.
\<close>

function trie_insert :: "crypto \<Rightarrow> Node \<Rightarrow> bytes \<Rightarrow> bytes option \<Rightarrow> nat \<Rightarrow> Node" where
  "trie_insert cr node key dat depth =
     (case (if node = NilNode then emptyNode else node) of
        NilNode \<Rightarrow> NilNode
      | Node h v k l r \<Rightarrow>
          if length key * 8 \<le> depth then
            Node (sha3_256 cr (case dat of Some d \<Rightarrow> d | None \<Rightarrow> [])) dat key l r
          else if \<not> key_bit key depth then
            (let l' = trie_insert cr l key dat (depth + 1)
             in Node (recalculateHash cr l' r) v k l' r)
          else
            (let r' = trie_insert cr r key dat (depth + 1)
             in Node (recalculateHash cr l r') v k l r'))"
  by pat_completeness auto
termination
  by (relation "measure (\<lambda>(cr, node, key, dat, depth). length key * 8 - depth)") auto

function trie_get :: "Node \<Rightarrow> bytes \<Rightarrow> nat \<Rightarrow> Node" where
  "trie_get node key depth =
     (case node of
        NilNode \<Rightarrow> NilNode
      | Node h v k l r \<Rightarrow>
          if length key * 8 \<le> depth then node
          else if \<not> key_bit key depth then trie_get l key (depth + 1)
          else trie_get r key (depth + 1))"
  by pat_completeness auto
termination
  by (relation "measure (\<lambda>(node, key, depth). length key * 8 - depth)") auto

declare trie_insert.simps [simp del] trie_get.simps [simp del]

definition Trie_Insert :: "crypto \<Rightarrow> MerkleTrie \<Rightarrow> bytes \<Rightarrow> bytes option \<Rightarrow> MerkleTrie" where
  "Trie_Insert cr t key dat =
     t\<lparr>mt_Root := trie_insert cr (mt_Root t) key dat 0,
       mt_kvMap := go_set (mt_kvMap t) key dat\<rparr>"

definition Trie_Get :: "MerkleTrie \<Rightarrow> bytes \<Rightarrow> bytes option" where
  "Trie_Get t key =
     (case trie_get (mt_Root t) key 0 of
        NilNode \<Rightarrow> None
      | Node h v k l r \<Rightarrow> v)"

definition Trie_All :: "MerkleTrie \<Rightarrow> (bytes \<times> bytes option) list" where
  "Trie_All t = map (\<lambda>(key, v). (key, v)) (mt_kvMap t)"

section \<open>The structural view\<close>

definition key_bits :: "bytes \<Rightarrow> bool list" where
  "key_bits key = map (key_bit key) [0..<length key * 8]"

fun put_bits :: "crypto \<Rightarrow> Node \<Rightarrow> bool list \<Rightarrow> bytes \<Rightarrow> bytes option \<Rightarrow> Node" where
  "put_bits cr NilNode [] key dat =
     Node (sha3_256 cr (case dat of Some d \<Rightarrow> d | None \<Rightarrow> [])) dat key NilNode NilNode"
| "put_bits cr (Node h v k l r) [] key dat =
     Node (sha3_256 cr (case dat of Some d \<Rightarrow> d | None \<Rightarrow> [])) dat key l r"
| "put_bits cr NilNode (b # bs) key dat =
     (let c = put_bits cr NilNode bs key dat
      in if b then Node (recalculateHash cr NilNode c) None [] NilNode c
         else Node (recalculateHash cr c NilNode) None [] c NilNode)"
| "put_bits cr (Node h v k l r) (b # bs) key dat =
     (if b then (let r' = put_bits cr r bs key dat in Node (recalculateHash cr l r') v k l r')
      else (let l' = put_bits cr l bs key dat in Node (recalculateHash cr l' r) v k l' r))"

fun get_bits :: "Node \<Rightarrow> bool list \<Rightarrow> bytes option" where
  "get_bits NilNode bs = None"
| "get_bits (Node h v k l r) [] = v"
| "get_bits (Node h v k l r) (b # bs) = get_bits (if b then r else l) bs"

lemma length_key_bits [simp]: "length (key_bits key) = length key * 8"
  by (simp add: key_bits_def)

lemma drop_key_bits_step:
  "d < length key * 8 \<Longrightarrow> drop d (key_bits key) = key_bit key d # drop (Suc d) (key_bits key)"
  by (simp add: key_bits_def drop_map upt_conv_Cons)

lemma trie_insert_put_bits:
  "trie_insert cr node key dat depth = put_bits cr node (drop depth (key_bits key)) key dat"
proof (induction cr node key dat depth rule: trie_insert.induct)
  case (1 cr node key dat depth)
  show ?case
  proof (cases "length key * 8 \<le> depth")
    case True
    then show ?thesis
      by (cases node) (simp_all add: trie_insert.simps [of cr _ key dat depth] emptyNode_def)
  next
    case False
    then have step: "drop depth (key_bits key) = key_bit key depth # drop (Suc depth) (key_bits key)"
      by (simp add: drop_key_bits_step)
    show ?thesis
      using 1 False
      by (cases node; cases "key_bit key depth")
        (simp_all add: trie_insert.simps [of cr _ key dat depth] step emptyNode_def Let_def)
  qed
qed

lemma trie_get_get_bits:
  "(case trie_get node key depth of NilNode \<Rightarrow> None | Node h v k l r \<Rightarrow> v) =
     get_bits node (drop depth (key_bits key))"
proof (induction node key depth rule: trie_get.induct)
  case (1 node key depth)
  show ?case
  proof (cases "length key * 8 \<le> depth")
    case True
    then show ?thesis by (cases node) (simp_all add: trie_get.simps [of _ key depth])
  next
    case False
    then have step: "drop depth (key_bits key) = key_bit key depth # drop (Suc depth) (key_bits key)"
      by (simp add: drop_key_bits_step)
    show ?thesis
      using 1 False
      by (cases node; cases "key_bit key depth") (simp_all add: trie_get.simps [of _ key depth] step)
  qed
qed

lemma Trie_Get_bits: "Trie_Get t key = get_bits (mt_Root t) (key_bits key)"
  using trie_get_get_bits [of "mt_Root t" key 0] by (simp add: Trie_Get_def)

lemma mt_Root_Insert: "mt_Root (Trie_Insert cr t key dat) = put_bits cr (mt_Root t) (key_bits key) key dat"
  by (simp add: Trie_Insert_def trie_insert_put_bits)

lemma get_put_bits:
  "get_bits (put_bits cr n bs key dat) cs = (if cs = bs then dat else get_bits n cs)"
proof (induction cr n bs key dat arbitrary: cs rule: put_bits.induct)
  case (3 cr b bs key dat)
  then show ?case by (cases cs) (auto simp: Let_def)
next
  case (4 cr h v k l r b bs key dat)
  then show ?case by (cases cs) (auto simp: Let_def)
next
  case (1 cr key dat)
  then show ?case by (cases cs) auto
next
  case (2 cr h v k l r key dat)
  then show ?case by (cases cs) auto
qed

section \<open>Key bits determine the key\<close>

lemma char_eq_bits:
  assumes "\<And>j. j < 8 \<Longrightarrow> odd (drop_bit j (of_char a :: nat)) = odd (drop_bit j (of_char b :: nat))"
  shows "a = b"
proof -
  have "bit (of_char a :: nat) j = bit (of_char b :: nat) j" for j
  proof (cases "j < 8")
    case True
    then show ?thesis using assms [of j] by (simp add: bit_iff_odd_drop_bit)
  next
    case False
    have "\<not> bit (of_char c :: nat) j" for c
    proof -
      have "(of_char c :: nat) < 2 ^ 8" using of_char_less [of c] by simp
      also have "\<dots> \<le> 2 ^ j" using False by (intro power_increasing) auto
      finally have "(of_char c :: nat) < 2 ^ j" .
      then show ?thesis by (simp add: bit_iff_odd)
    qed
    then show ?thesis by simp
  qed
  then have "(of_char a :: nat) = of_char b" by (rule bit_eqI)
  then show ?thesis by simp
qed

lemma key_bits_inject [simp]: "key_bits k = key_bits k' \<longleftrightarrow> k = k'"
proof
  assume eq: "key_bits k = key_bits k'"
  then have len: "length k = length k'" by (metis length_key_bits mult_cancel2 zero_neq_numeral)
  have bit: "key_bit k d = key_bit k' d" if "d < length k * 8" for d
    using arg_cong [OF eq, of "\<lambda>bs. bs ! d"] that len by (simp add: key_bits_def)
  show "k = k'"
  proof (rule nth_equalityI [OF len])
    fix i assume i: "i < length k"
    show "k ! i = k' ! i"
    proof (rule char_eq_bits)
      fix j :: nat assume j: "j < 8"
      define m where "m = 7 - j"
      then have m: "m < 8" "7 - m = j" using j by auto
      have "i * 8 + m < length k * 8" using i m by linarith
      moreover have "(i * 8 + m) div 8 = i" "(i * 8 + m) mod 8 = m" using m by simp_all
      ultimately show "odd (drop_bit j (of_char (k ! i) :: nat)) = odd (drop_bit j (of_char (k' ! i) :: nat))"
        using bit [of "i * 8 + m"] m by (simp add: key_bit_def)
    qed
  qed
qed simp

lemma Trie_Get_Insert [simp]:
  "Trie_Get (Trie_Insert cr t k v) j = (if j = k then v else Trie_Get t j)"
  by (simp add: Trie_Get_bits mt_Root_Insert get_put_bits)

lemma Trie_Get_New [simp]: "Trie_Get NewMerkleTrie k = None"
  by (cases "key_bits k") (simp_all add: Trie_Get_bits NewMerkleTrie_def emptyNode_def)

section \<open>The map beside the trie\<close>

text \<open>The map and the trie hold the same pairs; nil values are in neither from a reader's view.\<close>

definition trie_agrees :: "MerkleTrie \<Rightarrow> bool" where
  "trie_agrees t \<longleftrightarrow> go_wf (mt_kvMap t) \<and>
     (\<forall>k. Trie_Get t k = Option.bind (go_get (mt_kvMap t) k) (\<lambda>v. v))"

lemma trie_agrees_New: "trie_agrees NewMerkleTrie"
  by (simp add: trie_agrees_def) (simp add: NewMerkleTrie_def)

lemma trie_agrees_Insert: "trie_agrees t \<Longrightarrow> trie_agrees (Trie_Insert cr t k v)"
  by (simp add: trie_agrees_def) (simp add: Trie_Insert_def)

lemma Trie_All_mem: "trie_agrees t \<Longrightarrow> (k, Some v) \<in> set (Trie_All t) \<longleftrightarrow> Trie_Get t k = Some v"
  by (auto simp: trie_agrees_def Trie_All_def go_wf_mem bind_eq_Some_conv)

section \<open>Keys of one length: a canonical trie\<close>

text \<open>
  \<open>canonical cr d n\<close>: \<open>n\<close> is a (possibly empty) subtrie for keys with \<open>d\<close> bits left.  Values sit
  at depth \<open>d\<close> only, no subtrie is empty without being nil, and every hash is the one of
  the children or of the value.
\<close>

fun canonical :: "crypto \<Rightarrow> nat \<Rightarrow> Node \<Rightarrow> bool" where
  "canonical cr d NilNode = True"
| "canonical cr 0 (Node h v k l r) =
     (case v of None \<Rightarrow> False | Some x \<Rightarrow> h = sha3_256 cr x \<and> l = NilNode \<and> r = NilNode)"
| "canonical cr (Suc d) (Node h v k l r) =
     (h = recalculateHash cr l r \<and> v = None \<and> k = [] \<and> canonical cr d l \<and> canonical cr d r \<and>
      \<not> (l = NilNode \<and> r = NilNode))"

lemma put_bits_not_Nil [simp]: "put_bits cr n bs key dat \<noteq> NilNode"
  by (cases "(cr, n, bs, key, dat)" rule: put_bits.cases) (auto simp: Let_def)

lemma canonical_put_bits:
  "canonical cr (length bs) n \<Longrightarrow> canonical cr (length bs) (put_bits cr n bs key (Some x))"
proof (induction cr n bs key "Some x" rule: put_bits.induct)
  case (2 cr h v k l r key)
  then show ?case by (cases v) auto
qed (auto simp: Let_def)

lemma canonical_nonempty:
  "canonical cr d n \<Longrightarrow> n \<noteq> NilNode \<Longrightarrow> \<exists>bs v. length bs = d \<and> get_bits n bs = Some v"
proof (induction cr d n rule: canonical.induct)
  case (2 cr h v k l r)
  then show ?case by (auto split: option.splits)
next
  case (3 cr d h v k l r)
  then consider "l \<noteq> NilNode" | "r \<noteq> NilNode" by auto
  then show ?case
  proof cases
    case 1
    then obtain bs w where "length bs = d" "get_bits l bs = Some w" using 3 by auto
    then show ?thesis by (intro exI [of _ "False # bs"]) auto
  next
    case 2
    then obtain bs w where "length bs = d" "get_bits r bs = Some w" using 3 by auto
    then show ?thesis by (intro exI [of _ "True # bs"]) auto
  qed
qed auto

text \<open>The bytes a canonical trie hashes.\<close>

fun hash_inputs :: "nat \<Rightarrow> Node \<Rightarrow> bytes set" where
  "hash_inputs d NilNode = {}"
| "hash_inputs 0 (Node h v k l r) = set_option v"
| "hash_inputs (Suc d) (Node h v k l r) =
     insert (hash_bytes (hash_or_zero l) @ hash_bytes (hash_or_zero r))
       (hash_inputs d l \<union> hash_inputs d r)"

lemma canonical_hash_or_zero:
  assumes "canonical cr d n" and "\<forall>x \<in> hash_inputs d n. sha3_256 cr x \<noteq> 0"
  shows "hash_or_zero n = 0 \<longleftrightarrow> n = NilNode"
  using assms by (cases "(cr, d, n)" rule: canonical.cases)
    (auto simp: recalculateHash_def split: option.splits)

lemma hash_append_inject:
  "hash_bytes a @ hash_bytes b = hash_bytes c @ hash_bytes d \<longleftrightarrow> a = c \<and> b = d"
  by (simp add: append_eq_append_conv)

text \<open>Equal hashes mean equal lookups, if SHA-3 is injective on the bytes the two tries hash.\<close>

lemma canonical_binding:
  assumes "canonical cr d n" "canonical cr d m" "hash_or_zero n = hash_or_zero m"
    and "inj_on (sha3_256 cr) (hash_inputs d n \<union> hash_inputs d m)"
    and "\<forall>x \<in> hash_inputs d n \<union> hash_inputs d m. sha3_256 cr x \<noteq> 0"
    and "length bs = d"
  shows "get_bits n bs = get_bits m bs"
  using assms
proof (induction bs arbitrary: n m d)
  case Nil
  have "n = NilNode \<longleftrightarrow> m = NilNode"
    using Nil.prems canonical_hash_or_zero [of cr d n] canonical_hash_or_zero [of cr d m] by auto
  with Nil.prems show ?case
    by (cases n; cases m) (auto split: option.splits simp: inj_on_def)
next
  case (Cons b bs)
  obtain e where d: "d = Suc e" and len: "length bs = e" using Cons.prems(6) by auto
  have nil: "n = NilNode \<longleftrightarrow> m = NilNode"
    using Cons.prems canonical_hash_or_zero [of cr d n] canonical_hash_or_zero [of cr d m] by auto
  show ?case
  proof (cases n)
    case NilNode
    then show ?thesis using nil by simp
  next
    case (Node h v k l r)
    then obtain h' v' k' l' r' where m: "m = Node h' v' k' l' r'" using nil by (cases m) auto
    let ?I = "hash_inputs d n \<union> hash_inputs d m"
    have "sha3_256 cr (hash_bytes (hash_or_zero l) @ hash_bytes (hash_or_zero r)) =
        sha3_256 cr (hash_bytes (hash_or_zero l') @ hash_bytes (hash_or_zero r'))"
      using Cons.prems(1-3) Node m d by (simp add: recalculateHash_def)
    then have "hash_bytes (hash_or_zero l) @ hash_bytes (hash_or_zero r) =
        hash_bytes (hash_or_zero l') @ hash_bytes (hash_or_zero r')"
      by (rule inj_onD [OF Cons.prems(4)]) (simp_all add: Node m d)
    then have eq: "hash_or_zero l = hash_or_zero l'" "hash_or_zero r = hash_or_zero r'"
      by (simp_all add: hash_append_inject)
    have sub: "hash_inputs e l \<union> hash_inputs e l' \<subseteq> ?I" "hash_inputs e r \<union> hash_inputs e r' \<subseteq> ?I"
      by (auto simp: Node m d)
    have can: "canonical cr e l" "canonical cr e l'" "canonical cr e r" "canonical cr e r'"
      using Cons.prems(1,2) by (simp_all add: Node m d)
    have "get_bits l bs = get_bits l' bs"
      using can eq sub(1) Cons.prems(4,5) len
      by (intro Cons.IH [of e]) (blast intro: inj_on_subset)+
    moreover have "get_bits r bs = get_bits r' bs"
      using can eq sub(2) Cons.prems(4,5) len
      by (intro Cons.IH [of e]) (blast intro: inj_on_subset)+
    ultimately show ?thesis by (simp add: Node m)
  qed
qed

text \<open>Equal lookups mean equal hashes: the hash is a function of the contents.\<close>

lemma canonical_unique:
  assumes "canonical cr d n" "canonical cr d m"
    and "\<And>bs. length bs = d \<Longrightarrow> get_bits n bs = get_bits m bs"
  shows "hash_or_zero n = hash_or_zero m"
  using assms
proof (induction d arbitrary: n m)
  case 0
  from 0(3) [of "[]"] 0(1,2) show ?case
    by (cases n; cases m) (auto split: option.splits)
next
  case (Suc d)
  have nil: "n = NilNode \<longleftrightarrow> m = NilNode"
    using canonical_nonempty [OF Suc.prems(1)] canonical_nonempty [OF Suc.prems(2)] Suc.prems(3)
    by (metis get_bits.simps(1) option.distinct(1))
  show ?case
  proof (cases n)
    case NilNode
    then show ?thesis using nil by simp
  next
    case (Node h v k l r)
    then obtain h' v' k' l' r' where m: "m = Node h' v' k' l' r'" using nil by (cases m) auto
    have "hash_or_zero l = hash_or_zero l'"
      using Suc.prems(1,2) Suc.prems(3) [of "False # _"]
      by (intro Suc.IH) (auto simp: Node m)
    moreover have "hash_or_zero r = hash_or_zero r'"
      using Suc.prems(1,2) Suc.prems(3) [of "True # _"]
      by (intro Suc.IH) (auto simp: Node m)
    ultimately show ?thesis using Suc.prems(1,2) by (simp add: Node m recalculateHash_def)
  qed
qed

lemma key_bits_surj:
  assumes "length bs = n * 8"
  obtains k where "length k = n" "key_bits k = bs"
proof -
  let ?K = "{k :: bytes. set k \<subseteq> UNIV \<and> length k = n}"
  let ?B = "{bs :: bool list. set bs \<subseteq> UNIV \<and> length bs = n * 8}"
  have "card ?K = card (UNIV :: char set) ^ n" by (rule card_lists_length_eq) simp
  moreover have "card ?B = card (UNIV :: bool set) ^ (n * 8)" by (rule card_lists_length_eq) simp
  moreover have "(256 :: nat) ^ n = 2 ^ (n * 8)" by (subst mult.commute) (simp add: power_mult)
  ultimately have "card ?K = card ?B" by (simp add: card_UNIV_char)
  moreover have "inj_on key_bits ?K" by (simp add: inj_on_def)
  ultimately have c: "card (key_bits ` ?K) = card ?B" by (simp only: card_image)
  have sub: "key_bits ` ?K \<subseteq> ?B" by auto
  have fin: "finite ?B" by (rule finite_lists_length_eq) simp
  have "key_bits ` ?K = ?B" by (rule card_subset_eq [OF fin sub c])
  with assms have "bs \<in> key_bits ` ?K" by auto
  then show ?thesis using that by auto
qed

section \<open>The root hash\<close>

text \<open>
  The root starts as an empty node with a zero hash, which stands for a nil subtrie.
\<close>

definition root_node :: "MerkleTrie \<Rightarrow> Node" where
  "root_node t = (if mt_Root t = emptyNode then NilNode else mt_Root t)"

definition trie_wf :: "crypto \<Rightarrow> nat \<Rightarrow> MerkleTrie \<Rightarrow> bool" where
  "trie_wf cr n t \<longleftrightarrow> canonical cr (n * 8) (root_node t)"

definition root_hash :: "MerkleTrie \<Rightarrow> hash" where
  "root_hash t = hash_or_zero (mt_Root t)"

lemma root_hash_node: "root_hash t = hash_or_zero (root_node t)"
  by (simp add: root_hash_def root_node_def emptyNode_def)

lemma Trie_Get_root_node: "Trie_Get t k = get_bits (root_node t) (key_bits k)"
  by (cases "key_bits k") (auto simp: Trie_Get_bits root_node_def emptyNode_def)

lemma put_bits_emptyNode: "bs \<noteq> [] \<Longrightarrow> put_bits cr emptyNode bs key dat = put_bits cr NilNode bs key dat"
  by (cases bs) (auto simp: emptyNode_def Let_def)

lemma trie_wf_New: "trie_wf cr n NewMerkleTrie"
  by (simp add: trie_wf_def root_node_def NewMerkleTrie_def)

lemma trie_wf_Insert:
  assumes "trie_wf cr n t" "length k = n" "0 < n"
  shows "trie_wf cr n (Trie_Insert cr t k (Some v))"
proof -
  have "key_bits k \<noteq> []"
    using assms(2,3) by (metis length_0_conv length_key_bits mult_is_0 neq0_conv zero_neq_numeral)
  then have "put_bits cr (mt_Root t) (key_bits k) k (Some v) = put_bits cr (root_node t) (key_bits k) k (Some v)"
    by (simp add: root_node_def put_bits_emptyNode)
  moreover have "canonical cr (length (key_bits k)) (put_bits cr (root_node t) (key_bits k) k (Some v))"
    using assms by (intro canonical_put_bits) (simp add: trie_wf_def)
  ultimately show ?thesis
    using assms(2) by (simp add: trie_wf_def mt_Root_Insert root_node_def [of "Trie_Insert cr t k (Some v)"])
qed

lemma root_hash_determined:
  assumes "trie_wf cr n t" "trie_wf cr n u" and "\<And>k. length k = n \<Longrightarrow> Trie_Get t k = Trie_Get u k"
  shows "root_hash t = root_hash u"
  unfolding root_hash_node
proof (rule canonical_unique [of cr "n * 8"])
  fix bs :: "bool list" assume "length bs = n * 8"
  then obtain k where "length k = n" "key_bits k = bs" by (rule key_bits_surj)
  then show "get_bits (root_node t) bs = get_bits (root_node u) bs"
    using assms(3) [of k] by (simp add: Trie_Get_root_node)
qed (use assms(1,2) in \<open>simp_all add: trie_wf_def\<close>)

definition trie_inputs :: "nat \<Rightarrow> MerkleTrie \<Rightarrow> bytes set" where
  "trie_inputs n t = hash_inputs (n * 8) (root_node t)"

lemma root_hash_binding:
  assumes "trie_wf cr n t" "trie_wf cr n u" "root_hash t = root_hash u"
    and "inj_on (sha3_256 cr) (trie_inputs n t \<union> trie_inputs n u)"
    and "0 \<notin> sha3_256 cr ` (trie_inputs n t \<union> trie_inputs n u)"
    and "length k = n"
  shows "Trie_Get t k = Trie_Get u k"
  using assms canonical_binding [of cr "n * 8" "root_node t" "root_node u" "key_bits k"]
  by (auto simp: trie_wf_def trie_inputs_def root_hash_node Trie_Get_root_node image_iff)

section \<open>Sequences of insertions\<close>

text \<open>The trie after inserting the pairs of a list, first to last; its contents are those of \<open>map_of (rev kvs)\<close>.\<close>

definition Trie_Inserts :: "crypto \<Rightarrow> (bytes \<times> bytes) list \<Rightarrow> MerkleTrie" where
  "Trie_Inserts cr kvs = foldl (\<lambda>t (k, v). Trie_Insert cr t k (Some v)) NewMerkleTrie kvs"

lemma Trie_Inserts_snoc: "Trie_Inserts cr (kvs @ [(k, v)]) = Trie_Insert cr (Trie_Inserts cr kvs) k (Some v)"
  by (simp add: Trie_Inserts_def)

lemma Trie_Get_Inserts: "Trie_Get (Trie_Inserts cr kvs) k = map_of (rev kvs) k"
proof (induction kvs rule: rev_induct)
  case (snoc kv kvs)
  then show ?case by (cases kv) (simp add: Trie_Inserts_snoc)
qed (simp add: Trie_Inserts_def)

lemma trie_wf_Inserts:
  "0 < n \<Longrightarrow> \<forall>(k, v) \<in> set kvs. length k = n \<Longrightarrow> trie_wf cr n (Trie_Inserts cr kvs)"
proof (induction kvs rule: rev_induct)
  case (snoc kv kvs)
  then show ?case by (cases kv) (simp add: Trie_Inserts_snoc trie_wf_Insert)
qed (simp add: Trie_Inserts_def trie_wf_New)

lemma map_of_key_length:
  "\<forall>(k, v) \<in> set kvs. length k = n \<Longrightarrow> length k \<noteq> n \<Longrightarrow> map_of (rev kvs) k = None"
  by (auto simp: map_of_eq_None_iff)

section \<open>A concrete trie\<close>

text \<open>A digest that tells the bytes apart that the example hashes: one more than the sum of the bytes.\<close>

definition sum_crypto :: crypto where
  "sum_crypto = demo_crypto\<lparr>sha3_256 := (\<lambda>bs. word_of_nat (sum_list (map of_char bs) + 1))\<rparr>"

text \<open>Two ways to store \<^verbatim>\<open>A\<close> under the key 0 (all bits lead left) and \<^verbatim>\<open>P\<close> under the key 255 (all lead right).\<close>

definition demo_pairs :: "(bytes \<times> bytes) list" where
  "demo_pairs = [([CHR 0x00], ''B''), ([CHR 0xFF], ''P''), ([CHR 0x00], ''A'')]"

definition demo_pairs' :: "(bytes \<times> bytes) list" where
  "demo_pairs' = [([CHR 0x00], ''A''), ([CHR 0xFF], ''P'')]"

fun hash_input_list :: "nat \<Rightarrow> Node \<Rightarrow> bytes list" where
  "hash_input_list d NilNode = []"
| "hash_input_list 0 (Node h v k l r) = (case v of None \<Rightarrow> [] | Some x \<Rightarrow> [x])"
| "hash_input_list (Suc d) (Node h v k l r) =
     (hash_bytes (hash_or_zero l) @ hash_bytes (hash_or_zero r)) # hash_input_list d l @ hash_input_list d r"

lemma hash_inputs_list: "hash_inputs d n = set (hash_input_list d n)"
  by (induction d n rule: hash_input_list.induct) (auto split: option.split)

lemma sum_be_zero: "sum_list (map of_char (be_bytes k 0)) = (0 :: nat)"
  by (induction k) simp_all

lemma sum_hash: "unat h < 256 \<Longrightarrow> sum_list (map of_char (hash_bytes h)) = unat h"
  using be_bytes.simps(2) [of 31 "unat h"] by (simp add: hash_bytes_def sum_be_zero)

lemma sum_crypto_hash:
  "unat a < 256 \<Longrightarrow> unat b < 256 \<Longrightarrow> sha3_256 sum_crypto (hash_bytes a @ hash_bytes b) = a + b + 1"
  "sha3_256 sum_crypto [c] = word_of_nat (of_char c + 1)"
  by (simp_all add: sum_crypto_def sum_hash)

lemma recalculate_sum:
  "unat (hash_or_zero l) < 256 \<Longrightarrow> unat (hash_or_zero r) < 256 \<Longrightarrow>
     recalculateHash sum_crypto l r = hash_or_zero l + hash_or_zero r + 1"
  by (simp add: recalculateHash_def sum_crypto_hash)

lemma demo_key_bits:
  "key_bits [CHR 0x00] = [False, False, False, False, False, False, False, False]"
  "key_bits [CHR 0xFF] = [True, True, True, True, True, True, True, True]"
  by code_simp+

text \<open>The chain of nodes above a leaf, \<open>d\<close> levels up, and the root of the example.\<close>

fun demo_path :: "bool \<Rightarrow> nat \<Rightarrow> hash \<Rightarrow> bytes \<Rightarrow> bytes \<Rightarrow> Node" where
  "demo_path b 0 h k v = Node h (Some v) k NilNode NilNode"
| "demo_path b (Suc d) h k v =
     (let n = demo_path b d h k v in Node (hash_or_zero n + 1) None [] (if b then NilNode else n) (if b then n else NilNode))"

lemma seven_Suc: "(7::nat) = Suc (Suc (Suc (Suc (Suc (Suc (Suc 0))))))" "(8::nat) = Suc 7"
  by simp_all

lemma demo_root:
  "mt_Root (Trie_Inserts sum_crypto demo_pairs) =
     Node 162 None [] (demo_path False 7 66 [CHR 0x00] ''A'') (demo_path True 7 81 [CHR 0xFF] ''P'')"
  "mt_Root (Trie_Inserts sum_crypto demo_pairs') =
     Node 162 None [] (demo_path False 7 66 [CHR 0x00] ''A'') (demo_path True 7 81 [CHR 0xFF] ''P'')"
  by (simp_all add: Trie_Inserts_def demo_pairs_def demo_pairs'_def mt_Root_Insert demo_key_bits NewMerkleTrie_def emptyNode_def
      recalculate_sum sum_crypto_hash seven_Suc(1) Let_def)

section \<open>Properties\<close>

text \<open>
  \<^verbatim>\<open>Get\<close> after \<^verbatim>\<open>Insert\<close>: a lookup of the inserted key returns the inserted value, and every
  other key, of any length, returns what it did before.
\<close>

theorem trie_lookup_after_insert:
  "Trie_Get (Trie_Insert cr t k v) j = (if j = k then v else Trie_Get t j)"
  by simp

text \<open>
  C24: The root hash is a commitment.  Insert two lists of pairs with keys of the same length, one after
  the other, into empty tries.  The root hashes are equal exactly when the lists amount to the same contents
  (the last value of every key), whatever the order and the overwritten values, provided
  SHA-3 has no collision (and no zero digest) on the bytes the two tries hash.
\<close>

theorem root_hash_commits:
  assumes "0 < n" "\<forall>(k, v) \<in> set kvs. length k = n" "\<forall>(k, v) \<in> set kvs'. length k = n"
    and "inj_on (sha3_256 cr) (trie_inputs n (Trie_Inserts cr kvs) \<union> trie_inputs n (Trie_Inserts cr kvs'))"
    and "0 \<notin> sha3_256 cr ` (trie_inputs n (Trie_Inserts cr kvs) \<union> trie_inputs n (Trie_Inserts cr kvs'))"
  shows "root_hash (Trie_Inserts cr kvs) = root_hash (Trie_Inserts cr kvs') \<longleftrightarrow> map_of (rev kvs) = map_of (rev kvs')"
proof
  note wf = trie_wf_Inserts [OF assms(1,2), of cr] trie_wf_Inserts [OF assms(1,3), of cr]
  assume "root_hash (Trie_Inserts cr kvs) = root_hash (Trie_Inserts cr kvs')"
  then have eq: "map_of (rev kvs) k = map_of (rev kvs') k" if "length k = n" for k
    using root_hash_binding [OF wf _ assms(4,5) that] by (simp add: Trie_Get_Inserts)
  show "map_of (rev kvs) = map_of (rev kvs')"
  proof (rule ext)
    fix k show "map_of (rev kvs) k = map_of (rev kvs') k"
      using eq map_of_key_length [OF assms(2), of k] map_of_key_length [OF assms(3), of k] by (cases "length k = n") simp_all
  qed
next
  assume "map_of (rev kvs) = map_of (rev kvs')"
  then show "root_hash (Trie_Inserts cr kvs) = root_hash (Trie_Inserts cr kvs')"
    by (intro root_hash_determined [OF trie_wf_Inserts [OF assms(1,2)] trie_wf_Inserts [OF assms(1,3)]])
      (simp add: Trie_Get_Inserts)
qed

lemma demo_inputs:
  "distinct (map (sha3_256 sum_crypto) (hash_input_list 8 (mt_Root (Trie_Inserts sum_crypto demo_pairs))))"
  "0 \<notin> set (map (sha3_256 sum_crypto) (hash_input_list 8 (mt_Root (Trie_Inserts sum_crypto demo_pairs))))"
  unfolding demo_root seven_Suc by (simp_all add: Let_def sum_crypto_hash)

theorem root_hash_commits_witness:
  "root_hash (Trie_Inserts sum_crypto demo_pairs) = root_hash (Trie_Inserts sum_crypto demo_pairs') \<and>
   map_of (rev demo_pairs) = map_of (rev demo_pairs')"
proof -
  let ?t = "Trie_Inserts sum_crypto demo_pairs" and ?u = "Trie_Inserts sum_crypto demo_pairs'"
  let ?I = "set (hash_input_list 8 (mt_Root ?t))"
  have inp: "trie_inputs 1 ?t \<union> trie_inputs 1 ?u = ?I"
    by (simp add: trie_inputs_def root_node_def hash_inputs_list demo_root emptyNode_def)
  have "inj_on (sha3_256 sum_crypto) ?I" "0 \<notin> sha3_256 sum_crypto ` ?I"
    using demo_inputs by (simp_all only: distinct_map set_map simp_thms)
  moreover have "map_of (rev demo_pairs) = map_of (rev demo_pairs')"
    by (simp add: demo_pairs_def demo_pairs'_def fun_eq_iff)
  ultimately show ?thesis
    using root_hash_commits [of 1 demo_pairs demo_pairs' sum_crypto] unfolding inp
    by (simp add: demo_pairs_def demo_pairs'_def)
qed

end
