(* ===== verification/Account_State.thy ===== *)
theory Account_State
  imports Merkle_Trie
begin

text \<open>
  \<^verbatim>\<open>state.go\<close>: the accounts of the chain, kept as JSON values of a Merkle trie under their
  20-byte addresses.  \<open>state_ok\<close> is the invariant of a state that only \<open>PutAccount\<close> wrote.
  The abstract view is the function \<open>acct\<close> from addresses to accounts, on which
  \<open>ApplyTransaction\<close> is the ledger step \<open>ledger_step\<close> (\<open>ApplyTransaction_refines\<close>).  The
  locale \<open>account_map\<close> is the contract of an account store and carries the lemmas on the
  total supply.  \<open>NewState\<close> is the program's only constructor of a state, so the pointer
  \<open>Trie\<close> is never nil; \<^verbatim>\<open>json.Marshal\<close> does not fail on an account, so \<open>PutAccount\<close> returns
  no error.
\<close>

section \<open>Operations\<close>

record State =
  state_Trie :: MerkleTrie

definition NewState :: State where
  "NewState = \<lparr>state_Trie = NewMerkleTrie\<rparr>"

definition new_account :: "address \<Rightarrow> Account" where
  "new_account addr = \<lparr>acc_Address = addr, acc_Balance = 0, acc_Nonce = 0\<rparr>"

definition GetAccount :: "State \<Rightarrow> address \<Rightarrow> gerror + Account" where
  "GetAccount s addr =
     (case Trie_Get (state_Trie s) (address_bytes addr) of
        None \<Rightarrow> Inr (new_account addr)
      | Some dat \<Rightarrow>
          (case unmarshal_account dat of
             None \<Rightarrow> Inl ErrUnmarshal
           | Some acc \<Rightarrow> Inr acc))"

definition PutAccount :: "crypto \<Rightarrow> State \<Rightarrow> Account \<Rightarrow> State" where
  "PutAccount cr s acc =
     s\<lparr>state_Trie := Trie_Insert cr (state_Trie s) (address_bytes (acc_Address acc)) (Some (marshal_account acc))\<rparr>"

text \<open>The \<^verbatim>\<open>switch tx.Type\<close>.\<close>

definition check_type :: "Transaction \<Rightarrow> gerror option" where
  "check_type tx =
     (if tx_Type tx = ''participation'' then None
      else if tx_Type tx = ''register_validator'' then (if tx_Value tx = 0 then Some ErrZeroStake else None)
      else if tx_Type tx = ''delegate'' then (if tx_Value tx = 0 then Some ErrZeroDelegation else None)
      else if tx_Type tx = ''transfer'' then None
      else Some (ErrUnknownType (tx_Type tx)))"

definition ApplyTransaction :: "crypto \<Rightarrow> State \<Rightarrow> Transaction \<Rightarrow> gerror option \<times> State" where
  "ApplyTransaction cr s tx =
     (case GetAccount s (tx_From tx) of
        Inl err \<Rightarrow> (Some err, s)
      | Inr sender \<Rightarrow>
          if acc_Nonce sender + 1 \<noteq> tx_Nonce tx then
            (Some (ErrInvalidNonce (tx_Nonce tx) (acc_Nonce sender + 1)), s)
          else if acc_Balance sender < tx_Value tx + tx_Fee tx then
            (Some ErrInsufficientBalance, s)
          else
            (case check_type tx of
               Some err \<Rightarrow> (Some err, s)
             | None \<Rightarrow>
                 let sender' = sender\<lparr>acc_Balance := acc_Balance sender - (tx_Value tx + tx_Fee tx),
                                acc_Nonce := acc_Nonce sender + 1\<rparr>;
                     s' = (if tx_Type tx = ''transfer'' then
                             (let toAcc = (case GetAccount s (tx_To tx) of
                                             Inl _ \<Rightarrow> new_account (tx_To tx)
                                           | Inr acc \<Rightarrow> acc)
                              in PutAccount cr s (toAcc\<lparr>acc_Balance := acc_Balance toAcc + tx_Value tx\<rparr>))
                           else s)
                 in (None, PutAccount cr s' sender')))"

fun apply_transactions :: "crypto \<Rightarrow> State \<Rightarrow> Transaction list \<Rightarrow> gerror option \<times> State" where
  "apply_transactions cr s [] = (None, s)"
| "apply_transactions cr s (tx # txs) =
     (case ApplyTransaction cr s tx of
        (Some err, s') \<Rightarrow> (Some (ErrApplyTransaction (tx_Hash tx) err), s')
      | (None, s') \<Rightarrow> apply_transactions cr s' txs)"

definition ApplyBlock :: "crypto \<Rightarrow> State \<Rightarrow> Block \<Rightarrow> gerror option \<times> State" where
  "ApplyBlock cr s block = apply_transactions cr s (blk_Transactions block)"

text \<open>Unmarshalling a nil value is the error of empty input.\<close>

definition ExportSnapshot :: "State \<Rightarrow> gerror + Account list" where
  "ExportSnapshot s =
     (case map_opt (\<lambda>(key, v). Option.bind v unmarshal_account) (Trie_All (state_Trie s)) of
        None \<Rightarrow> Inl ErrUnmarshal
      | Some accounts \<Rightarrow> Inr accounts)"

definition ImportSnapshot :: "crypto \<Rightarrow> State \<Rightarrow> Account list \<Rightarrow> State" where
  "ImportSnapshot cr s accounts = foldl (PutAccount cr) s accounts"

section \<open>The abstract ledger\<close>

definition acct :: "State \<Rightarrow> address \<Rightarrow> Account" where
  "acct s a = (case GetAccount s a of Inr acc \<Rightarrow> acc | Inl _ \<Rightarrow> new_account a)"

definition state_ok :: "crypto \<Rightarrow> State \<Rightarrow> bool" where
  "state_ok cr s \<longleftrightarrow> trie_agrees (state_Trie s) \<and> trie_wf cr 20 (state_Trie s) \<and>
     (\<forall>(k, v) \<in> set (mt_kvMap (state_Trie s)).
        \<exists>acc. k = address_bytes (acc_Address acc) \<and> v = Some (marshal_account acc))"

text \<open>One account changes at a time; \<open>ledger_step\<close> is what a transaction does to the accounts.\<close>

definition ledger_step :: "(address \<Rightarrow> Account) \<Rightarrow> Transaction \<Rightarrow> gerror + (address \<Rightarrow> Account)" where
  "ledger_step L tx =
     (let a = L (tx_From tx); cost = tx_Value tx + tx_Fee tx
      in if tx_Nonce tx \<noteq> acc_Nonce a + 1 then Inl (ErrInvalidNonce (tx_Nonce tx) (acc_Nonce a + 1))
         else if acc_Balance a < cost then Inl ErrInsufficientBalance
         else
           (case check_type tx of
              Some err \<Rightarrow> Inl err
            | None \<Rightarrow>
                let L' = (if tx_Type tx = ''transfer''
                          then L(tx_To tx := (L (tx_To tx))\<lparr>acc_Balance := acc_Balance (L (tx_To tx)) + tx_Value tx\<rparr>)
                          else L)
                in Inr (L'(tx_From tx := a\<lparr>acc_Balance := acc_Balance a - cost, acc_Nonce := acc_Nonce a + 1\<rparr>))))"

fun ledger_run :: "(address \<Rightarrow> Account) \<Rightarrow> Transaction list \<Rightarrow> gerror option \<times> (address \<Rightarrow> Account)" where
  "ledger_run L [] = (None, L)"
| "ledger_run L (tx # txs) =
     (case ledger_step L tx of
        Inl err \<Rightarrow> (Some (ErrApplyTransaction (tx_Hash tx) err), L)
      | Inr L' \<Rightarrow> ledger_run L' txs)"

section \<open>The contract of an account store\<close>

locale account_map =
  fixes look :: "'s \<Rightarrow> address \<Rightarrow> Account"
    and put :: "'s \<Rightarrow> Account \<Rightarrow> 's"
    and ok :: "'s \<Rightarrow> bool"
  assumes look_put: "ok s \<Longrightarrow> look (put s acc) = (look s)(acc_Address acc := acc)"
    and look_address: "ok s \<Longrightarrow> acc_Address (look s a) = a"
    and ok_put: "ok s \<Longrightarrow> ok (put s acc)"
begin

definition holdings :: "'s \<Rightarrow> nat" where
  "holdings s = (\<Sum>a \<in> UNIV. unat (acc_Balance (look s a)))"

text \<open>Writing one account moves the supply by that account's change.\<close>

lemma holdings_put:
  assumes "ok s"
  shows "holdings (put s acc) + unat (acc_Balance (look s (acc_Address acc))) =
    holdings s + unat (acc_Balance acc)"
proof -
  let ?a = "acc_Address acc" and ?f = "\<lambda>s a. unat (acc_Balance (look s a))"
  have rest: "(\<Sum>a \<in> UNIV - {?a}. ?f (put s acc) a) = (\<Sum>a \<in> UNIV - {?a}. ?f s a)"
    by (rule sum.cong) (simp_all add: look_put [OF assms])
  have "holdings t = ?f t ?a + (\<Sum>a \<in> UNIV - {?a}. ?f t a)" for t
    unfolding holdings_def by (rule sum.remove) simp_all
  then show ?thesis using rest by (simp add: look_put [OF assms])
qed

lemma puts_ok: "ok s \<Longrightarrow> ok (foldl put s accs)"
  by (induction accs arbitrary: s) (auto intro: ok_put)

lemma look_puts:
  "ok s \<Longrightarrow> look (foldl put s accs) a =
     (case find (\<lambda>acc. acc_Address acc = a) (rev accs) of Some acc \<Rightarrow> acc | None \<Rightarrow> look s a)"
proof (induction accs rule: rev_induct)
  case Nil
  then show ?case by simp
next
  case (snoc acc accs)
  then show ?case by (simp add: look_put puts_ok)
qed

end

section \<open>The trie is an account store\<close>

lemma state_Trie_PutAccount [simp]:
  "state_Trie (PutAccount cr s acc) =
     Trie_Insert cr (state_Trie s) (address_bytes (acc_Address acc)) (Some (marshal_account acc))"
  by (simp add: PutAccount_def)

lemma GetAccount_PutAccount [simp]:
  "GetAccount (PutAccount cr s acc) a = (if a = acc_Address acc then Inr acc else GetAccount s a)"
  by (simp add: GetAccount_def)

lemma acct_PutAccount [simp]: "acct (PutAccount cr s acc) = (acct s)(acc_Address acc := acc)"
  by (simp add: fun_eq_iff acct_def)

lemma state_ok_New: "state_ok cr NewState"
  by (simp add: state_ok_def NewState_def trie_agrees_New trie_wf_New) (simp add: NewMerkleTrie_def)

lemma state_ok_PutAccount:
  assumes "state_ok cr s"
  shows "state_ok cr (PutAccount cr s acc)"
proof -
  let ?k = "address_bytes (acc_Address acc)" and ?v = "Some (marshal_account acc)"
  have "mt_kvMap (state_Trie (PutAccount cr s acc)) = go_set (mt_kvMap (state_Trie s)) ?k ?v"
    by (simp add: Trie_Insert_def)
  moreover have "set (go_set (mt_kvMap (state_Trie s)) ?k ?v) \<subseteq> insert (?k, ?v) (set (mt_kvMap (state_Trie s)))"
    by (rule set_go_set)
  ultimately show ?thesis
    using assms unfolding state_ok_def by (auto simp: trie_agrees_Insert trie_wf_Insert)
qed

lemma GetAccount_ok:
  assumes "state_ok cr s"
  shows "GetAccount s a = Inr (acct s a)" and "acc_Address (acct s a) = a"
proof -
  let ?t = "state_Trie s"
  have "(\<exists>acc. GetAccount s a = Inr acc \<and> acc_Address acc = a)"
  proof (cases "Trie_Get ?t (address_bytes a)")
    case None
    then show ?thesis by (simp add: GetAccount_def new_account_def)
  next
    case (Some v)
    then have "(address_bytes a, Some v) \<in> set (mt_kvMap ?t)"
      using assms by (auto simp: state_ok_def trie_agrees_def go_wf_mem bind_eq_Some_conv)
    then obtain acc where "address_bytes a = address_bytes (acc_Address acc)" "v = marshal_account acc"
      using assms by (fastforce simp: state_ok_def)
    then show ?thesis using Some by (simp add: GetAccount_def)
  qed
  then show "GetAccount s a = Inr (acct s a)" "acc_Address (acct s a) = a" by (auto simp: acct_def)
qed

interpretation state_accounts: account_map acct "PutAccount cr" "state_ok cr" for cr
  by unfold_locales (simp_all add: GetAccount_ok state_ok_PutAccount)

definition total_supply :: "State \<Rightarrow> nat" where
  "total_supply s = (\<Sum>a \<in> UNIV. unat (acc_Balance (acct s a)))"

lemma total_supply_eq: "total_supply s = state_accounts.holdings s"
  by (simp add: total_supply_def state_accounts.holdings_def)

lemma total_supply_Put:
  "state_ok cr s \<Longrightarrow> total_supply (PutAccount cr s acc) + unat (acc_Balance (acct s (acc_Address acc))) =
     total_supply s + unat (acc_Balance acc)"
  unfolding total_supply_eq by (rule state_accounts.holdings_put)

section \<open>Transactions are ledger steps\<close>

text \<open>
  A rejected transaction leaves the state as it was; an accepted one does exactly what
  \<open>ledger_step\<close> does to the accounts and keeps the invariant.
\<close>

lemma ApplyTransaction_error:
  assumes "state_ok cr s" and "ledger_step (acct s) tx = Inl err"
  shows "ApplyTransaction cr s tx = (Some err, s)"
  using assms by (auto simp: ApplyTransaction_def ledger_step_def Let_def GetAccount_ok split: if_splits option.splits)

lemma ApplyTransaction_ok:
  assumes "state_ok cr s" and "ledger_step (acct s) tx = Inr L"
  obtains s' where "ApplyTransaction cr s tx = (None, s')" "acct s' = L" "state_ok cr s'"
proof -
  note ok = GetAccount_ok [OF assms(1)]
  have "ApplyTransaction cr s tx = (None, snd (ApplyTransaction cr s tx))"
    using assms(2) by (auto simp: ApplyTransaction_def ledger_step_def Let_def ok split: if_splits option.splits)
  moreover have "acct (snd (ApplyTransaction cr s tx)) = L"
    using assms(2) by (auto simp: ApplyTransaction_def ledger_step_def Let_def ok split: if_splits option.splits)
  moreover have "state_ok cr (snd (ApplyTransaction cr s tx))"
    by (simp add: ApplyTransaction_def Let_def ok state_ok_PutAccount assms(1) split: option.splits)
  ultimately show ?thesis using that by blast
qed

lemma ApplyTransaction_refines:
  assumes "state_ok cr s"
  shows "case ledger_step (acct s) tx of
      Inl err \<Rightarrow> ApplyTransaction cr s tx = (Some err, s)
    | Inr L \<Rightarrow> \<exists>s'. ApplyTransaction cr s tx = (None, s') \<and> acct s' = L \<and> state_ok cr s'"
proof (cases "ledger_step (acct s) tx")
  case (Inl err)
  then show ?thesis using ApplyTransaction_error [OF assms] by simp
next
  case (Inr L)
  obtain s' where "ApplyTransaction cr s tx = (None, s')" "acct s' = L" "state_ok cr s'"
    using ApplyTransaction_ok [OF assms Inr] .
  then show ?thesis by (simp add: Inr)
qed

lemma ApplyTransaction_state_ok:
  assumes "state_ok cr s" shows "state_ok cr (snd (ApplyTransaction cr s tx))"
proof (cases "ledger_step (acct s) tx")
  case (Inl err)
  then show ?thesis using ApplyTransaction_error [OF assms Inl] assms by simp
next
  case (Inr L)
  then show ?thesis using ApplyTransaction_ok [OF assms Inr] by (metis snd_conv)
qed

lemma ApplyTransaction_fst_None:
  assumes "state_ok cr s" "ApplyTransaction cr s tx = (None, s')"
  shows "ledger_step (acct s) tx = Inr (acct s')"
  using ApplyTransaction_refines [OF assms(1), of tx] assms(2)
  by (cases "ledger_step (acct s) tx") simp_all

lemma apply_transactions_refines:
  "state_ok cr s \<Longrightarrow> (case apply_transactions cr s txs of (e, s') \<Rightarrow>
     state_ok cr s' \<and> ledger_run (acct s) txs = (e, acct s'))"
proof (induction txs arbitrary: s)
  case Nil
  then show ?case by simp
next
  case (Cons tx txs)
  then show ?case
    using ApplyTransaction_refines [OF Cons.prems, of tx] by (fastforce split: sum.splits)
qed

section \<open>Nonces\<close>

definition nonces_of :: "address \<Rightarrow> Transaction list \<Rightarrow> u64 list" where
  "nonces_of a txs = map tx_Nonce (filter (\<lambda>tx. tx_From tx = a) txs)"

lemma ledger_step_nonce:
  "ledger_step L tx = Inr L' \<Longrightarrow> tx_Nonce tx = acc_Nonce (L (tx_From tx)) + 1 \<and>
     acc_Nonce (L' a) = (if a = tx_From tx then acc_Nonce (L a) + 1 else acc_Nonce (L a))"
  by (auto simp: ledger_step_def Let_def split: if_splits option.splits)

lemma ledger_run_nonces:
  "ledger_run L txs = (None, L') \<Longrightarrow>
     nonces_of a txs = map (\<lambda>i. acc_Nonce (L a) + of_nat i + 1) [0..<length (nonces_of a txs)] \<and>
     acc_Nonce (L' a) = acc_Nonce (L a) + of_nat (length (nonces_of a txs))"
proof (induction txs arbitrary: L)
  case Nil
  then show ?case by (simp add: nonces_of_def)
next
  case (Cons tx txs)
  then obtain M where M: "ledger_step L tx = Inr M" "ledger_run M txs = (None, L')"
    by (auto split: sum.splits)
  note IH = Cons.IH [OF M(2)]
  note n = ledger_step_nonce [OF M(1), of a]
  show ?case
  proof (cases "tx_From tx = a")
    case True
    then have split: "nonces_of a (tx # txs) = tx_Nonce tx # nonces_of a txs"
      by (simp add: nonces_of_def)
    have "map (\<lambda>i. acc_Nonce (L a) + of_nat i + 1) [0..<Suc m] =
        (acc_Nonce (L a) + 1) # map (\<lambda>i. acc_Nonce (M a) + of_nat i + 1) [0..<m]" for m
      using n True by (simp add: upt_conv_Cons map_Suc_upt [symmetric] add.assoc add.left_commute
        del: upt_Suc)
    with IH n True show ?thesis unfolding split by (simp del: upt_Suc)
  next
    case False
    then show ?thesis using IH n by (simp add: nonces_of_def)
  qed
qed

section \<open>Supply\<close>

definition burned :: "Transaction \<Rightarrow> nat" where
  "burned tx = unat (tx_Fee tx) +
     (if tx_Type tx = ''transfer'' \<and> tx_From tx \<noteq> tx_To tx then 0 else unat (tx_Value tx))"

lemma ApplyTransaction_supply:
  assumes ok: "state_ok cr s" and app: "ApplyTransaction cr s tx = (None, s')"
    and cost: "unat (tx_Value tx) + unat (tx_Fee tx) < 2 ^ 64"
    and recv: "tx_Type tx = ''transfer'' \<Longrightarrow> tx_From tx \<noteq> tx_To tx \<Longrightarrow>
      unat (acc_Balance (acct s (tx_To tx))) + unat (tx_Value tx) < 2 ^ 64"
  shows "total_supply s' + burned tx = total_supply s"
proof -
  let ?c = "tx_Value tx + tx_Fee tx" and ?f = "acct s (tx_From tx)" and ?t = "acct s (tx_To tx)"
  let ?sender = "?f\<lparr>acc_Balance := acc_Balance ?f - ?c, acc_Nonce := acc_Nonce ?f + 1\<rparr>"
  let ?mid = "if tx_Type tx = ''transfer'' then PutAccount cr s (?t\<lparr>acc_Balance := acc_Balance ?t + tx_Value tx\<rparr>) else s"
  note get = GetAccount_ok [OF ok]
  have le: "?c \<le> acc_Balance ?f" and s': "s' = PutAccount cr ?mid ?sender"
    using app by (auto simp: ApplyTransaction_def Let_def get split: if_splits option.splits)
  have c: "unat ?c = unat (tx_Value tx) + unat (tx_Fee tx)"
    using cost by (simp add: unat_add_no_wrap)
  have s1: "unat (acc_Balance ?f - ?c) + unat ?c = unat (acc_Balance ?f)"
    using le by (simp add: unat_sub_no_wrap word_le_nat_alt)
  have v: "tx_Type tx = ''transfer'' \<Longrightarrow> tx_From tx \<noteq> tx_To tx \<Longrightarrow>
      unat (acc_Balance ?t + tx_Value tx) = unat (acc_Balance ?t) + unat (tx_Value tx)"
    using recv by (simp add: unat_add_no_wrap)
  have mid_ok: "state_ok cr ?mid" using ok by (simp add: state_ok_PutAccount)
  have "total_supply s' + unat (acc_Balance (acct ?mid (tx_From tx))) =
      total_supply ?mid + unat (acc_Balance ?f - ?c)"
    using total_supply_Put [OF mid_ok, of ?sender] by (simp add: s' get)
  moreover have "total_supply ?mid + (if tx_Type tx = ''transfer'' then unat (acc_Balance ?t) else 0) =
      total_supply s + (if tx_Type tx = ''transfer'' then unat (acc_Balance ?t + tx_Value tx) else 0)"
    using total_supply_Put [OF ok, of "?t\<lparr>acc_Balance := acc_Balance ?t + tx_Value tx\<rparr>"] by (simp add: get)
  moreover have "acc_Balance (acct ?mid (tx_From tx)) =
      (if tx_Type tx = ''transfer'' \<and> tx_From tx = tx_To tx then acc_Balance ?t + tx_Value tx else acc_Balance ?f)"
    by (auto simp: get)
  ultimately show ?thesis using s1 c v by (auto simp: burned_def split: if_splits)
qed

lemma two_balances: "a \<noteq> b \<Longrightarrow> unat (acc_Balance (acct s a)) + unat (acc_Balance (acct s b)) \<le> total_supply s"
  using sum_mono2 [of UNIV "{a, b}" "\<lambda>x. unat (acc_Balance (acct s x))"] by (simp add: total_supply_def)

lemma one_balance: "unat (acc_Balance (acct s a)) \<le> total_supply s"
  unfolding total_supply_def by (rule member_le_sum) simp_all

lemma ApplyTransaction_covered:
  assumes "state_ok cr s" "ApplyTransaction cr s tx = (None, s')" "unat (tx_Value tx) + unat (tx_Fee tx) < 2 ^ 64"
  shows "unat (tx_Value tx) + unat (tx_Fee tx) \<le> unat (acc_Balance (acct s (tx_From tx)))"
proof -
  have "tx_Value tx + tx_Fee tx \<le> acc_Balance (acct s (tx_From tx))"
    using assms(2) by (auto simp: ApplyTransaction_def GetAccount_ok [OF assms(1)] split: if_splits)
  then show ?thesis using assms(3) by (simp add: word_le_nat_alt unat_add_no_wrap)
qed

section \<open>Snapshots\<close>

lemma Trie_Get_Import:
  "Trie_Get (state_Trie (ImportSnapshot cr s accs)) =
     Trie_Get (state_Trie s) ++
       map_of (rev (map (\<lambda>acc. (address_bytes (acc_Address acc), marshal_account acc)) accs))"
  by (induction accs rule: rev_induct) (auto simp: ImportSnapshot_def fun_eq_iff map_add_def split: option.split)

lemma map_opt_accounts:
  assumes "\<forall>(k, v) \<in> set m. \<exists>acc. k = address_bytes (acc_Address acc) \<and> v = Some (marshal_account acc)"
  shows "\<exists>accs. map_opt (\<lambda>(key, v). Option.bind v unmarshal_account) m = Some accs \<and>
    m = map (\<lambda>acc. (address_bytes (acc_Address acc), Some (marshal_account acc))) accs"
  using assms
proof (induction m)
  case (Cons p m)
  then obtain accs acc where "map_opt (\<lambda>(key, v). Option.bind v unmarshal_account) m = Some accs"
    "m = map (\<lambda>acc. (address_bytes (acc_Address acc), Some (marshal_account acc))) accs"
    "p = (address_bytes (acc_Address acc), Some (marshal_account acc))" by fastforce
  then show ?case by (intro exI [of _ "acc # accs"]) simp
qed simp

text \<open>Exporting a state and importing the accounts into a new one rebuilds the same trie contents.\<close>

lemma snapshot_rebuild:
  assumes ok: "state_ok cr s"
  obtains accs where "ExportSnapshot s = Inr accs"
    "Trie_Get (state_Trie (ImportSnapshot cr NewState accs)) = Trie_Get (state_Trie s)"
    "state_ok cr (ImportSnapshot cr NewState accs)"
proof -
  let ?m = "mt_kvMap (state_Trie s)" and ?e = "\<lambda>acc. (address_bytes (acc_Address acc), marshal_account acc)"
  from ok obtain accs where accs: "map_opt (\<lambda>(key, v). Option.bind v unmarshal_account) ?m = Some accs"
    and m: "?m = map (\<lambda>acc. (address_bytes (acc_Address acc), Some (marshal_account acc))) accs"
    unfolding state_ok_def by (metis (no_types, lifting) map_opt_accounts)
  have exp: "ExportSnapshot s = Inr accs" using accs by (simp add: ExportSnapshot_def Trie_All_def)
  have wf: "distinct (map fst ?m)" using ok by (simp add: state_ok_def trie_agrees_def go_wf_def)
  then have d: "distinct (map fst (map ?e accs))" unfolding m by (simp add: comp_def)
  have "Trie_Get (state_Trie s) k = map_of (map ?e accs) k" for k
  proof -
    have "Trie_Get (state_Trie s) k = Option.bind (map_of ?m k) (\<lambda>v. v)"
      using ok by (simp add: state_ok_def trie_agrees_def)
    also have "\<dots> = map_of (map ?e accs) k" unfolding m by (induction accs) auto
    finally show ?thesis .
  qed
  moreover have "Trie_Get (state_Trie (ImportSnapshot cr NewState accs)) = map_of (map ?e accs)"
    using map_of_rev_distinct [OF d]
    by (simp add: Trie_Get_Import NewState_def fun_eq_iff map_add_def split: option.split)
  moreover have "state_ok cr (ImportSnapshot cr NewState accs)"
    unfolding ImportSnapshot_def by (rule state_accounts.puts_ok) (rule state_ok_New)
  ultimately show ?thesis using exp by (intro that [of accs]) (auto simp: fun_eq_iff)
qed

lemma acct_cong: "Trie_Get (state_Trie s) = Trie_Get (state_Trie t) \<Longrightarrow> acct s = acct t"
  by (simp add: fun_eq_iff acct_def GetAccount_def)

section \<open>Properties\<close>

definition demo_state :: State where
  "demo_state = PutAccount demo_crypto NewState \<lparr>acc_Address = 1, acc_Balance = 100, acc_Nonce = 0\<rparr>"

lemma demo_state_ok: "state_ok demo_crypto demo_state"
  by (simp add: demo_state_def state_ok_PutAccount state_ok_New)

lemma acct_NewState [simp]: "acct NewState a = new_account a"
  by (simp add: acct_def GetAccount_def NewState_def)

lemma acct_demo_state: "acct demo_state = new_account(1 := \<lparr>acc_Address = 1, acc_Balance = 100, acc_Nonce = 0\<rparr>)"
  by (simp add: fun_eq_iff demo_state_def)

text \<open>
  C6: \<^verbatim>\<open>ApplyBlock\<close> implements the ledger: on a well-formed state it returns exactly the error the
  abstract ledger returns (or none) and leaves exactly the accounts the ledger leaves, up to
  the transaction that failed, and the state stays well-formed.
\<close>

theorem ApplyBlock_refines_ledger:
  assumes "state_ok cr s" and "ApplyBlock cr s b = (e, s')"
  shows "ledger_run (acct s) (blk_Transactions b) = (e, acct s') \<and> state_ok cr s'"
  using apply_transactions_refines [OF assms(1), of "blk_Transactions b"] assms(2)
  by (simp add: ApplyBlock_def)

definition demo_block :: "Transaction list \<Rightarrow> Block" where
  "demo_block txs = NewBlock \<lparr>hdr_BlockNumber = 1, hdr_PreviousHash = 0, hdr_Timestamp = 7, hdr_Proposer = 1,
     hdr_Gas = 0, hdr_TransactionRoot = 0, hdr_Hash = 0\<rparr> txs"

theorem ApplyBlock_refines_ledger_witness:
  "state_ok demo_crypto demo_state \<and>
   ledger_run (acct demo_state) [demo_tx, demo_tx] =
     (Some (ErrApplyTransaction 0 (ErrInvalidNonce 1 2)),
      acct (snd (ApplyBlock demo_crypto demo_state (demo_block [demo_tx, demo_tx]))))"
proof -
  have "fst (ledger_run (acct demo_state) [demo_tx, demo_tx]) = Some (ErrApplyTransaction 0 (ErrInvalidNonce 1 2))"
    by (simp add: acct_demo_state ledger_step_def demo_tx_def Let_def check_type_def new_account_def)
  with ApplyBlock_refines_ledger [OF demo_state_ok surjective_pairing, of "demo_block [demo_tx, demo_tx]"]
  show ?thesis by (auto simp: demo_state_ok demo_block_def NewBlock_def)
qed

text \<open>
  C16: When \<^verbatim>\<open>ApplyTransaction\<close> accepts and when it rejects.  It accepts exactly a transaction with
  the sender's next nonce whose cost (the 64-bit sum of value and fee) the balance covers and
  whose type check passes; a rejected transaction leaves the state exactly as it was.
\<close>

theorem ApplyTransaction_accepts_iff:
  assumes "state_ok cr s"
  shows "(fst (ApplyTransaction cr s tx) = None \<longleftrightarrow>
      tx_Nonce tx = acc_Nonce (acct s (tx_From tx)) + 1 \<and>
      tx_Value tx + tx_Fee tx \<le> acc_Balance (acct s (tx_From tx)) \<and>
      (tx_Type tx \<in> {''transfer'', ''participation''} \<or>
       tx_Type tx \<in> {''register_validator'', ''delegate''} \<and> tx_Value tx \<noteq> 0)) \<and>
    (fst (ApplyTransaction cr s tx) \<noteq> None \<longrightarrow> snd (ApplyTransaction cr s tx) = s)"
  by (auto simp: ApplyTransaction_def GetAccount_ok [OF assms] Let_def check_type_def split: if_splits)

theorem ApplyTransaction_accepts_iff_witness:
  "state_ok demo_crypto demo_state \<and> fst (ApplyTransaction demo_crypto demo_state demo_tx) = None \<and>
   snd (ApplyTransaction demo_crypto demo_state (demo_tx\<lparr>tx_Nonce := 2\<rparr>)) = demo_state"
  using ApplyTransaction_accepts_iff [OF demo_state_ok, of demo_tx]
    ApplyTransaction_accepts_iff [OF demo_state_ok, of "demo_tx\<lparr>tx_Nonce := 2\<rparr>"]
  by (simp add: demo_state_ok acct_demo_state demo_tx_def word_le_nat_alt)

text \<open>
  Conservation of money.  If neither the cost nor the recipient's new balance overflows
  64 bits, an accepted transaction lowers the sum of all balances by exactly its fee when it
  is a transfer to another account, and by value plus fee otherwise: stake leaves the accounts,
  and so does the value of a transfer to oneself.
\<close>

theorem ApplyTransaction_conserves_supply:
  assumes "state_ok cr s" and "ApplyTransaction cr s tx = (None, s')"
    and "unat (tx_Value tx) + unat (tx_Fee tx) < 2 ^ 64"
    and "tx_Type tx = ''transfer'' \<Longrightarrow> unat (acc_Balance (acct s (tx_To tx))) + unat (tx_Value tx) < 2 ^ 64"
  shows "total_supply s' + unat (tx_Fee tx) +
     (if tx_Type tx = ''transfer'' \<and> tx_From tx \<noteq> tx_To tx then 0 else unat (tx_Value tx)) = total_supply s"
  using ApplyTransaction_supply [OF assms] by (simp add: burned_def)

theorem ApplyTransaction_conserves_supply_witness:
  "\<exists>s'. ApplyTransaction demo_crypto demo_state demo_tx = (None, s') \<and>
     total_supply s' + 5 = total_supply demo_state"
proof -
  have "ledger_step (acct demo_state) demo_tx \<noteq> Inl e" for e
    by (simp add: acct_demo_state ledger_step_def demo_tx_def Let_def check_type_def word_less_nat_alt)
  then obtain L where L: "ledger_step (acct demo_state) demo_tx = Inr L"
    by (cases "ledger_step (acct demo_state) demo_tx") auto
  obtain s' where s': "ApplyTransaction demo_crypto demo_state demo_tx = (None, s')"
    using ApplyTransaction_ok [OF demo_state_ok L] by blast
  show ?thesis
    using ApplyTransaction_conserves_supply [OF demo_state_ok s'] s'
    by (simp add: demo_tx_def acct_demo_state new_account_def)
qed

text \<open>
  C17: No replay inside a block.  When every transaction of a block applies, the nonces of each
  sender's transactions are, in order, the consecutive successors of the nonce its account had
  before, and the account ends at the last one.
\<close>

theorem ApplyBlock_nonces_consecutive:
  assumes "state_ok cr s" and "ApplyBlock cr s b = (None, s')"
  shows "nonces_of a (blk_Transactions b) =
      map (\<lambda>i. acc_Nonce (acct s a) + of_nat i + 1) [0..<length (nonces_of a (blk_Transactions b))] \<and>
    acc_Nonce (acct s' a) = acc_Nonce (acct s a) + of_nat (length (nonces_of a (blk_Transactions b)))"
  using apply_transactions_refines [OF assms(1), of "blk_Transactions b"] assms(2)
  by (intro ledger_run_nonces) (simp add: ApplyBlock_def)

theorem ApplyBlock_nonces_consecutive_witness:
  "\<exists>s'. ApplyBlock demo_crypto demo_state (demo_block [demo_tx, demo_tx\<lparr>tx_Nonce := 2\<rparr>]) = (None, s') \<and>
     acc_Nonce (acct s' 1) = 2"
proof -
  let ?b = "demo_block [demo_tx, demo_tx\<lparr>tx_Nonce := 2\<rparr>]"
  obtain e s' where s': "ApplyBlock demo_crypto demo_state ?b = (e, s')" by fastforce
  have "fst (ledger_run (acct demo_state) (blk_Transactions ?b)) = None"
    by (simp add: acct_demo_state demo_block_def NewBlock_def ledger_step_def demo_tx_def Let_def
        check_type_def new_account_def word_less_nat_alt)
  then have "e = None"
    using apply_transactions_refines [OF demo_state_ok, of "blk_Transactions ?b"] s' by (simp add: ApplyBlock_def)
  with s' ApplyBlock_nonces_consecutive [OF demo_state_ok, of ?b s' 1] show ?thesis
    by (simp add: demo_block_def NewBlock_def nonces_of_def demo_tx_def acct_demo_state)
qed

text \<open>
  C25: A snapshot is faithful.  Exporting a well-formed state succeeds, and importing the
  exported accounts into a new state gives the same account at every address and the same
  Merkle root, whatever order the Go map was iterated in.
\<close>

theorem snapshot_round_trip:
  assumes "state_ok cr s"
  shows "\<exists>accs. ExportSnapshot s = Inr accs \<and>
     acct (ImportSnapshot cr NewState accs) = acct s \<and>
     root_hash (state_Trie (ImportSnapshot cr NewState accs)) = root_hash (state_Trie s)"
proof -
  obtain accs where accs: "ExportSnapshot s = Inr accs"
    "Trie_Get (state_Trie (ImportSnapshot cr NewState accs)) = Trie_Get (state_Trie s)"
    "state_ok cr (ImportSnapshot cr NewState accs)"
    using snapshot_rebuild [OF assms] .
  moreover have "root_hash (state_Trie (ImportSnapshot cr NewState accs)) = root_hash (state_Trie s)"
    by (rule root_hash_determined [of cr 20]) (use accs assms in \<open>simp_all add: state_ok_def\<close>)
  ultimately show ?thesis using acct_cong by blast
qed

theorem snapshot_round_trip_witness:
  "state_ok demo_crypto demo_state \<and>
   (\<exists>accs. ExportSnapshot demo_state = Inr accs \<and>
     acc_Balance (acct (ImportSnapshot demo_crypto NewState accs) 1) = 100)"
  using snapshot_round_trip [OF demo_state_ok] demo_state_ok by (auto simp: acct_demo_state)

text \<open>
  C40: The balance check is made on a sum that wraps.  A transfer whose value and fee add up to
  zero modulo 2 to the 64 is accepted from a sender with any balance, who pays nothing, and the
  recipient is credited the whole value.
\<close>

theorem ApplyTransaction_overflow_mints:
  assumes "state_ok cr s" and "tx_Nonce tx = acc_Nonce (acct s (tx_From tx)) + 1"
    and "tx_Type tx = ''transfer''" and "tx_From tx \<noteq> tx_To tx"
    and "unat (tx_Value tx) + unat (tx_Fee tx) = 2 ^ 64"
  shows "\<exists>s'. ApplyTransaction cr s tx = (None, s') \<and>
     acc_Balance (acct s' (tx_From tx)) = acc_Balance (acct s (tx_From tx)) \<and>
     acc_Balance (acct s' (tx_To tx)) = acc_Balance (acct s (tx_To tx)) + tx_Value tx"
proof -
  have "unat (tx_Value tx + tx_Fee tx) = 0" using assms(5) by (simp add: unat_word_ariths)
  then have "tx_Value tx + tx_Fee tx = 0" by (simp only: unat_eq_0)
  then show ?thesis
    using assms(2-4) by (simp add: ApplyTransaction_def GetAccount_ok [OF assms(1)] Let_def check_type_def)
qed

theorem ApplyTransaction_overflow_mints_witness:
  "\<exists>s'. ApplyTransaction demo_crypto demo_state (demo_tx\<lparr>tx_Value := 2 ^ 63, tx_Fee := 2 ^ 63\<rparr>) = (None, s') \<and>
     acc_Balance (acct s' 1) = 100 \<and> acc_Balance (acct s' 2) = 2 ^ 63"
  using ApplyTransaction_overflow_mints [OF demo_state_ok, of "demo_tx\<lparr>tx_Value := 2 ^ 63, tx_Fee := 2 ^ 63\<rparr>"]
  by (simp add: demo_tx_def acct_demo_state new_account_def)

end
