(* ===== verification/Storage.thy ===== *)
theory Storage
  imports Types
begin

text \<open>
  \<^verbatim>\<open>storage.go\<close>.  The Go interface \<open>Storage\<close> is a record of functions over an abstract store
  state, as an interface value is a method table and a receiver: \<open>Put\<close> and \<open>Delete\<close> return
  the error (or nil) and the next state.  \<open>MemoryStore\<close> and \<open>BoltStore\<close> are its two
  implementations.  The contract the clients rely on is the locale \<open>kv_store\<close> (and
  \<open>reliable_store\<close>, whose operations never fail); it is proved for \<open>MemoryStore\<close> by
  interpretation and for \<open>BoltStore\<close> from the documented behaviour of bbolt (\<open>bbolt_ok\<close>).
\<close>

section \<open>The interface\<close>

record 's Storage =
  st_Put :: "'s \<Rightarrow> bytes \<Rightarrow> bytes \<Rightarrow> storage_error option \<times> 's"
  st_Get :: "'s \<Rightarrow> bytes \<Rightarrow> storage_error + bytes"
  st_Delete :: "'s \<Rightarrow> bytes \<Rightarrow> storage_error option \<times> 's"
  st_Close :: "'s \<Rightarrow> storage_error option \<times> 's"
  st_List :: "'s \<Rightarrow> storage_error + (bytes, bytes) gomap"

text \<open>What a store holds, as a client sees it through \<open>Get\<close>.\<close>

definition store_view :: "'s Storage \<Rightarrow> 's \<Rightarrow> bytes \<Rightarrow> bytes option" where
  "store_view st s k = (case st_Get st s k of Inr v \<Rightarrow> Some v | Inl _ \<Rightarrow> None)"

text \<open>The test \<^verbatim>\<open>strings.Contains(err.Error(), "not found")\<close> of the clients.\<close>

definition is_not_found :: "storage_error \<Rightarrow> bool" where
  "is_not_found e = contains (storage_error_text e) ''not found''"

lemma is_not_found_KeyNotFound [simp]: "is_not_found (KeyNotFound k)"
proof -
  have "contains (''key '' @ ''not found'' @ '': '' @ k) ''not found''"
    by (intro contains_append contains_prefix has_prefix_append)
  then show ?thesis by (simp add: is_not_found_def)
qed

lemma is_not_found_BucketNotFound [simp]: "is_not_found (BucketNotFound b)"
proof -
  have "contains ((''bucket '' @ b @ '' '') @ ''not found'') ''not found''"
    by (intro contains_append contains_prefix) (simp add: has_prefix_def)
  then show ?thesis by (simp add: is_not_found_def)
qed

section \<open>MemoryStore\<close>

record MemoryStore =
  ms_data :: "(bytes, bytes) gomap"

definition NewMemoryStore :: MemoryStore where
  "NewMemoryStore = \<lparr>ms_data = []\<rparr>"

definition MemoryStore_Put :: "MemoryStore \<Rightarrow> bytes \<Rightarrow> bytes \<Rightarrow> storage_error option \<times> MemoryStore" where
  "MemoryStore_Put s k v = (None, s\<lparr>ms_data := go_set (ms_data s) k v\<rparr>)"

definition MemoryStore_Get :: "MemoryStore \<Rightarrow> bytes \<Rightarrow> storage_error + bytes" where
  "MemoryStore_Get s k =
     (case go_get (ms_data s) k of None \<Rightarrow> Inl (KeyNotFound k) | Some v \<Rightarrow> Inr v)"

definition MemoryStore_Delete :: "MemoryStore \<Rightarrow> bytes \<Rightarrow> storage_error option \<times> MemoryStore" where
  "MemoryStore_Delete s k = (None, s\<lparr>ms_data := go_delete (ms_data s) k\<rparr>)"

definition MemoryStore_Close :: "MemoryStore \<Rightarrow> storage_error option \<times> MemoryStore" where
  "MemoryStore_Close s = (None, s)"

definition MemoryStore_List :: "MemoryStore \<Rightarrow> storage_error + (bytes, bytes) gomap" where
  "MemoryStore_List s =
     Inr (go_copy (ms_data s))"

definition MemoryStore_ops :: "MemoryStore Storage" where
  "MemoryStore_ops = \<lparr>st_Put = MemoryStore_Put, st_Get = MemoryStore_Get,
     st_Delete = MemoryStore_Delete, st_Close = MemoryStore_Close, st_List = MemoryStore_List\<rparr>"

definition MemoryStore_wf :: "MemoryStore \<Rightarrow> bool" where
  "MemoryStore_wf s \<longleftrightarrow> go_wf (ms_data s)"

section \<open>BoltStore\<close>

text \<open>
  The calls of bbolt that \<open>BoltStore\<close> makes, over an abstract database: starting a
  transaction (which fails on a closed database), looking a bucket up, and the bucket
  operations, each inside a transaction that commits or leaves the database as it was.
\<close>

record 'd bbolt =
  bb_begin :: "'d \<Rightarrow> string option"
  bb_has_bucket :: "'d \<Rightarrow> string \<Rightarrow> bool"
  bb_create_bucket :: "'d \<Rightarrow> string \<Rightarrow> string option \<times> 'd"
  bb_put :: "'d \<Rightarrow> string \<Rightarrow> bytes \<Rightarrow> bytes \<Rightarrow> string option \<times> 'd"
  bb_get :: "'d \<Rightarrow> string \<Rightarrow> bytes \<Rightarrow> bytes option"
  bb_delete :: "'d \<Rightarrow> string \<Rightarrow> bytes \<Rightarrow> string option \<times> 'd"
  bb_foreach :: "'d \<Rightarrow> string \<Rightarrow> (bytes \<times> bytes) list"
  bb_close :: "'d \<Rightarrow> string option \<times> 'd"

record 'd BoltStore =
  bs_db :: 'd
  bs_path :: string
  bs_bucketName :: string

text \<open>The database opened at the path, or the error text of \<^verbatim>\<open>bbolt.Open\<close>, is the argument \<open>opened\<close>.\<close>

definition NewBoltStore ::
  "'d bbolt \<Rightarrow> string + 'd \<Rightarrow> string \<Rightarrow> string \<Rightarrow> gerror + 'd BoltStore" where
  "NewBoltStore B opened path bucketName =
     (case opened of
        Inl err \<Rightarrow> Inl (ErrWrapped (''failed to open database at '' @ path) (ErrStorage (DBError err)))
      | Inr db \<Rightarrow>
          (case bb_begin B db of
             Some err \<Rightarrow> Inl (ErrWrapped (''failed to initialize bucket '' @ bucketName) (ErrStorage (DBError err)))
           | None \<Rightarrow>
               (case bb_create_bucket B db bucketName of
                  (Some err, db') \<Rightarrow>
                    Inl (ErrWrapped (''failed to initialize bucket '' @ bucketName) (ErrStorage (DBError err)))
                | (None, db') \<Rightarrow> Inr \<lparr>bs_db = db', bs_path = path, bs_bucketName = bucketName\<rparr>)))"

definition BoltStore_update ::
  "'d bbolt \<Rightarrow> 'd BoltStore \<Rightarrow> ('d \<Rightarrow> string option \<times> 'd) \<Rightarrow> storage_error option \<times> 'd BoltStore" where
  "BoltStore_update B s f =
     (case bb_begin B (bs_db s) of
        Some err \<Rightarrow> (Some (DBError err), s)
      | None \<Rightarrow>
          if \<not> bb_has_bucket B (bs_db s) (bs_bucketName s) then (Some (BucketNotFound (bs_bucketName s)), s)
          else
            (case f (bs_db s) of
               (Some err, db') \<Rightarrow> (Some (DBError err), s\<lparr>bs_db := db'\<rparr>)
             | (None, db') \<Rightarrow> (None, s\<lparr>bs_db := db'\<rparr>)))"

definition BoltStore_Close :: "'d bbolt \<Rightarrow> 'd BoltStore \<Rightarrow> storage_error option \<times> 'd BoltStore" where
  "BoltStore_Close B s =
     (case bb_close B (bs_db s) of (err, db') \<Rightarrow> (map_option DBError err, s\<lparr>bs_db := db'\<rparr>))"

definition BoltStore_Put ::
  "'d bbolt \<Rightarrow> 'd BoltStore \<Rightarrow> bytes \<Rightarrow> bytes \<Rightarrow> storage_error option \<times> 'd BoltStore" where
  "BoltStore_Put B s k v = BoltStore_update B s (\<lambda>db. bb_put B db (bs_bucketName s) k v)"

definition BoltStore_Get :: "'d bbolt \<Rightarrow> 'd BoltStore \<Rightarrow> bytes \<Rightarrow> storage_error + bytes" where
  "BoltStore_Get B s k =
     (case bb_begin B (bs_db s) of
        Some err \<Rightarrow> Inl (DBError err)
      | None \<Rightarrow>
          if \<not> bb_has_bucket B (bs_db s) (bs_bucketName s) then Inl (BucketNotFound (bs_bucketName s))
          else
            (case bb_get B (bs_db s) (bs_bucketName s) k of
               None \<Rightarrow> Inl (KeyNotFound k)
             | Some v \<Rightarrow> Inr v))"

definition BoltStore_Delete ::
  "'d bbolt \<Rightarrow> 'd BoltStore \<Rightarrow> bytes \<Rightarrow> storage_error option \<times> 'd BoltStore" where
  "BoltStore_Delete B s k = BoltStore_update B s (\<lambda>db. bb_delete B db (bs_bucketName s) k)"

definition BoltStore_List :: "'d bbolt \<Rightarrow> 'd BoltStore \<Rightarrow> storage_error + (bytes, bytes) gomap" where
  "BoltStore_List B s =
     (case bb_begin B (bs_db s) of
        Some err \<Rightarrow> Inl (DBError err)
      | None \<Rightarrow>
          if \<not> bb_has_bucket B (bs_db s) (bs_bucketName s) then Inl (BucketNotFound (bs_bucketName s))
          else Inr (go_copy (bb_foreach B (bs_db s) (bs_bucketName s))))"

definition BoltStore_ops :: "'d bbolt \<Rightarrow> 'd BoltStore Storage" where
  "BoltStore_ops B = \<lparr>st_Put = BoltStore_Put B, st_Get = BoltStore_Get B,
     st_Delete = BoltStore_Delete B, st_Close = BoltStore_Close B, st_List = BoltStore_List B\<rparr>"

section \<open>The contract\<close>

locale kv_store =
  fixes st :: "'s Storage" and inv :: "'s \<Rightarrow> bool"
  assumes inv_put: "inv s \<Longrightarrow> inv (snd (st_Put st s k v))"
    and inv_delete: "inv s \<Longrightarrow> inv (snd (st_Delete st s k))"
    and view_put: "inv s \<Longrightarrow> fst (st_Put st s k v) = None \<Longrightarrow>
      store_view st (snd (st_Put st s k v)) = (store_view st s)(k \<mapsto> v)"
    and view_put_error: "inv s \<Longrightarrow> fst (st_Put st s k v) \<noteq> None \<Longrightarrow>
      store_view st (snd (st_Put st s k v)) = store_view st s"
    and view_delete: "inv s \<Longrightarrow> fst (st_Delete st s k) = None \<Longrightarrow>
      store_view st (snd (st_Delete st s k)) = (store_view st s)(k := None)"
    and view_list: "inv s \<Longrightarrow> st_List st s = Inr m \<Longrightarrow> go_wf m \<and> map_of m = store_view st s"
begin

lemma get_put:
  assumes "inv s" and "st_Put st s k v = (None, s')"
  shows "st_Get st s' k = Inr v"
proof -
  have "store_view st s' k = Some v" using view_put [OF assms(1), of k v] assms(2) by simp
  then show ?thesis by (simp add: store_view_def split: sum.splits)
qed

lemma list_member:
  assumes "inv s" and "st_List st s = Inr m"
  shows "(k, v) \<in> set m \<longleftrightarrow> store_view st s k = Some v"
  using view_list [OF assms] go_wf_mem by fastforce

end

locale reliable_store = kv_store +
  assumes put_ok: "inv s \<Longrightarrow> fst (st_Put st s k v) = None"
    and delete_ok: "inv s \<Longrightarrow> fst (st_Delete st s k) = None"
    and list_ok: "inv s \<Longrightarrow> \<exists>m. st_List st s = Inr m"
    and get_error: "inv s \<Longrightarrow> st_Get st s k = Inl e \<Longrightarrow> is_not_found e"
begin

lemma view_put_ok [simp]:
  "inv s \<Longrightarrow> store_view st (snd (st_Put st s k v)) = (store_view st s)(k \<mapsto> v)"
  by (simp add: view_put put_ok)

lemma view_delete_ok [simp]:
  "inv s \<Longrightarrow> store_view st (snd (st_Delete st s k)) = (store_view st s)(k := None)"
  by (simp add: view_delete delete_ok)

lemma put_eq: "inv s \<Longrightarrow> st_Put st s k v = (None, snd (st_Put st s k v))"
  by (metis prod.collapse put_ok)

lemma delete_eq: "inv s \<Longrightarrow> st_Delete st s k = (None, snd (st_Delete st s k))"
  by (metis prod.collapse delete_ok)

end

section \<open>Both stores satisfy it\<close>

lemma store_view_MemoryStore [simp]: "store_view MemoryStore_ops s = map_of (ms_data s)"
  by (simp add: fun_eq_iff store_view_def MemoryStore_ops_def MemoryStore_Get_def split: option.split)

lemma MemoryStore_ops_simps [simp]:
  "st_Put MemoryStore_ops = MemoryStore_Put" "st_Get MemoryStore_ops = MemoryStore_Get"
  "st_Delete MemoryStore_ops = MemoryStore_Delete" "st_List MemoryStore_ops = MemoryStore_List"
  by (simp_all add: MemoryStore_ops_def)

lemmas MemoryStore_defs =
  MemoryStore_Put_def MemoryStore_Get_def MemoryStore_Delete_def MemoryStore_List_def
  MemoryStore_wf_def

interpretation memory_store: reliable_store MemoryStore_ops MemoryStore_wf
  by unfold_locales (auto simp: MemoryStore_defs fun_eq_iff split: option.splits)

text \<open>
  The documented behaviour of bbolt on a bucket \<open>b\<close> that exists in every database satisfying
  \<open>ready\<close>: a committed \<open>Put\<close> or \<open>Delete\<close> is seen by later reads, a failed one changes nothing,
  and \<open>ForEach\<close> visits every key once.
\<close>

definition bbolt_ok :: "'d bbolt \<Rightarrow> string \<Rightarrow> ('d \<Rightarrow> bool) \<Rightarrow> bool" where
  "bbolt_ok B b ready \<longleftrightarrow> (\<forall>db. ready db \<longrightarrow>
     bb_begin B db = None \<and> bb_has_bucket B db b \<and>
     (\<forall>k v. ready (snd (bb_put B db b k v)) \<and>
        bb_get B (snd (bb_put B db b k v)) b =
          (if fst (bb_put B db b k v) = None then (bb_get B db b)(k \<mapsto> v) else bb_get B db b)) \<and>
     (\<forall>k. ready (snd (bb_delete B db b k)) \<and>
        bb_get B (snd (bb_delete B db b k)) b =
          (if fst (bb_delete B db b k) = None then (bb_get B db b)(k := None) else bb_get B db b)) \<and>
     distinct (map fst (bb_foreach B db b)) \<and> map_of (bb_foreach B db b) = bb_get B db b)"

definition BoltStore_wf :: "string \<Rightarrow> ('d \<Rightarrow> bool) \<Rightarrow> 'd BoltStore \<Rightarrow> bool" where
  "BoltStore_wf b ready s \<longleftrightarrow> ready (bs_db s) \<and> bs_bucketName s = b"

lemma store_view_BoltStore:
  "bbolt_ok B b ready \<Longrightarrow> BoltStore_wf b ready s \<Longrightarrow> store_view (BoltStore_ops B) s = bb_get B (bs_db s) b"
  by (simp add: fun_eq_iff store_view_def BoltStore_ops_def BoltStore_Get_def bbolt_ok_def
      BoltStore_wf_def split: option.split)

lemma BoltStore_update_simp:
  "bbolt_ok B b ready \<Longrightarrow> BoltStore_wf b ready s \<Longrightarrow>
     BoltStore_update B s f = (map_option DBError (fst (f (bs_db s))), s\<lparr>bs_db := snd (f (bs_db s))\<rparr>)"
  by (auto simp: BoltStore_update_def bbolt_ok_def BoltStore_wf_def split: prod.split option.split)

lemma BoltStore_wf_update:
  "bbolt_ok B b ready \<Longrightarrow> BoltStore_wf b ready s \<Longrightarrow>
     BoltStore_wf b ready (s\<lparr>bs_db := snd (bb_put B (bs_db s) b k v)\<rparr>) \<and>
     BoltStore_wf b ready (s\<lparr>bs_db := snd (bb_delete B (bs_db s) b k)\<rparr>)"
  by (simp add: BoltStore_wf_def bbolt_ok_def)

lemma BoltStore_bucketName: "BoltStore_wf b ready s \<Longrightarrow> bs_bucketName s = b"
  by (simp add: BoltStore_wf_def)

lemmas BoltStore_simps =
  BoltStore_ops_def BoltStore_Put_def BoltStore_Delete_def BoltStore_update_simp
  BoltStore_wf_update BoltStore_bucketName

lemma BoltStore_is_kv_store:
  assumes "bbolt_ok B b ready"
  shows "kv_store (BoltStore_ops B) (BoltStore_wf b ready)"
proof (unfold_locales, goal_cases)
  case (1 s k v)
  then show ?case using assms by (simp add: BoltStore_simps)
next
  case (2 s k)
  then show ?case using assms by (simp add: BoltStore_simps)
next
  case (3 s k v)
  have wf: "BoltStore_wf b ready (snd (st_Put (BoltStore_ops B) s k v))"
    using 3 assms by (simp add: BoltStore_simps)
  show ?case
    unfolding store_view_BoltStore [OF assms wf] store_view_BoltStore [OF assms 3(1)]
    using 3 assms by (simp add: BoltStore_simps) (simp add: bbolt_ok_def BoltStore_wf_def)
next
  case (4 s k v)
  have wf: "BoltStore_wf b ready (snd (st_Put (BoltStore_ops B) s k v))"
    using 4 assms by (simp add: BoltStore_simps)
  show ?case
    unfolding store_view_BoltStore [OF assms wf] store_view_BoltStore [OF assms 4(1)]
    using 4 assms by (simp add: BoltStore_simps) (auto simp: bbolt_ok_def BoltStore_wf_def)
next
  case (5 s k)
  have wf: "BoltStore_wf b ready (snd (st_Delete (BoltStore_ops B) s k))"
    using 5 assms by (simp add: BoltStore_simps)
  show ?case
    unfolding store_view_BoltStore [OF assms wf] store_view_BoltStore [OF assms 5(1)]
    using 5 assms by (simp add: BoltStore_simps) (simp add: bbolt_ok_def BoltStore_wf_def)
next
  case (6 s m)
  then show ?case using assms store_view_BoltStore [OF assms 6(1)]
    by (simp add: BoltStore_ops_def BoltStore_List_def bbolt_ok_def BoltStore_wf_def)
      (metis go_get_copy go_wf_copy go_wf_def)
qed

end
