(* ===== verification/Validator_Registry.thy ===== *)
theory Validator_Registry
  imports Storage
begin

text \<open>
  \<^verbatim>\<open>validator_registry.go\<close>: validators as JSON values under the keys \<open>validator_\<close> followed by the
  20 address bytes, in a store behind the \<open>Storage\<close> interface.  The lemmas are proved once
  for every reliable store, in the locale \<open>reliable_store\<close>: a registry written only by
  these operations (\<open>reg_ok\<close>) is a finite map from addresses to validators (\<open>reg_view\<close>), and
  \<open>GetAllValidators\<close> enumerates it without repetition.

  \<open>GetValidator\<close> returns \<open>Inr None\<close> for Go's \<^verbatim>\<open>(nil, nil)\<close>.  \<open>UpdateStake\<close> and \<open>UpdateReputation\<close>
  assign through that nil pointer, which panics: the error \<open>ErrNilValidator\<close>.  Both stores
  return non-nil data, so the test \<^verbatim>\<open>data == nil\<close> never holds.
\<close>

section \<open>Operations\<close>

record 's ValidatorRegistry =
  vr_store :: 's
  vr_bucket :: string

definition NewValidatorRegistry :: "'s \<Rightarrow> string \<Rightarrow> 's ValidatorRegistry" where
  "NewValidatorRegistry store bucket = \<lparr>vr_store = store, vr_bucket = bucket\<rparr>"

definition validator_prefix :: string where
  "validator_prefix = ''validator_''"

definition validatorKey :: "address \<Rightarrow> bytes" where
  "validatorKey addr = ''validator_'' @ address_bytes addr"

definition RegisterValidator ::
  "'s Storage \<Rightarrow> 's ValidatorRegistry \<Rightarrow> Validator option \<Rightarrow> gerror option \<times> 's ValidatorRegistry" where
  "RegisterValidator st vr v =
     (case v of
        None \<Rightarrow> (None, vr)
      | Some v \<Rightarrow>
          (case st_Put st (vr_store vr) (validatorKey (val_Address v)) (marshal_validator v) of
             (err, s') \<Rightarrow> (map_option ErrStorage err, vr\<lparr>vr_store := s'\<rparr>)))"

definition GetValidator :: "'s Storage \<Rightarrow> 's ValidatorRegistry \<Rightarrow> address \<Rightarrow> gerror + Validator option" where
  "GetValidator st vr addr =
     (case st_Get st (vr_store vr) (validatorKey addr) of
        Inl err \<Rightarrow> if is_not_found err then Inr None else Inl (ErrStorage err)
      | Inr dat \<Rightarrow>
          (case unmarshal_validator dat of
             None \<Rightarrow> Inl ErrUnmarshal
           | Some v \<Rightarrow> Inr (Some v)))"

definition UpdateStake ::
  "'s Storage \<Rightarrow> 's ValidatorRegistry \<Rightarrow> address \<Rightarrow> u64 \<Rightarrow> gerror option \<times> 's ValidatorRegistry" where
  "UpdateStake st vr addr stake =
     (case GetValidator st vr addr of
        Inl err \<Rightarrow> (Some err, vr)
      | Inr None \<Rightarrow> (Some ErrNilValidator, vr)
      | Inr (Some v) \<Rightarrow> RegisterValidator st vr (Some (v\<lparr>val_Stake := stake\<rparr>)))"

definition DelegateStake ::
  "'s Storage \<Rightarrow> 's ValidatorRegistry \<Rightarrow> address \<Rightarrow> address \<Rightarrow> u64 \<Rightarrow> gerror option \<times> 's ValidatorRegistry" where
  "DelegateStake st vr delegator validator amount =
     (case GetValidator st vr validator of
        Inl err \<Rightarrow> (Some err, vr)
      | Inr None \<Rightarrow> (None, vr)
      | Inr (Some v) \<Rightarrow>
          RegisterValidator st vr (Some (v\<lparr>val_DelegatedStake := val_DelegatedStake v + amount\<rparr>)))"

definition UpdateReputation ::
  "'s Storage \<Rightarrow> 's ValidatorRegistry \<Rightarrow> address \<Rightarrow> u64 \<Rightarrow> gerror option \<times> 's ValidatorRegistry" where
  "UpdateReputation st vr addr rep =
     (case GetValidator st vr addr of
        Inl err \<Rightarrow> (Some err, vr)
      | Inr None \<Rightarrow> (Some ErrNilValidator, vr)
      | Inr (Some v) \<Rightarrow> RegisterValidator st vr (Some (v\<lparr>val_ComputeReputation := rep\<rparr>)))"

text \<open>Corrupted entries are skipped.\<close>

definition GetAllValidators :: "'s Storage \<Rightarrow> 's ValidatorRegistry \<Rightarrow> gerror + Validator list" where
  "GetAllValidators st vr =
     (case st_List st (vr_store vr) of
        Inl err \<Rightarrow> Inl (ErrStorage err)
      | Inr allData \<Rightarrow>
          Inr (List.map_filter (\<lambda>(key, dat). if has_prefix key validator_prefix then unmarshal_validator dat
                                             else None) allData))"

fun delete_keys :: "'s Storage \<Rightarrow> 's \<Rightarrow> bytes list \<Rightarrow> storage_error option \<times> 's" where
  "delete_keys st s [] = (None, s)"
| "delete_keys st s (key # keys) =
     (if has_prefix key validator_prefix then
        (case st_Delete st s key of
           (Some err, s') \<Rightarrow> (Some err, s')
         | (None, s') \<Rightarrow> delete_keys st s' keys)
      else delete_keys st s keys)"

definition ClearAllValidators :: "'s Storage \<Rightarrow> 's ValidatorRegistry \<Rightarrow> gerror option \<times> 's ValidatorRegistry" where
  "ClearAllValidators st vr =
     (case st_List st (vr_store vr) of
        Inl err \<Rightarrow> (Some (ErrStorage err), vr)
      | Inr allData \<Rightarrow>
          (case delete_keys st (vr_store vr) (map fst allData) of
             (err, s') \<Rightarrow> (map_option ErrStorage err, vr\<lparr>vr_store := s'\<rparr>)))"

text \<open>A sequence of delegations \<open>(delegator, validator, amount)\<close>, up to the first error.\<close>

fun delegate_all ::
  "'s Storage \<Rightarrow> 's ValidatorRegistry \<Rightarrow> (address \<times> address \<times> u64) list \<Rightarrow> gerror option \<times> 's ValidatorRegistry" where
  "delegate_all st vr [] = (None, vr)"
| "delegate_all st vr ((d, a, x) # ds) =
     (case DelegateStake st vr d a x of
        (Some err, vr') \<Rightarrow> (Some err, vr')
      | (None, vr') \<Rightarrow> delegate_all st vr' ds)"

definition delegated_to :: "address \<Rightarrow> (address \<times> address \<times> u64) list \<Rightarrow> u64" where
  "delegated_to a ds = sum_list (map (\<lambda>(d, b, x). if b = a then x else 0) ds)"

section \<open>The abstract view\<close>

definition reg_view :: "'s Storage \<Rightarrow> 's ValidatorRegistry \<Rightarrow> address \<Rightarrow> Validator option" where
  "reg_view st vr a = Option.bind (store_view st (vr_store vr) (validatorKey a)) unmarshal_validator"

definition reg_ok :: "'s Storage \<Rightarrow> ('s \<Rightarrow> bool) \<Rightarrow> 's ValidatorRegistry \<Rightarrow> bool" where
  "reg_ok st I vr \<longleftrightarrow> I (vr_store vr) \<and>
     (\<forall>k d. store_view st (vr_store vr) k = Some d \<longrightarrow> has_prefix k validator_prefix \<longrightarrow>
        (\<exists>v. k = validatorKey (val_Address v) \<and> d = marshal_validator v))"

lemma validatorKey_inject [simp]: "validatorKey a = validatorKey b \<longleftrightarrow> a = b"
  by (simp add: validatorKey_def)

lemma has_prefix_validatorKey [simp]: "has_prefix (validatorKey a) validator_prefix"
  by (simp add: validatorKey_def validator_prefix_def has_prefix_def)

lemma reg_ok_entry:
  assumes "reg_ok st I vr" "store_view st (vr_store vr) k = Some d" "has_prefix k validator_prefix"
  obtains v where "k = validatorKey (val_Address v)" "d = marshal_validator v"
  using assms unfolding reg_ok_def by blast

lemma set_map_filter: "set (List.map_filter f xs) = {y. \<exists>x \<in> set xs. f x = Some y}"
  by (induction xs) (auto simp: List.map_filter_simps split: option.splits)

lemma distinct_filter_map:
  assumes "distinct xs" and "\<And>x y z. x \<in> set xs \<Longrightarrow> y \<in> set xs \<Longrightarrow> f x = Some z \<Longrightarrow> f y = Some z \<Longrightarrow> x = y"
  shows "distinct (List.map_filter f xs)"
  using assms
proof (induction xs)
  case (Cons x xs)
  then have "distinct (List.map_filter f xs)" by simp
  then show ?case
    using Cons.prems by (auto simp: List.map_filter_simps set_map_filter split: option.splits)
qed (simp add: List.map_filter_simps)

section \<open>For every reliable store\<close>

context reliable_store
begin

lemma reg_ok_view_address:
  assumes "reg_ok st inv vr" "reg_view st vr a = Some v"
  shows "val_Address v = a"
proof -
  obtain d where d: "store_view st (vr_store vr) (validatorKey a) = Some d" "unmarshal_validator d = Some v"
    using assms(2) by (auto simp: reg_view_def bind_eq_Some_conv)
  then obtain w where "validatorKey a = validatorKey (val_Address w)" "d = marshal_validator w"
    using reg_ok_entry [OF assms(1) d(1)] by auto
  with d show ?thesis by simp
qed

lemma GetValidator_view:
  assumes "reg_ok st inv vr"
  shows "GetValidator st vr a = Inr (reg_view st vr a)"
proof (cases "st_Get st (vr_store vr) (validatorKey a)")
  case (Inl e)
  then show ?thesis
    using get_error [OF _ Inl] assms by (simp add: GetValidator_def reg_view_def store_view_def reg_ok_def)
next
  case (Inr d)
  then have sv: "store_view st (vr_store vr) (validatorKey a) = Some d" by (simp add: store_view_def)
  then obtain w where "d = marshal_validator w" using reg_ok_entry [OF assms sv] by auto
  with Inr sv show ?thesis by (simp add: GetValidator_def reg_view_def)
qed

lemma RegisterValidator_ok:
  assumes "reg_ok st inv vr"
  obtains vr' where "RegisterValidator st vr (Some v) = (None, vr')" "reg_ok st inv vr'"
    "reg_view st vr' = (reg_view st vr)(val_Address v \<mapsto> v)"
    "\<And>k. k \<noteq> validatorKey (val_Address v) \<Longrightarrow> store_view st (vr_store vr') k = store_view st (vr_store vr) k"
proof -
  let ?k = "validatorKey (val_Address v)" and ?d = "marshal_validator v"
  let ?vr' = "vr\<lparr>vr_store := snd (st_Put st (vr_store vr) ?k ?d)\<rparr>"
  have inv: "inv (vr_store vr)" using assms by (simp add: reg_ok_def)
  have "RegisterValidator st vr (Some v) = (None, ?vr')"
    by (subst RegisterValidator_def, subst put_eq [OF inv]) simp
  moreover have "reg_ok st inv ?vr'"
    using assms inv by (auto simp: reg_ok_def inv_put)
  moreover have "reg_view st ?vr' = (reg_view st vr)(val_Address v \<mapsto> v)"
    using inv by (auto simp: reg_view_def fun_eq_iff)
  moreover have "store_view st (vr_store ?vr') k = store_view st (vr_store vr) k" if "k \<noteq> ?k" for k
    using inv that by simp
  ultimately show ?thesis using that by blast
qed

lemma GetAllValidators_ok:
  assumes ok: "reg_ok st inv vr"
  obtains vs where "GetAllValidators st vr = Inr vs" "distinct (map val_Address vs)"
    "set vs = ran (reg_view st vr)"
proof -
  have inv: "inv (vr_store vr)" using ok by (simp add: reg_ok_def)
  obtain m where m: "st_List st (vr_store vr) = Inr m" using list_ok [OF inv] by blast
  let ?f = "\<lambda>(key, dat). if has_prefix key validator_prefix then unmarshal_validator dat else None"
  let ?vs = "List.map_filter ?f m"
  have wf: "go_wf m" using view_list [OF inv m] by simp
  have entry: "\<exists>v. p = (validatorKey (val_Address v), marshal_validator v) \<and> ?f p = Some v"
    if "p \<in> set m" "?f p \<noteq> None" for p
  proof -
    obtain k d where p: "p = (k, d)" by (cases p)
    then have pre: "has_prefix k validator_prefix" using that(2) by (auto split: if_splits)
    moreover have "store_view st (vr_store vr) k = Some d" using list_member [OF inv m] that(1) p by simp
    ultimately obtain v where "k = validatorKey (val_Address v)" "d = marshal_validator v"
      using reg_ok_entry [OF ok] by blast
    then show ?thesis using p by simp
  qed
  have "GetAllValidators st vr = Inr ?vs" by (simp add: GetAllValidators_def m)
  moreover have "distinct (map val_Address ?vs)"
  proof -
    have "map val_Address ?vs = List.map_filter (\<lambda>p. map_option val_Address (?f p)) m"
      by (induction m) (auto simp: List.map_filter_simps split: option.splits)
    moreover have "distinct (List.map_filter (\<lambda>p. map_option val_Address (?f p)) m)"
    proof (rule distinct_filter_map)
      show "distinct m" using wf by (simp add: go_wf_def distinct_map)
    next
      fix p q z assume *: "p \<in> set m" "q \<in> set m" "map_option val_Address (?f p) = Some z"
        "map_option val_Address (?f q) = Some z"
      then have "fst p = validatorKey z" "fst q = validatorKey z" using entry by fastforce+
      then show "p = q" using *(1,2) wf by (metis go_wf_def eq_key_imp_eq_value prod.collapse)
    qed
    ultimately show ?thesis by simp
  qed
  moreover have "set ?vs = ran (reg_view st vr)"
  proof (rule set_eqI)
    fix v
    have "v \<in> set ?vs \<longleftrightarrow> (\<exists>p \<in> set m. ?f p = Some v)" by (simp add: set_map_filter)
    also have "\<dots> \<longleftrightarrow> (validatorKey (val_Address v), marshal_validator v) \<in> set m"
    proof
      assume "\<exists>p \<in> set m. ?f p = Some v"
      then obtain p where p: "p \<in> set m" "?f p = Some v" by blast
      with entry [of p] show "(validatorKey (val_Address v), marshal_validator v) \<in> set m" by auto
    next
      assume "(validatorKey (val_Address v), marshal_validator v) \<in> set m"
      then show "\<exists>p \<in> set m. ?f p = Some v" by (rule bexI [rotated]) simp
    qed
    also have "\<dots> \<longleftrightarrow> reg_view st vr (val_Address v) = Some v"
    proof -
      have "d = marshal_validator v"
        if "store_view st (vr_store vr) (validatorKey a) = Some d" "unmarshal_validator d = Some v" for a d
        by (rule reg_ok_entry [OF ok that(1)]) (use that(2) in simp_all)
      then show ?thesis
        unfolding list_member [OF inv m] reg_view_def bind_eq_Some_conv
        by (metis unmarshal_marshal_validator)
    qed
    also have "\<dots> \<longleftrightarrow> v \<in> ran (reg_view st vr)"
      using reg_ok_view_address [OF ok] by (auto simp: ran_def)
    finally show "v \<in> set ?vs \<longleftrightarrow> v \<in> ran (reg_view st vr)" .
  qed
  ultimately show ?thesis using that by blast
qed

lemma DelegateStake_ok:
  assumes ok: "reg_ok st inv vr"
  obtains vr' where "DelegateStake st vr d a x = (None, vr')" "reg_ok st inv vr'"
    "reg_view st vr' = (\<lambda>b. map_option (\<lambda>v. v\<lparr>val_DelegatedStake := val_DelegatedStake v + (if a = b then x else 0)\<rparr>)
       (reg_view st vr b))"
proof (cases "reg_view st vr a")
  case None
  show ?thesis
  proof (rule that [of vr])
    show "DelegateStake st vr d a x = (None, vr)" by (simp add: DelegateStake_def GetValidator_view [OF ok] None)
    have "reg_view st vr b = map_option (\<lambda>v. v\<lparr>val_DelegatedStake := val_DelegatedStake v + (if a = b then x else 0)\<rparr>)
        (reg_view st vr b)" for b
      using None by (cases "a = b"; cases "reg_view st vr b") simp_all
    then show "reg_view st vr = (\<lambda>b. map_option (\<lambda>v. v\<lparr>val_DelegatedStake := val_DelegatedStake v + (if a = b then x else 0)\<rparr>)
        (reg_view st vr b))" by (rule ext)
  qed (rule ok)
next
  case (Some v)
  let ?v = "v\<lparr>val_DelegatedStake := val_DelegatedStake v + x\<rparr>"
  have a: "val_Address v = a" using reg_ok_view_address [OF ok Some] .
  obtain vr' where "RegisterValidator st vr (Some ?v) = (None, vr')" "reg_ok st inv vr'"
    "reg_view st vr' = (reg_view st vr)(val_Address ?v \<mapsto> ?v)"
    using RegisterValidator_ok [OF ok, of ?v] by metis
  then show ?thesis
    using Some a that [of vr']
    by (auto simp: DelegateStake_def GetValidator_view [OF ok] map_option_case fun_eq_iff split: option.splits)
qed

lemma delegate_all_ok:
  "reg_ok st inv vr \<Longrightarrow> fst (delegate_all st vr ds) = None \<and> reg_ok st inv (snd (delegate_all st vr ds)) \<and>
     (\<forall>a. reg_view st (snd (delegate_all st vr ds)) a =
        map_option (\<lambda>v. v\<lparr>val_DelegatedStake := val_DelegatedStake v + delegated_to a ds\<rparr>) (reg_view st vr a))"
proof (induction ds arbitrary: vr)
  case Nil
  then show ?case by (simp add: delegated_to_def map_option_case split: option.splits)
next
  case (Cons t ds)
  obtain d a x where t: "t = (d, a, x)" by (cases t)
  obtain vr' where vr': "DelegateStake st vr d a x = (None, vr')" "reg_ok st inv vr'"
    "reg_view st vr' = (\<lambda>b. map_option (\<lambda>v. v\<lparr>val_DelegatedStake := val_DelegatedStake v + (if a = b then x else 0)\<rparr>)
       (reg_view st vr b))"
    using DelegateStake_ok [OF Cons.prems, of d a x] .
  have sum: "delegated_to b (t # ds) = (if a = b then x else 0) + delegated_to b ds" for b
    by (simp add: delegated_to_def t)
  have run: "delegate_all st vr (t # ds) = delegate_all st vr' ds" by (simp add: t vr'(1))
  note IH = Cons.IH [OF vr'(2)]
  have "reg_view st (snd (delegate_all st vr' ds)) b =
      map_option (\<lambda>v. v\<lparr>val_DelegatedStake := val_DelegatedStake v + delegated_to b (t # ds)\<rparr>) (reg_view st vr b)" for b
    unfolding sum using IH vr'(3) by (cases "reg_view st vr b") (simp_all add: add.assoc)
  then show ?case using IH by (simp add: run)
qed

lemma delete_keys_ok:
  "inv s \<Longrightarrow> \<exists>s'. delete_keys st s keys = (None, s') \<and> inv s' \<and>
     store_view st s' = (\<lambda>k. if k \<in> set keys \<and> has_prefix k validator_prefix then None else store_view st s k)"
proof (induction keys arbitrary: s)
  case (Cons key keys)
  show ?case
  proof (cases "has_prefix key validator_prefix")
    case True
    let ?s = "snd (st_Delete st s key)"
    have "inv ?s" using Cons.prems by (rule inv_delete)
    moreover have "delete_keys st s (key # keys) = delete_keys st ?s keys"
      using True by (subst delete_keys.simps, subst delete_eq [OF Cons.prems]) simp
    ultimately show ?thesis
      using Cons.IH [of ?s] True Cons.prems by (auto simp: fun_eq_iff)
  next
    case False
    with Cons.IH [OF Cons.prems] show ?thesis by (auto simp: fun_eq_iff)
  qed
qed simp

lemma ClearAllValidators_ok:
  assumes "inv (vr_store vr)"
  obtains vr' where "ClearAllValidators st vr = (None, vr')" "reg_ok st inv vr'"
    "\<And>k. store_view st (vr_store vr') k =
       (if has_prefix k validator_prefix then None else store_view st (vr_store vr) k)"
proof -
  obtain m where m: "st_List st (vr_store vr) = Inr m" using list_ok [OF assms] by blast
  obtain s' where s': "delete_keys st (vr_store vr) (map fst m) = (None, s')" "inv s'"
    "store_view st s' = (\<lambda>k. if k \<in> set (map fst m) \<and> has_prefix k validator_prefix then None
       else store_view st (vr_store vr) k)"
    using delete_keys_ok [OF assms] by blast
  have dom: "k \<in> set (map fst m) \<longleftrightarrow> store_view st (vr_store vr) k \<noteq> None" for k
    using view_list [OF assms m] by (metis list.set_map map_of_eq_None_iff)
  have "ClearAllValidators st vr = (None, vr\<lparr>vr_store := s'\<rparr>)" by (simp add: ClearAllValidators_def m s')
  moreover have view: "store_view st s' k =
      (if has_prefix k validator_prefix then None else store_view st (vr_store vr) k)" for k
    using dom [of k] by (simp only: s') auto
  moreover have "reg_ok st inv (vr\<lparr>vr_store := s'\<rparr>)" using s'(2) by (simp add: reg_ok_def view)
  ultimately show ?thesis using that by simp
qed

end

section \<open>A concrete registry\<close>

definition demo_validator :: "address \<Rightarrow> u64 \<Rightarrow> Validator" where
  "demo_validator a stake = \<lparr>val_Address = a, val_Stake = stake, val_DelegatedStake = 0,
     val_ComputeReputation = 0, val_Participating = True\<rparr>"

lemma demo_validator_simps [simp]:
  "demo_validator a x = demo_validator b y \<longleftrightarrow> a = b \<and> x = y" "val_Address (demo_validator a x) = a"
  "val_Participating (demo_validator a x)" "val_Stake (demo_validator a x) = x"
  "val_DelegatedStake (demo_validator a x) = 0" "val_ComputeReputation (demo_validator a x) = 0"
  by (auto simp: demo_validator_def)

definition demo_registry :: "Validator list \<Rightarrow> MemoryStore ValidatorRegistry" where
  "demo_registry vs = foldl (\<lambda>vr v. snd (RegisterValidator MemoryStore_ops vr (Some v)))
     (NewValidatorRegistry NewMemoryStore ''validators'') vs"

lemma demo_registry_ok:
  "reg_ok MemoryStore_ops MemoryStore_wf (demo_registry vs) \<and>
   reg_view MemoryStore_ops (demo_registry vs) = map_of (rev (map (\<lambda>v. (val_Address v, v)) vs))"
proof (induction vs rule: rev_induct)
  case Nil
  show ?case
    by (simp add: demo_registry_def NewValidatorRegistry_def NewMemoryStore_def reg_ok_def MemoryStore_wf_def
        reg_view_def fun_eq_iff)
next
  case (snoc v vs)
  obtain vr' where "RegisterValidator MemoryStore_ops (demo_registry vs) (Some v) = (None, vr')"
    "reg_ok MemoryStore_ops MemoryStore_wf vr'"
    "reg_view MemoryStore_ops vr' = (reg_view MemoryStore_ops (demo_registry vs))(val_Address v \<mapsto> v)"
    using memory_store.RegisterValidator_ok [of "demo_registry vs" v] snoc by metis
  with snoc show ?case by (simp add: demo_registry_def fun_eq_iff)
qed

lemmas demo_registry_facts = conjunct1 [OF demo_registry_ok] conjunct2 [OF demo_registry_ok]

section \<open>Properties\<close>

text \<open>
  Registering a validator in a well-formed registry succeeds, keeps it well-formed, makes
  \<^verbatim>\<open>GetValidator\<close> return that validator for its address and changes the answer for no other.
\<close>

theorem registry_register_lookup:
  assumes "reliable_store st I" and "reg_ok st I vr"
  shows "\<exists>vr'. RegisterValidator st vr (Some v) = (None, vr') \<and> reg_ok st I vr' \<and>
    (\<forall>a. GetValidator st vr' a = (if a = val_Address v then Inr (Some v) else GetValidator st vr a))"
proof -
  obtain vr' where "RegisterValidator st vr (Some v) = (None, vr')" "reg_ok st I vr'"
    "reg_view st vr' = (reg_view st vr)(val_Address v \<mapsto> v)"
    using reliable_store.RegisterValidator_ok [OF assms, of v] by metis
  then show ?thesis
    using reliable_store.GetValidator_view [OF assms] reliable_store.GetValidator_view [OF assms(1)] by simp
qed

theorem registry_register_lookup_witness:
  "\<exists>vr'. RegisterValidator MemoryStore_ops (demo_registry [demo_validator 1 10]) (Some (demo_validator 2 20)) = (None, vr') \<and>
     GetValidator MemoryStore_ops vr' 2 = Inr (Some (demo_validator 2 20))"
  using registry_register_lookup [OF memory_store.reliable_store_axioms demo_registry_facts(1),
    of "[demo_validator 1 10]" "demo_validator 2 20"] by (auto simp: demo_validator_def)

text \<open>
  \<^verbatim>\<open>GetAllValidators\<close> lists every registered validator exactly once: the addresses are distinct,
  and a validator is in the list exactly when \<^verbatim>\<open>GetValidator\<close> returns it for its address.
\<close>

theorem registry_enumerates:
  assumes "reliable_store st I" and "reg_ok st I vr"
  shows "\<exists>vs. GetAllValidators st vr = Inr vs \<and> distinct (map val_Address vs) \<and>
    (\<forall>v. v \<in> set vs \<longleftrightarrow> GetValidator st vr (val_Address v) = Inr (Some v))"
proof -
  obtain vs where "GetAllValidators st vr = Inr vs" "distinct (map val_Address vs)" "set vs = ran (reg_view st vr)"
    using reliable_store.GetAllValidators_ok [OF assms] .
  moreover have "v \<in> ran (reg_view st vr) \<longleftrightarrow> reg_view st vr (val_Address v) = Some v" for v
    using reliable_store.reg_ok_view_address [OF assms] by (auto simp: ran_def)
  ultimately show ?thesis using reliable_store.GetValidator_view [OF assms] by simp
qed

theorem registry_enumerates_witness:
  "\<exists>vs. GetAllValidators MemoryStore_ops (demo_registry [demo_validator 1 10, demo_validator 1 20]) = Inr vs \<and>
     demo_validator 1 20 \<in> set vs \<and> demo_validator 1 10 \<notin> set vs"
proof -
  let ?vr = "demo_registry [demo_validator 1 10, demo_validator 1 20]"
  have "GetValidator MemoryStore_ops ?vr 1 = Inr (Some (demo_validator 1 20))"
    by (simp add: memory_store.GetValidator_view [OF demo_registry_facts(1)] demo_registry_facts(2))
  then show ?thesis
    using registry_enumerates [OF memory_store.reliable_store_axioms demo_registry_facts(1),
      of "[demo_validator 1 10, demo_validator 1 20]"] by auto
qed

text \<open>
  \<^verbatim>\<open>ClearAllValidators\<close> removes every validator and nothing else: afterwards the list of all
  validators is empty, no address is registered, and the keys without the \<open>validator_\<close> prefix
  hold what they held.
\<close>

theorem registry_clear:
  assumes "reliable_store st I" and "reg_ok st I vr"
  shows "\<exists>vr'. ClearAllValidators st vr = (None, vr') \<and> GetAllValidators st vr' = Inr [] \<and>
    (\<forall>a. GetValidator st vr' a = Inr None) \<and>
    (\<forall>k. \<not> has_prefix k validator_prefix \<longrightarrow> store_view st (vr_store vr') k = store_view st (vr_store vr) k)"
proof -
  obtain vr' where vr': "ClearAllValidators st vr = (None, vr')" "reg_ok st I vr'"
    "\<And>k. store_view st (vr_store vr') k = (if has_prefix k validator_prefix then None else store_view st (vr_store vr) k)"
    using reliable_store.ClearAllValidators_ok [OF assms(1)] assms(2) by (metis reg_ok_def)
  then have view: "reg_view st vr' a = None" for a by (simp add: reg_view_def)
  obtain vs where "GetAllValidators st vr' = Inr vs" "set vs = ran (reg_view st vr')"
    using reliable_store.GetAllValidators_ok [OF assms(1) vr'(2)] by metis
  then have "GetAllValidators st vr' = Inr []" by (simp add: view ran_def)
  then show ?thesis
    using vr' view reliable_store.GetValidator_view [OF assms(1) vr'(2)] by auto
qed

theorem registry_clear_witness:
  "\<exists>vr'. ClearAllValidators MemoryStore_ops (demo_registry [demo_validator 1 10]) = (None, vr') \<and>
     GetAllValidators MemoryStore_ops vr' = Inr []"
  using registry_clear [OF memory_store.reliable_store_axioms demo_registry_facts(1), of "[demo_validator 1 10]"] by auto

text \<open>
  Delegations accumulate.  After any sequence of \<^verbatim>\<open>DelegateStake\<close> calls, each of which reports
  success, every registered validator's delegated stake has grown by the 64-bit sum of the
  amounts delegated to it, nothing else of any validator has changed, and the amounts
  delegated to unregistered addresses are recorded nowhere.
\<close>

theorem registry_delegations_accumulate:
  assumes "reliable_store st I" and "reg_ok st I vr"
  shows "fst (delegate_all st vr ds) = None \<and>
    (\<forall>a. GetValidator st (snd (delegate_all st vr ds)) a =
       map_sum id (map_option (\<lambda>v. v\<lparr>val_DelegatedStake := val_DelegatedStake v + delegated_to a ds\<rparr>)) (GetValidator st vr a))"
  using reliable_store.delegate_all_ok [OF assms, of ds] reliable_store.GetValidator_view [OF assms]
    reliable_store.GetValidator_view [OF assms(1)] by (cases "delegate_all st vr ds") auto

theorem registry_delegations_accumulate_witness:
  "GetValidator MemoryStore_ops (snd (delegate_all MemoryStore_ops (demo_registry [demo_validator 1 10])
      [(7, 1, 5), (8, 2, 6), (9, 1, 3)])) 1 = Inr (Some ((demo_validator 1 10)\<lparr>val_DelegatedStake := 8\<rparr>))"
  using registry_delegations_accumulate [OF memory_store.reliable_store_axioms demo_registry_facts(1),
      of "[demo_validator 1 10]" "[(7, 1, 5), (8, 2, 6), (9, 1, 3)]"]
  by (simp add: memory_store.GetValidator_view [OF demo_registry_facts(1)] demo_registry_facts(2))
    (simp add: delegated_to_def)

end
