(* ===== verification/Blockchain.thy ===== *)
theory Blockchain
  imports Account_State Validator_Registry
begin

text \<open>
  \<^verbatim>\<open>blockchain.go\<close>: the chain of blocks in a store (one key per height, the tip hash and the
  height), creating and adding blocks, and applying a block's transactions to the account
  state and the validator registry.

  The searches \<^verbatim>\<open>for i := uint64(0); i <= bc.currentHeight; i++\<close> are searches of the list of heights
  \<open>heights bc\<close>; at the greatest 64-bit height, which no chain of the program reaches, the loop
  in Go would not end.  The lock and the log lines have no part in the model.
\<close>

section \<open>Operations\<close>

record 's Blockchain =
  bc_store :: 's
  bc_currentHeight :: u64
  bc_tip :: hash
  bc_height :: u64
  bc_genesisBlock :: Block

definition heightKey :: bytes where
  "heightKey = ''height''"

definition tipKey :: bytes where
  "tipKey = ''tip''"

definition blockKey :: "u64 \<Rightarrow> bytes" where
  "blockKey height = ''block_'' @ show_nat (unat height)"

definition createGenesisBlock :: "crypto \<Rightarrow> Block" where
  "createGenesisBlock cr =
     (let header = \<lparr>hdr_BlockNumber = 0, hdr_PreviousHash = 0, hdr_Timestamp = 1672531200, hdr_Proposer = 0,
                     hdr_Gas = 0, hdr_TransactionRoot = 0, hdr_Hash = 0\<rparr>
      in \<lparr>blk_Header = header\<lparr>hdr_Hash := ComputeHash cr header\<rparr>, blk_Transactions = [], blk_FromNil = None, blk_ValidatorList = [],
          blk_Signature = [], blk_Size = 0\<rparr>)"

definition addBlock :: "'s Storage \<Rightarrow> 's Blockchain \<Rightarrow> Block \<Rightarrow> gerror option \<times> 's Blockchain" where
  "addBlock st bc b =
     (case st_Put st (bc_store bc) (blockKey (blk_Number b)) (Block_Encode b) of
        (Some err, s1) \<Rightarrow> (Some (ErrStorage err), bc\<lparr>bc_store := s1\<rparr>)
      | (None, s1) \<Rightarrow>
          let bc1 = bc\<lparr>bc_store := s1, bc_tip := blk_Hash b, bc_height := blk_Number b\<rparr>
          in (case st_Put st s1 tipKey (hash_bytes (bc_tip bc1)) of
                (Some err, s2) \<Rightarrow> (Some (ErrWrapped ''failed to update tip'' (ErrStorage err)), bc1\<lparr>bc_store := s2\<rparr>)
              | (None, s2) \<Rightarrow>
                  let bc2 = bc1\<lparr>bc_store := s2, bc_currentHeight := blk_Number b\<rparr>
                  in (case st_Put st s2 heightKey (marshal_u64 (bc_currentHeight bc2)) of
                        (Some err, s3) \<Rightarrow>
                          (Some (ErrWrapped ''failed to update height'' (ErrStorage err)), bc2\<lparr>bc_store := s3\<rparr>)
                      | (None, s3) \<Rightarrow> (None, bc2\<lparr>bc_store := s3\<rparr>))))"

definition AddBlock :: "'s Storage \<Rightarrow> 's Blockchain \<Rightarrow> Block \<Rightarrow> gerror option \<times> 's Blockchain" where
  "AddBlock st bc b = addBlock st bc b"

definition fresh_chain :: "'s Storage \<Rightarrow> 's Blockchain \<Rightarrow> Block \<Rightarrow> gerror + 's Blockchain" where
  "fresh_chain st bc genesis =
     (let bc1 = bc\<lparr>bc_tip := blk_Hash genesis, bc_currentHeight := 0\<rparr>
      in case st_Put st (bc_store bc1) tipKey (hash_bytes (bc_tip bc1)) of
           (Some err, _) \<Rightarrow> Inl (ErrWrapped ''failed to save initial tip'' (ErrStorage err))
         | (None, s1) \<Rightarrow>
             (case st_Put st s1 heightKey (marshal_u64 0) of
                (Some err, _) \<Rightarrow> Inl (ErrWrapped ''failed to save initial height'' (ErrStorage err))
              | (None, s2) \<Rightarrow>
                  (case addBlock st (bc1\<lparr>bc_store := s2\<rparr>) genesis of
                     (Some err, _) \<Rightarrow> Inl (ErrWrapped ''failed to save genesis block'' err)
                   | (None, bc2) \<Rightarrow> Inr bc2)))"

definition NewBlockchain :: "crypto \<Rightarrow> 's Storage \<Rightarrow> 's \<Rightarrow> gerror + 's Blockchain" where
  "NewBlockchain cr st store =
     (let genesis = createGenesisBlock cr;
          bc = \<lparr>bc_store = store, bc_currentHeight = 0, bc_tip = 0, bc_height = 0, bc_genesisBlock = genesis\<rparr>
      in case st_Get st store tipKey of
           Inr tipData \<Rightarrow>
             if length tipData = 32 then
               (let bc1 = bc\<lparr>bc_tip := hash_of_bytes tipData\<rparr>
                in case st_Get st store heightKey of
                     Inr heightData \<Rightarrow>
                       if 0 < length heightData then
                         (case unmarshal_u64 heightData of
                            Some h \<Rightarrow> Inr (bc1\<lparr>bc_currentHeight := h\<rparr>)
                          | None \<Rightarrow> Inr bc1)
                       else Inr bc1
                   | Inl _ \<Rightarrow> Inr bc1)
             else fresh_chain st bc genesis
         | Inl _ \<Rightarrow> fresh_chain st bc genesis)"

definition GetBlockByHeight :: "'s Storage \<Rightarrow> 's Blockchain \<Rightarrow> u64 \<Rightarrow> gerror + Block" where
  "GetBlockByHeight st bc height =
     (if bc_currentHeight bc < height then Inl (ErrHeightTooHigh height (bc_currentHeight bc))
      else if height = 0 then Inr (bc_genesisBlock bc)
      else
        (case st_Get st (bc_store bc) (blockKey height) of
           Inl err \<Rightarrow> Inl (ErrStorage err)
         | Inr dat \<Rightarrow> Block_Decode dat))"

definition heights :: "'s Blockchain \<Rightarrow> u64 list" where
  "heights bc = map of_nat [0..<Suc (unat (bc_currentHeight bc))]"

fun find_block :: "(u64 \<Rightarrow> gerror + Block) \<Rightarrow> hash \<Rightarrow> u64 list \<Rightarrow> gerror + Block" where
  "find_block get h [] = Inl (ErrBlockNotFound h)"
| "find_block get h (i # is) =
     (case get i of
        Inl _ \<Rightarrow> find_block get h is
      | Inr block \<Rightarrow> if blk_Hash block = h then Inr block else find_block get h is)"

definition GetBlockByHash :: "'s Storage \<Rightarrow> 's Blockchain \<Rightarrow> hash \<Rightarrow> gerror + Block" where
  "GetBlockByHash st bc h = find_block (GetBlockByHeight st bc) h (heights bc)"

definition HasBlock :: "'s Storage \<Rightarrow> 's Blockchain \<Rightarrow> hash \<Rightarrow> bool" where
  "HasBlock st bc h = (case GetBlockByHash st bc h of Inr _ \<Rightarrow> True | Inl _ \<Rightarrow> False)"

definition Height :: "'s Blockchain \<Rightarrow> u64" where
  "Height bc = bc_currentHeight bc"

definition GetLastBlock :: "'s Storage \<Rightarrow> 's Blockchain \<Rightarrow> gerror + Block" where
  "GetLastBlock st bc =
     (if bc_tip bc = 0 then Inr (bc_genesisBlock bc) else GetBlockByHash st bc (bc_tip bc))"

definition computeTransactionRoot :: "crypto \<Rightarrow> Transaction list \<Rightarrow> hash" where
  "computeTransactionRoot cr txs =
     (if txs = [] then 0 else sha3_256 cr (concat (map (\<lambda>tx. hash_bytes (tx_Hash tx)) txs)))"

text \<open>The time of \<^verbatim>\<open>time.Now().UnixNano()\<close> is the argument \<open>now\<close>.\<close>

definition CreateBlock ::
  "crypto \<Rightarrow> 's Storage \<Rightarrow> i64 \<Rightarrow> 's Blockchain \<Rightarrow> Transaction list \<Rightarrow> Validator \<Rightarrow> gerror + Block" where
  "CreateBlock cr st now bc txs proposer =
     (case GetLastBlock st bc of
        Inl err \<Rightarrow> Inl (ErrWrapped ''failed to get last block'' err)
      | Inr lastBlock \<Rightarrow>
          let header = \<lparr>hdr_BlockNumber = blk_Number lastBlock + 1, hdr_PreviousHash = blk_Hash lastBlock,
                        hdr_Timestamp = now, hdr_Proposer = val_Address proposer, hdr_Gas = 0,
                        hdr_TransactionRoot = computeTransactionRoot cr txs, hdr_Hash = 0\<rparr>;
              header' = header\<lparr>hdr_Hash := ComputeHash cr header\<rparr>;
              block = NewBlock header' txs;
              size = of_nat (length (Block_Encode block))
          in if 256 * 1024 * 1024 < size then Inl (ErrBlockSize size)
             else Inr (block\<lparr>blk_Size := size\<rparr>))"

definition data_size :: "storage_error + bytes \<Rightarrow> u64" where
  "data_size r = (case r of Inl _ \<Rightarrow> 0 | Inr dat \<Rightarrow> of_nat (length dat))"

definition GetDatabaseSize :: "'s Storage \<Rightarrow> 's Blockchain \<Rightarrow> u64" where
  "GetDatabaseSize st bc =
     sum_list (map (\<lambda>i. data_size (st_Get st (bc_store bc) (blockKey i))) (heights bc)) +
     data_size (st_Get st (bc_store bc) tipKey) + data_size (st_Get st (bc_store bc) heightKey)"

fun find_transaction :: "(u64 \<Rightarrow> gerror + Block) \<Rightarrow> hash \<Rightarrow> u64 list \<Rightarrow> gerror + Transaction \<times> u64" where
  "find_transaction get h [] = Inl (ErrTransactionNotFound h)"
| "find_transaction get h (i # is) =
     (case get i of
        Inl _ \<Rightarrow> find_transaction get h is
      | Inr block \<Rightarrow>
          (case find (\<lambda>tx. tx_Hash tx = h) (blk_Transactions block) of
             Some tx \<Rightarrow> Inr (tx, i)
           | None \<Rightarrow> find_transaction get h is))"

definition GetTransactionByHash :: "'s Storage \<Rightarrow> 's Blockchain \<Rightarrow> hash \<Rightarrow> gerror + Transaction \<times> u64" where
  "GetTransactionByHash st bc txHash = find_transaction (GetBlockByHeight st bc) txHash (heights bc)"

section \<open>Applying blocks with the registry\<close>

text \<open>The \<^verbatim>\<open>switch tx.Type\<close> of \<^verbatim>\<open>ApplyBlockWithRegistry\<close>; the errors of \<^verbatim>\<open>RegisterValidator\<close> are dropped there.\<close>

definition new_validator :: "address \<Rightarrow> u64 \<Rightarrow> Validator" where
  "new_validator addr stake = \<lparr>val_Address = addr, val_Stake = stake, val_DelegatedStake = 0,
     val_ComputeReputation = 0, val_Participating = True\<rparr>"

definition registry_effect ::
  "'s Storage \<Rightarrow> Transaction \<Rightarrow> 's ValidatorRegistry \<Rightarrow> gerror option \<times> 's ValidatorRegistry" where
  "registry_effect st tx vr =
     (if tx_Type tx = ''participation'' then
        (case GetValidator st vr (tx_From tx) of
           Inr (Some v) \<Rightarrow>
             if \<not> val_Participating v
             then (None, snd (RegisterValidator st vr (Some (v\<lparr>val_Participating := True\<rparr>))))
             else (None, vr)
         | _ \<Rightarrow> (None, vr))
      else if tx_Type tx = ''register_validator'' then
        (case GetValidator st vr (tx_From tx) of
           Inl _ \<Rightarrow> (None, snd (RegisterValidator st vr (Some (new_validator (tx_From tx) (tx_Value tx)))))
         | Inr None \<Rightarrow> (None, snd (RegisterValidator st vr (Some (new_validator (tx_From tx) (tx_Value tx)))))
         | Inr (Some v) \<Rightarrow>
             (None, snd (RegisterValidator st vr
                (Some (v\<lparr>val_Stake := val_Stake v + tx_Value tx, val_Participating := True\<rparr>)))))
      else if tx_Type tx = ''delegate'' then
        (case GetValidator st vr (tx_To tx) of
           Inl err \<Rightarrow> (Some (ErrDelegateTo (tx_To tx) err), vr)
         | Inr None \<Rightarrow> (Some (ErrValidatorNotFound (tx_To tx)), vr)
         | Inr (Some v) \<Rightarrow>
             (None, snd (RegisterValidator st vr
                (Some (v\<lparr>val_DelegatedStake := val_DelegatedStake v + tx_Value tx\<rparr>)))))
      else (None, vr))"

fun apply_with_registry ::
  "crypto \<Rightarrow> 's Storage \<Rightarrow> Transaction list \<Rightarrow> State \<Rightarrow> 's ValidatorRegistry \<Rightarrow>
   gerror option \<times> State \<times> 's ValidatorRegistry" where
  "apply_with_registry cr st [] state vr = (None, state, vr)"
| "apply_with_registry cr st (tx # txs) state vr =
     (case registry_effect st tx vr of
        (Some err, vr') \<Rightarrow> (Some err, state, vr')
      | (None, vr') \<Rightarrow>
          (case ApplyTransaction cr state tx of
             (Some err, state') \<Rightarrow> (Some (ErrApplyTransaction (tx_Hash tx) err), state', vr')
           | (None, state') \<Rightarrow> apply_with_registry cr st txs state' vr'))"

definition ApplyBlockWithRegistry ::
  "crypto \<Rightarrow> 's Storage \<Rightarrow> Block \<Rightarrow> State \<Rightarrow> 's ValidatorRegistry \<Rightarrow>
   gerror option \<times> State \<times> 's ValidatorRegistry" where
  "ApplyBlockWithRegistry cr st block state vr = apply_with_registry cr st (blk_Transactions block) state vr"

section \<open>Well-formed chains\<close>

text \<open>
  \<open>chain_ok\<close>: every height up to the current one holds a block with that number, and the store
  and the fields agree on tip and height.  \<open>chain_linked\<close>: every block but the genesis names its
  predecessor's hash, and every block carries its header's hash.
\<close>

definition chain_ok :: "crypto \<Rightarrow> 's Storage \<Rightarrow> ('s \<Rightarrow> bool) \<Rightarrow> 's Blockchain \<Rightarrow> bool" where
  "chain_ok cr st I bc \<longleftrightarrow> I (bc_store bc) \<and> bc_genesisBlock bc = createGenesisBlock cr \<and>
     store_view st (bc_store bc) tipKey = Some (hash_bytes (bc_tip bc)) \<and>
     store_view st (bc_store bc) heightKey = Some (marshal_u64 (bc_currentHeight bc)) \<and>
     (\<forall>h. 0 < h \<and> h \<le> bc_currentHeight bc \<longrightarrow>
        (\<exists>b. store_view st (bc_store bc) (blockKey h) = Some (Block_Encode b) \<and> blk_Number b = h)) \<and>
     (\<exists>b. GetBlockByHeight st bc (bc_currentHeight bc) = Inr b \<and> blk_Hash b = bc_tip bc)"

definition chain_linked :: "crypto \<Rightarrow> 's Storage \<Rightarrow> 's Blockchain \<Rightarrow> bool" where
  "chain_linked cr st bc \<longleftrightarrow>
     (\<forall>h \<le> bc_currentHeight bc. \<forall>b. GetBlockByHeight st bc h = Inr b \<longrightarrow>
        blk_Hash b = ComputeHash cr (blk_Header b) \<and>
        (h \<noteq> 0 \<longrightarrow> (\<exists>p. GetBlockByHeight st bc (h - 1) = Inr p \<and> hdr_PreviousHash (blk_Header b) = blk_Hash p)))"

lemma store_view_get: "store_view st s k = Some v \<longleftrightarrow> st_Get st s k = Inr v"
  by (auto simp: store_view_def split: sum.splits)

lemma blockKey_inject [simp]: "blockKey a = blockKey b \<longleftrightarrow> a = b"
  by (simp add: blockKey_def word_unat_eq_iff)

lemma keys_differ [simp]:
  "blockKey h \<noteq> tipKey" "blockKey h \<noteq> heightKey" "tipKey \<noteq> heightKey"
  "tipKey \<noteq> blockKey h" "heightKey \<noteq> blockKey h" "heightKey \<noteq> tipKey"
  by (simp_all add: blockKey_def tipKey_def heightKey_def)

lemma genesis_number [simp]: "blk_Number (createGenesisBlock cr) = 0"
  by (simp add: createGenesisBlock_def Let_def)

lemma genesis_hash: "blk_Hash (createGenesisBlock cr) = ComputeHash cr (blk_Header (createGenesisBlock cr))"
  by (simp add: createGenesisBlock_def Let_def ComputeHash_def)

lemma GetBlockByHeight_ok:
  assumes "chain_ok cr st I bc" and "h \<le> bc_currentHeight bc"
  obtains b where "GetBlockByHeight st bc h = Inr b" "blk_Number b = h"
proof (cases "h = 0")
  case True
  then show ?thesis using assms that by (simp add: GetBlockByHeight_def chain_ok_def)
next
  case False
  then have "0 < h" by (simp add: word_neq_0_conv)
  then obtain b where "store_view st (bc_store bc) (blockKey h) = Some (Block_Encode b)" "blk_Number b = h"
    using assms unfolding chain_ok_def by blast
  then show ?thesis using assms(2) False by (intro that [of b]) (auto simp: GetBlockByHeight_def store_view_get)
qed

context reliable_store
begin

lemma AddBlock_ok:
  assumes "inv (bc_store bc)"
  obtains s where "AddBlock st bc b = (None, bc\<lparr>bc_store := s, bc_tip := blk_Hash b, bc_height := blk_Number b,
      bc_currentHeight := blk_Number b\<rparr>)" "inv s"
    "store_view st s = (store_view st (bc_store bc))(blockKey (blk_Number b) \<mapsto> Block_Encode b,
       tipKey \<mapsto> hash_bytes (blk_Hash b), heightKey \<mapsto> marshal_u64 (blk_Number b))"
proof -
  let ?s1 = "snd (st_Put st (bc_store bc) (blockKey (blk_Number b)) (Block_Encode b))"
  let ?s2 = "snd (st_Put st ?s1 tipKey (hash_bytes (blk_Hash b)))"
  let ?s3 = "snd (st_Put st ?s2 heightKey (marshal_u64 (blk_Number b)))"
  have i1: "inv ?s1" using assms by (rule inv_put)
  have i2: "inv ?s2" using i1 by (rule inv_put)
  have i3: "inv ?s3" using i2 by (rule inv_put)
  have "AddBlock st bc b = (None, bc\<lparr>bc_store := ?s3, bc_tip := blk_Hash b, bc_height := blk_Number b,
      bc_currentHeight := blk_Number b\<rparr>)"
    unfolding AddBlock_def addBlock_def
    by (subst put_eq [OF assms], simp add: Let_def, subst put_eq [OF i1], simp, subst put_eq [OF i2], simp)
  moreover have "store_view st ?s3 = (store_view st (bc_store bc))(blockKey (blk_Number b) \<mapsto> Block_Encode b,
       tipKey \<mapsto> hash_bytes (blk_Hash b), heightKey \<mapsto> marshal_u64 (blk_Number b))"
    using assms i1 i2 by simp
  ultimately show ?thesis using that i3 by blast
qed

lemma AddBlock_extends:
  assumes ok: "chain_ok cr st inv bc" and num: "blk_Number b = bc_currentHeight bc + 1"
    and room: "unat (bc_currentHeight bc) + 1 < 2 ^ 64"
  obtains bc' where "AddBlock st bc b = (None, bc')" "chain_ok cr st inv bc'"
    "bc_currentHeight bc' = bc_currentHeight bc + 1" "bc_tip bc' = blk_Hash b"
    "GetBlockByHeight st bc' (bc_currentHeight bc + 1) = Inr b"
    "\<forall>h \<le> bc_currentHeight bc. GetBlockByHeight st bc' h = GetBlockByHeight st bc h"
proof -
  let ?c = "bc_currentHeight bc"
  have inv: "inv (bc_store bc)" using ok by (simp add: chain_ok_def)
  obtain s where s: "AddBlock st bc b = (None, bc\<lparr>bc_store := s, bc_tip := blk_Hash b, bc_height := blk_Number b,
      bc_currentHeight := blk_Number b\<rparr>)" "inv s"
    "store_view st s = (store_view st (bc_store bc))(blockKey (blk_Number b) \<mapsto> Block_Encode b,
       tipKey \<mapsto> hash_bytes (blk_Hash b), heightKey \<mapsto> marshal_u64 (blk_Number b))"
    using AddBlock_ok [OF inv] .
  define bc' where "bc' = bc\<lparr>bc_store := s, bc_tip := blk_Hash b, bc_height := blk_Number b, bc_currentHeight := blk_Number b\<rparr>"
  have c1: "unat (?c + 1) = unat ?c + 1" using room by (simp add: unat_word_ariths)
  have le: "h \<le> ?c + 1 \<longleftrightarrow> h \<le> ?c \<or> h = ?c + 1" for h
    unfolding word_le_nat_alt word_unat_eq_iff c1 by auto
  have ne: "?c + 1 \<noteq> 0" using c1 by (metis add_is_0 unat_0 zero_neq_one)
  have new: "GetBlockByHeight st bc' (?c + 1) = Inr b"
    using s(3) ne num store_view_get [of st s "blockKey (?c + 1)" "Block_Encode b"]
    by (simp add: GetBlockByHeight_def bc'_def)
  have old: "GetBlockByHeight st bc' h = GetBlockByHeight st bc h" if hle: "h \<le> ?c" for h
  proof (cases "h = 0")
    case True
    then show ?thesis by (simp add: GetBlockByHeight_def bc'_def)
  next
    case False
    have hne: "h \<noteq> ?c + 1" using hle c1 by (auto simp: word_le_nat_alt)
    have "0 < h" using False by (simp add: word_neq_0_conv)
    then obtain b0 where "store_view st (bc_store bc) (blockKey h) = Some (Block_Encode b0)"
      using ok hle unfolding chain_ok_def by blast
    moreover have "store_view st s (blockKey h) = store_view st (bc_store bc) (blockKey h)"
      using s(3) hne num by simp
    ultimately have "st_Get st s (blockKey h) = st_Get st (bc_store bc) (blockKey h)"
      by (metis store_view_get)
    moreover have "h \<le> ?c + 1" using hle le by blast
    ultimately show ?thesis using hle num by (simp add: GetBlockByHeight_def bc'_def not_less [symmetric])
  qed
  have "chain_ok cr st inv bc'"
    using ok s(2,3) num new le unfolding chain_ok_def by (auto simp: bc'_def)
  then show ?thesis using s(1) num new old by (intro that [of bc']) (auto simp: bc'_def)
qed

lemma fresh_chain_ok:
  assumes "inv s" and "store_view st s tipKey = None"
  obtains bc where "NewBlockchain cr st s = Inr bc" "chain_ok cr st inv bc" "chain_linked cr st bc" "bc_currentHeight bc = 0"
proof -
  let ?g = "createGenesisBlock cr"
  let ?s1 = "snd (st_Put st s tipKey (hash_bytes (blk_Hash ?g)))"
  let ?s2 = "snd (st_Put st ?s1 heightKey (marshal_u64 0))"
  let ?bc = "\<lparr>bc_store = ?s2, bc_currentHeight = 0, bc_tip = blk_Hash ?g, bc_height = 0, bc_genesisBlock = ?g\<rparr>"
  have i1: "inv ?s1" using assms(1) by (rule inv_put)
  have i2: "inv (bc_store ?bc)" using inv_put [OF i1] by simp
  obtain s3 where s3: "AddBlock st ?bc ?g = (None, ?bc\<lparr>bc_store := s3, bc_tip := blk_Hash ?g, bc_height := blk_Number ?g,
      bc_currentHeight := blk_Number ?g\<rparr>)" "inv s3"
    "store_view st s3 = (store_view st (bc_store ?bc))(blockKey (blk_Number ?g) \<mapsto> Block_Encode ?g,
       tipKey \<mapsto> hash_bytes (blk_Hash ?g), heightKey \<mapsto> marshal_u64 (blk_Number ?g))"
    using AddBlock_ok [OF i2] .
  let ?bc' = "?bc\<lparr>bc_store := s3\<rparr>"
  have "NewBlockchain cr st s = fresh_chain st \<lparr>bc_store = s, bc_currentHeight = 0, bc_tip = 0, bc_height = 0,
      bc_genesisBlock = ?g\<rparr> ?g"
    using assms(2) by (simp add: NewBlockchain_def Let_def store_view_def split: sum.splits)
  also have "\<dots> = Inr ?bc'"
    using s3(1) unfolding fresh_chain_def AddBlock_def
    by (simp add: Let_def, subst put_eq [OF assms(1)], simp, subst put_eq [OF i1], simp)
  finally have "NewBlockchain cr st s = Inr ?bc'" .
  moreover have get: "GetBlockByHeight st ?bc' 0 = Inr ?g" by (simp add: GetBlockByHeight_def)
  moreover have "chain_ok cr st inv ?bc'"
    using s3(2,3) get by (auto simp: chain_ok_def)
  moreover have "chain_linked cr st ?bc'"
    using get genesis_hash by (auto simp: chain_linked_def)
  ultimately show ?thesis using that by simp
qed

end

section \<open>Restart\<close>

lemma restart_ok:
  assumes "chain_ok cr st I bc"
  shows "NewBlockchain cr st (bc_store bc) = Inr (bc\<lparr>bc_height := 0\<rparr>)"
proof -
  have "st_Get st (bc_store bc) tipKey = Inr (hash_bytes (bc_tip bc))"
    "st_Get st (bc_store bc) heightKey = Inr (marshal_u64 (bc_currentHeight bc))"
    "bc_genesisBlock bc = createGenesisBlock cr"
    using assms by (auto simp: chain_ok_def store_view_get)
  moreover have "marshal_u64 (bc_currentHeight bc) \<noteq> []"
    using print_json_start [of "u64_json (bc_currentHeight bc)"] by (auto simp: marshal_u64_def)
  ultimately show ?thesis by (simp add: NewBlockchain_def Let_def)
qed

section \<open>The last block\<close>

definition header_bytes :: "Header \<Rightarrow> bytes" where
  "header_bytes hdr = print_json (header_json (hdr\<lparr>hdr_Hash := 0\<rparr>))"

definition chain_headers :: "'s Storage \<Rightarrow> 's Blockchain \<Rightarrow> Header set" where
  "chain_headers st bc = {blk_Header b | b h. h \<le> bc_currentHeight bc \<and> GetBlockByHeight st bc h = Inr b}"

text \<open>SHA-3 neither collides nor is zero on the encodings of the headers of the chain.\<close>

definition collision_free :: "crypto \<Rightarrow> Header set \<Rightarrow> bool" where
  "collision_free cr hdrs \<longleftrightarrow>
     inj_on (sha3_256 cr) (header_bytes ` hdrs) \<and> 0 \<notin> sha3_256 cr ` header_bytes ` hdrs"

lemma header_bytes_inject:
  "header_bytes a = header_bytes b \<Longrightarrow> a\<lparr>hdr_Hash := 0\<rparr> = b\<lparr>hdr_Hash := 0\<rparr>"
proof -
  assume "header_bytes a = header_bytes b"
  then have "parse_json (header_bytes a) = parse_json (header_bytes b)" by simp
  then have "header_json (a\<lparr>hdr_Hash := 0\<rparr>) = header_json (b\<lparr>hdr_Hash := 0\<rparr>)"
    by (simp only: header_bytes_def parse_print_json option.inject)
  then have "json_header (header_json (a\<lparr>hdr_Hash := 0\<rparr>)) = json_header (header_json (b\<lparr>hdr_Hash := 0\<rparr>))" by (simp only:)
  then show ?thesis by (simp only: json_header_header option.inject)
qed

lemma ComputeHash_bytes: "ComputeHash cr h = sha3_256 cr (header_bytes h)"
  by (simp add: ComputeHash_def header_bytes_def)

lemma find_block_unique:
  "\<forall>i \<in> set is. \<forall>b. get i = Inr b \<and> blk_Hash b = h \<longrightarrow> b = b0 \<Longrightarrow> i0 \<in> set is \<Longrightarrow> get i0 = Inr b0 \<Longrightarrow>
   blk_Hash b0 = h \<Longrightarrow> find_block get h is = Inr b0"
proof (induction "is")
  case (Cons i "is")
  have IH: "i0 \<in> set is \<Longrightarrow> find_block get h is = Inr b0"
    using Cons.IH Cons.prems(1,3,4) unfolding list.set by blast
  show ?case
  proof (cases "get i")
    case (Inl e)
    then show ?thesis using IH Cons.prems(2,3) by auto
  next
    case (Inr x)
    show ?thesis
    proof (cases "blk_Hash x = h")
      case True
      then have "x = b0" using Cons.prems(1) Inr unfolding list.set by blast
      with True Inr show ?thesis by simp
    next
      case False
      then have "i0 \<in> set is" using Cons.prems(2-4) Inr by auto
      with IH False Inr show ?thesis by simp
    qed
  qed
qed simp

lemma set_heights: "set (heights bc) = {h. h \<le> bc_currentHeight bc}"
proof
  show "{h. h \<le> bc_currentHeight bc} \<subseteq> set (heights bc)"
  proof
    fix h assume "h \<in> {h. h \<le> bc_currentHeight bc}"
    then have "unat h \<in> set [0..<Suc (unat (bc_currentHeight bc))]" by (simp add: word_le_nat_alt del: upt_Suc)
    then show "h \<in> set (heights bc)" unfolding heights_def set_map by (rule image_eqI [rotated]) simp
  qed
next
  show "set (heights bc) \<subseteq> {h. h \<le> bc_currentHeight bc}"
    by (auto simp: heights_def word_le_nat_alt unat_of_nat less_Suc_eq_le intro: order_trans [OF take_bit_nat_less_eq_self]
        simp del: upt_Suc)
qed

lemma GetLastBlock_ok:
  assumes ok: "chain_ok cr st I bc" and linked: "chain_linked cr st bc"
    and cf: "collision_free cr (chain_headers st bc)"
  obtains b where "GetLastBlock st bc = Inr b" "GetBlockByHeight st bc (bc_currentHeight bc) = Inr b"
    "blk_Number b = bc_currentHeight bc"
proof -
  let ?c = "bc_currentHeight bc"
  obtain b where b: "GetBlockByHeight st bc ?c = Inr b" "blk_Number b = ?c"
    using GetBlockByHeight_ok [OF ok order_refl] .
  have tip: "bc_tip bc = blk_Hash b" using ok b(1) by (auto simp: chain_ok_def)
  have mem: "blk_Header x \<in> chain_headers st bc" if "h \<le> ?c" "GetBlockByHeight st bc h = Inr x" for x h
    using that by (auto simp: chain_headers_def)
  have hash: "blk_Hash x = sha3_256 cr (header_bytes (blk_Header x))" if "h \<le> ?c" "GetBlockByHeight st bc h = Inr x" for x h
    using linked that unfolding chain_linked_def ComputeHash_bytes by blast
  have nz: "bc_tip bc \<noteq> 0"
    using cf mem [OF order_refl b(1)] hash [OF order_refl b(1)] tip unfolding collision_free_def by (metis imageI)
  have "x = b" if h: "h \<le> ?c" "GetBlockByHeight st bc h = Inr x" and eq: "blk_Hash x = bc_tip bc" for x h
  proof -
    have "sha3_256 cr (header_bytes (blk_Header x)) = sha3_256 cr (header_bytes (blk_Header b))"
      using eq tip hash [OF h] hash [OF order_refl b(1)] by simp
    then have "header_bytes (blk_Header x) = header_bytes (blk_Header b)"
      using cf mem [OF h] mem [OF order_refl b(1)] unfolding collision_free_def by (meson imageI inj_onD)
    from arg_cong [OF header_bytes_inject [OF this], of hdr_BlockNumber]
    have "blk_Number x = blk_Number b" by simp
    moreover obtain y where "GetBlockByHeight st bc h = Inr y" "blk_Number y = h"
      using GetBlockByHeight_ok [OF ok h(1)] .
    ultimately have "h = ?c" using h(2) b(2) by simp
    moreover note h(2)
    ultimately show ?thesis using b(1) by simp
  qed
  then have uniq: "\<forall>i \<in> set (heights bc). \<forall>x. GetBlockByHeight st bc i = Inr x \<and> blk_Hash x = bc_tip bc \<longrightarrow> x = b"
    unfolding set_heights by blast
  have "?c \<in> set (heights bc)" by (simp add: set_heights)
  then have "find_block (GetBlockByHeight st bc) (bc_tip bc) (heights bc) = Inr b"
    using b(1) tip by (intro find_block_unique [OF uniq]) simp_all
  then have "GetLastBlock st bc = Inr b" using nz by (simp add: GetLastBlock_def GetBlockByHash_def)
  then show ?thesis using that b by blast
qed

lemma CreateBlock_header:
  assumes "CreateBlock cr st now bc txs v = Inr b" "GetLastBlock st bc = Inr p"
  shows "blk_Number b = blk_Number p + 1" "hdr_PreviousHash (blk_Header b) = blk_Hash p"
    "blk_Hash b = ComputeHash cr (blk_Header b)" "blk_Transactions b = txs"
    "hdr_TransactionRoot (blk_Header b) = computeTransactionRoot cr txs"
    "hdr_Proposer (blk_Header b) = val_Address v"
  using assms by (auto simp: CreateBlock_def Let_def NewBlock_def ComputeHash_def split: if_splits)

lemma Block_Sign_header: "blk_Hash b = ComputeHash cr (blk_Header b) \<Longrightarrow> blk_Header (Block_Sign cr b sk) = blk_Header b"
  by (auto simp: Block_Sign_def Let_def)

lemma Block_Sign_Transactions [simp]: "blk_Transactions (Block_Sign cr b sk) = blk_Transactions b"
  by (simp add: Block_Sign_def Let_def)

context reliable_store
begin

lemma linked_extends:
  assumes ok: "chain_ok cr st inv bc" and linked: "chain_linked cr st bc"
    and p: "GetBlockByHeight st bc (bc_currentHeight bc) = Inr p"
    and b: "blk_Hash b = ComputeHash cr (blk_Header b)" "hdr_PreviousHash (blk_Header b) = blk_Hash p"
    and num: "blk_Number b = bc_currentHeight bc + 1" and room: "unat (bc_currentHeight bc) + 1 < 2 ^ 64"
  obtains bc' where "AddBlock st bc b = (None, bc')" "chain_ok cr st inv bc'" "chain_linked cr st bc'"
    "bc_currentHeight bc' = bc_currentHeight bc + 1" "bc_tip bc' = blk_Hash b"
    "GetBlockByHeight st bc' (bc_currentHeight bc + 1) = Inr b"
    "\<forall>h \<le> bc_currentHeight bc. GetBlockByHeight st bc' h = GetBlockByHeight st bc h"
proof -
  let ?c = "bc_currentHeight bc"
  obtain bc' where bc': "AddBlock st bc b = (None, bc')" "chain_ok cr st inv bc'"
    "bc_currentHeight bc' = ?c + 1" "bc_tip bc' = blk_Hash b" "GetBlockByHeight st bc' (?c + 1) = Inr b"
    "\<forall>h \<le> ?c. GetBlockByHeight st bc' h = GetBlockByHeight st bc h"
    using AddBlock_extends [OF ok num room] .
  have c1: "unat (?c + 1) = unat ?c + 1" using room by (simp add: unat_word_ariths)
  have "blk_Hash x = ComputeHash cr (blk_Header x) \<and>
      (h \<noteq> 0 \<longrightarrow> (\<exists>q. GetBlockByHeight st bc' (h - 1) = Inr q \<and> hdr_PreviousHash (blk_Header x) = blk_Hash q))"
    if h: "h \<le> ?c + 1" "GetBlockByHeight st bc' h = Inr x" for h x
  proof (cases "h = ?c + 1")
    case True
    then show ?thesis using h(2) bc'(5,6) b p by auto
  next
    case False
    then have le: "h \<le> ?c" using h(1) c1 unfolding word_le_nat_alt word_unat_eq_iff by linarith
    moreover have "h - 1 \<le> ?c" if "h \<noteq> 0"
      using le that by (simp add: word_le_nat_alt unat_minus_one)
    ultimately show ?thesis using linked h(2) bc'(6) unfolding chain_linked_def by auto
  qed
  then have "chain_linked cr st bc'" using bc'(3) by (auto simp: chain_linked_def)
  then show ?thesis using that bc' by blast
qed

end

section \<open>What a transaction does to the registry\<close>

definition reg_step :: "Transaction \<Rightarrow> (address \<Rightarrow> Validator option) \<Rightarrow> address \<Rightarrow> Validator option" where
  "reg_step tx R =
     (if tx_Type tx = ''participation'' then
        R(tx_From tx := map_option (\<lambda>v. v\<lparr>val_Participating := True\<rparr>) (R (tx_From tx)))
      else if tx_Type tx = ''register_validator'' then
        R(tx_From tx \<mapsto> (case R (tx_From tx) of
            None \<Rightarrow> new_validator (tx_From tx) (tx_Value tx)
          | Some v \<Rightarrow> v\<lparr>val_Stake := val_Stake v + tx_Value tx, val_Participating := True\<rparr>))
      else if tx_Type tx = ''delegate'' then
        R(tx_To tx := map_option (\<lambda>v. v\<lparr>val_DelegatedStake := val_DelegatedStake v + tx_Value tx\<rparr>) (R (tx_To tx)))
      else R)"

definition stake_of :: "Validator option \<Rightarrow> nat" where
  "stake_of x = (case x of None \<Rightarrow> 0 | Some v \<Rightarrow> unat (val_Stake v) + unat (val_DelegatedStake v))"

definition stake_sum :: "(address \<Rightarrow> Validator option) \<Rightarrow> nat" where
  "stake_sum R = (\<Sum>a \<in> UNIV. stake_of (R a))"

definition total_stake :: "'s Storage \<Rightarrow> 's ValidatorRegistry \<Rightarrow> nat" where
  "total_stake st vr = stake_sum (reg_view st vr)"

definition staked :: "Transaction \<Rightarrow> nat" where
  "staked tx = (if tx_Type tx = ''register_validator'' \<or> tx_Type tx = ''delegate'' then unat (tx_Value tx) else 0)"

lemma stake_sum_upd: "stake_sum (R(a := x)) + stake_of (R a) = stake_sum R + stake_of x"
proof -
  have rest: "(\<Sum>b \<in> UNIV - {a}. stake_of ((R(a := x)) b)) = (\<Sum>b \<in> UNIV - {a}. stake_of (R b))"
    by (rule sum.cong) simp_all
  have "stake_sum S = stake_of (S a) + (\<Sum>b \<in> UNIV - {a}. stake_of (S b))" for S
    unfolding stake_sum_def by (rule sum.remove) simp_all
  then show ?thesis using rest by simp
qed

lemma stake_of_le: "stake_of (R a) \<le> stake_sum R"
  unfolding stake_sum_def by (rule member_le_sum) simp_all

lemma stake_of_add:
  assumes "stake_of (Some v) + unat x < 2 ^ 64"
  shows "stake_of (Some (v\<lparr>val_Stake := val_Stake v + x, val_Participating := p\<rparr>)) = stake_of (Some v) + unat x"
    and "stake_of (Some (v\<lparr>val_DelegatedStake := val_DelegatedStake v + x\<rparr>)) = stake_of (Some v) + unat x"
  using assms by (simp_all add: stake_of_def unat_add_no_wrap)

lemma stake_sum_step:
  assumes room: "stake_sum R + unat (tx_Value tx) < 2 ^ 64"
    and reg: "tx_Type tx = ''delegate'' \<Longrightarrow> R (tx_To tx) \<noteq> None"
  shows "stake_sum (reg_step tx R) = stake_sum R + staked tx"
proof -
  consider (part) "tx_Type tx = ''participation''" | (reg) "tx_Type tx = ''register_validator''"
    | (del) "tx_Type tx = ''delegate''"
    | (other) "tx_Type tx \<noteq> ''participation''" "tx_Type tx \<noteq> ''register_validator''" "tx_Type tx \<noteq> ''delegate''"
    by blast
  then show ?thesis
  proof cases
    case part
    have "stake_of (map_option (\<lambda>v. v\<lparr>val_Participating := True\<rparr>) (R (tx_From tx))) = stake_of (R (tx_From tx))"
      by (simp add: stake_of_def split: option.split)
    with part stake_sum_upd [of R "tx_From tx" "map_option (\<lambda>v. v\<lparr>val_Participating := True\<rparr>) (R (tx_From tx))"]
    show ?thesis by (simp add: reg_step_def staked_def)
  next
    case reg
    let ?x = "Some (case R (tx_From tx) of None \<Rightarrow> new_validator (tx_From tx) (tx_Value tx)
      | Some v \<Rightarrow> v\<lparr>val_Stake := val_Stake v + tx_Value tx, val_Participating := True\<rparr>)"
    have "stake_of ?x = stake_of (R (tx_From tx)) + unat (tx_Value tx)"
    proof (cases "R (tx_From tx)")
      case None
      then show ?thesis by (simp add: stake_of_def new_validator_def)
    next
      case (Some v)
      then show ?thesis using stake_of_add(1) [of v "tx_Value tx" True] stake_of_le [of R "tx_From tx"] room by simp
    qed
    with reg stake_sum_upd [of R "tx_From tx" ?x] show ?thesis by (simp add: reg_step_def staked_def)
  next
    case del
    then obtain v where v: "R (tx_To tx) = Some v" using reg by blast
    have "stake_of (Some (v\<lparr>val_DelegatedStake := val_DelegatedStake v + tx_Value tx\<rparr>)) =
        stake_of (R (tx_To tx)) + unat (tx_Value tx)"
      using stake_of_add(2) [of v "tx_Value tx"] stake_of_le [of R "tx_To tx"] room v by simp
    with del v stake_sum_upd [of R "tx_To tx" "Some (v\<lparr>val_DelegatedStake := val_DelegatedStake v + tx_Value tx\<rparr>)"]
    show ?thesis by (simp add: reg_step_def staked_def)
  next
    case other
    then show ?thesis by (simp add: reg_step_def staked_def)
  qed
qed

context reliable_store
begin

lemma Register_effect:
  assumes "reg_ok st inv vr"
  shows "reg_ok st inv (snd (RegisterValidator st vr (Some v))) \<and>
    reg_view st (snd (RegisterValidator st vr (Some v))) = (reg_view st vr)(val_Address v \<mapsto> v)"
  by (rule RegisterValidator_ok [OF assms, of v]) simp

lemma registry_effect_ok:
  assumes ok: "reg_ok st inv vr"
  shows "registry_effect st tx vr =
      (if tx_Type tx = ''delegate'' \<and> reg_view st vr (tx_To tx) = None
       then (Some (ErrValidatorNotFound (tx_To tx)), vr) else (None, snd (registry_effect st tx vr)))"
    and "reg_ok st inv (snd (registry_effect st tx vr))"
    and "reg_view st (snd (registry_effect st tx vr)) = reg_step tx (reg_view st vr)"
proof -
  note get = GetValidator_view [OF ok] and reg = Register_effect [OF ok]
  note addr = reg_ok_view_address [OF ok]
  show "registry_effect st tx vr =
      (if tx_Type tx = ''delegate'' \<and> reg_view st vr (tx_To tx) = None
       then (Some (ErrValidatorNotFound (tx_To tx)), vr) else (None, snd (registry_effect st tx vr)))"
    by (simp add: registry_effect_def get split: option.split)
  show "reg_ok st inv (snd (registry_effect st tx vr))"
    by (simp add: registry_effect_def get reg ok split: option.split)
  show "reg_view st (snd (registry_effect st tx vr)) = reg_step tx (reg_view st vr)"
    by (auto simp: registry_effect_def get reg reg_step_def new_validator_def addr fun_eq_iff split: option.split)
qed

end

section \<open>Blocks on accounts and registry together\<close>

text \<open>
  The cost of the transaction does not wrap around; and what the transaction takes from the sender and
  gives to nobody: the fee, and the value of a participation or of a transfer to oneself.
\<close>

definition cost_fits :: "Transaction \<Rightarrow> bool" where
  "cost_fits tx \<longleftrightarrow> unat (tx_Value tx) + unat (tx_Fee tx) < 2 ^ 64"

definition lost :: "Transaction \<Rightarrow> nat" where
  "lost tx = unat (tx_Fee tx) +
     (if tx_Type tx = ''participation'' \<or> tx_Type tx = ''transfer'' \<and> tx_From tx = tx_To tx then unat (tx_Value tx) else 0)"

lemma accepted_type: "state_ok cr s \<Longrightarrow> ApplyTransaction cr s tx = (None, s') \<Longrightarrow>
    tx_Type tx \<in> {''participation'', ''register_validator'', ''delegate'', ''transfer''}"
  by (auto simp: ApplyTransaction_def GetAccount_ok check_type_def split: if_splits)

lemma burned_staked:
  assumes "tx_Type tx \<in> {''participation'', ''register_validator'', ''delegate'', ''transfer''}"
  shows "burned tx = lost tx + staked tx"
  using assms by (auto simp: burned_def staked_def lost_def)

context reliable_store
begin

lemma apply_one_conserves:
  assumes ok: "state_ok cr s" "reg_ok st inv vr" and tx: "cost_fits tx"
    and room: "total_supply s + total_stake st vr < 2 ^ 64"
    and app: "ApplyTransaction cr s tx = (None, s')" and reg: "registry_effect st tx vr = (None, vr')"
  shows "total_supply s' + total_stake st vr' + lost tx = total_supply s + total_stake st vr"
proof -
  have cost: "unat (tx_Value tx) + unat (tx_Fee tx) < 2 ^ 64" using tx by (simp add: cost_fits_def)
  have cov: "unat (tx_Value tx) + unat (tx_Fee tx) \<le> unat (acc_Balance (acct s (tx_From tx)))"
    by (rule ApplyTransaction_covered [OF ok(1) app cost])
  have "unat (acc_Balance (acct s (tx_To tx))) + unat (tx_Value tx) < 2 ^ 64" if "tx_From tx \<noteq> tx_To tx"
    using two_balances [OF that, of s] cov room by simp
  then have "total_supply s' + burned tx = total_supply s" by (rule ApplyTransaction_supply [OF ok(1) app cost])
  moreover have "stake_sum (reg_step tx (reg_view st vr)) = stake_sum (reg_view st vr) + staked tx"
  proof (rule stake_sum_step)
    show "stake_sum (reg_view st vr) + unat (tx_Value tx) < 2 ^ 64"
      using one_balance [of s "tx_From tx"] cov room by (simp add: total_stake_def)
    show "reg_view st vr (tx_To tx) \<noteq> None" if "tx_Type tx = ''delegate''"
      using registry_effect_ok(1) [OF ok(2), of tx] reg that by (auto split: if_splits)
  qed
  moreover have "reg_view st vr' = reg_step tx (reg_view st vr)"
    using registry_effect_ok(3) [OF ok(2), of tx] reg by simp
  moreover have "burned tx = lost tx + staked tx" by (rule burned_staked [OF accepted_type [OF ok(1) app]])
  ultimately show ?thesis by (simp add: total_stake_def)
qed

lemma apply_with_registry_ok:
  "state_ok cr s \<Longrightarrow> reg_ok st inv vr \<Longrightarrow> apply_with_registry cr st txs s vr = (e, s', vr') \<Longrightarrow>
     state_ok cr s' \<and> reg_ok st inv vr' \<and>
     (e = None \<longrightarrow> apply_transactions cr s txs = (None, s') \<and>
        reg_view st vr' = fold reg_step txs (reg_view st vr))"
proof (induction txs arbitrary: s vr)
  case (Cons tx txs)
  obtain e1 vr1 where r: "registry_effect st tx vr = (e1, vr1)" by fastforce
  obtain e2 s1 where a: "ApplyTransaction cr s tx = (e2, s1)" by fastforce
  have ok: "reg_ok st inv vr1" "reg_view st vr1 = reg_step tx (reg_view st vr)" "state_ok cr s1"
    using registry_effect_ok(2,3) [OF Cons.prems(2), of tx] r ApplyTransaction_state_ok [OF Cons.prems(1), of tx] a by auto
  show ?case
  proof (cases "e1 = None \<and> e2 = None")
    case True
    then have "apply_with_registry cr st txs s1 vr1 = (e, s', vr')" using Cons.prems(3) by (simp add: r a)
    from Cons.IH [OF ok(3,1) this] show ?thesis using True a by (simp add: ok(2))
  next
    case False
    then have "e \<noteq> None \<and> vr' = vr1 \<and> (s' = s \<or> s' = s1)"
      using Cons.prems(3) by (cases e1; cases e2) (auto simp: r a)
    then show ?thesis using ok Cons.prems(1) by auto
  qed
qed simp

lemma apply_with_registry_conserves:
  "state_ok cr s \<Longrightarrow> reg_ok st inv vr \<Longrightarrow> apply_with_registry cr st txs s vr = (None, s', vr') \<Longrightarrow>
     \<forall>tx \<in> set txs. cost_fits tx \<Longrightarrow> total_supply s + total_stake st vr < 2 ^ 64 \<Longrightarrow>
     total_supply s' + total_stake st vr' + sum_list (map lost txs) =
       total_supply s + total_stake st vr"
proof (induction txs arbitrary: s vr)
  case (Cons tx txs)
  obtain vr1 s1 where r: "registry_effect st tx vr = (None, vr1)" and a: "ApplyTransaction cr s tx = (None, s1)"
    and rest: "apply_with_registry cr st txs s1 vr1 = (None, s', vr')"
    using Cons.prems(3)
    by (cases "registry_effect st tx vr"; cases "fst (registry_effect st tx vr)";
        cases "ApplyTransaction cr s tx"; cases "fst (ApplyTransaction cr s tx)") auto
  have ok: "state_ok cr s1" "reg_ok st inv vr1"
    using registry_effect_ok(2) [OF Cons.prems(2), of tx] r ApplyTransaction_state_ok [OF Cons.prems(1), of tx] a by auto
  have one: "total_supply s1 + total_stake st vr1 + lost tx = total_supply s + total_stake st vr"
    using Cons.prems(4) by (intro apply_one_conserves [OF Cons.prems(1,2) _ Cons.prems(5) a r]) simp
  then have "total_supply s1 + total_stake st vr1 < 2 ^ 64" using Cons.prems(5) by linarith
  with Cons.IH [OF ok rest] Cons.prems(4) one show ?case by simp
qed simp

end

section \<open>A concrete chain\<close>

definition demo_chain :: "MemoryStore Blockchain" where
  "demo_chain = (case NewBlockchain demo_crypto MemoryStore_ops NewMemoryStore of Inr bc \<Rightarrow> bc | Inl _ \<Rightarrow> undefined)"

lemma demo_chain_facts:
  "NewBlockchain demo_crypto MemoryStore_ops NewMemoryStore = Inr demo_chain"
  "chain_ok demo_crypto MemoryStore_ops MemoryStore_wf demo_chain"
  "chain_linked demo_crypto MemoryStore_ops demo_chain" "Height demo_chain = 0"
proof -
  have "MemoryStore_wf NewMemoryStore" "store_view MemoryStore_ops NewMemoryStore tipKey = None"
    by (simp_all add: MemoryStore_wf_def NewMemoryStore_def)
  then obtain bc where "NewBlockchain demo_crypto MemoryStore_ops NewMemoryStore = Inr bc"
    "chain_ok demo_crypto MemoryStore_ops MemoryStore_wf bc" "chain_linked demo_crypto MemoryStore_ops bc"
    "bc_currentHeight bc = 0"
    by (rule memory_store.fresh_chain_ok)
  then show "NewBlockchain demo_crypto MemoryStore_ops NewMemoryStore = Inr demo_chain"
    "chain_ok demo_crypto MemoryStore_ops MemoryStore_wf demo_chain"
    "chain_linked demo_crypto MemoryStore_ops demo_chain" "Height demo_chain = 0"
    by (simp_all add: demo_chain_def Height_def)
qed

lemma demo_size: "length (Block_Encode (NewBlock \<lparr>hdr_BlockNumber = 1, hdr_PreviousHash = 126, hdr_Timestamp = 7,
   hdr_Proposer = 1, hdr_Gas = 0, hdr_TransactionRoot = 0, hdr_Hash = 126\<rparr> [])) < 2000"
  by code_simp

lemma ComputeHash_demo: "ComputeHash demo_crypto h = 126"
proof -
  have "last (print_json (header_json h)) = CHR ''}''" for h
    by (simp add: header_json_def)
  moreover have "print_json (header_json h) \<noteq> []" for h
    using print_json_start by (metis list.distinct(1))
  ultimately show ?thesis by (simp add: ComputeHash_def demo_crypto_def)
qed

lemma demo_headers: "chain_headers MemoryStore_ops demo_chain = {blk_Header (createGenesisBlock demo_crypto)}"
  using demo_chain_facts(2,4) by (auto simp: chain_headers_def Height_def GetBlockByHeight_def chain_ok_def)

lemma demo_collision_free: "collision_free demo_crypto (chain_headers MemoryStore_ops demo_chain)"
  using ComputeHash_demo [of "blk_Header (createGenesisBlock demo_crypto)"]
  by (simp add: demo_headers collision_free_def ComputeHash_bytes)

lemma demo_last:
  obtains p where "GetLastBlock MemoryStore_ops demo_chain = Inr p" "blk_Number p = 0" "blk_Hash p = 126"
proof -
  obtain p where p: "GetLastBlock MemoryStore_ops demo_chain = Inr p"
    "GetBlockByHeight MemoryStore_ops demo_chain (bc_currentHeight demo_chain) = Inr p"
    using GetLastBlock_ok [OF demo_chain_facts(2,3) demo_collision_free] by metis
  then have "p = createGenesisBlock demo_crypto"
    using demo_chain_facts(2,4) by (simp add: Height_def GetBlockByHeight_def chain_ok_def)
  then show thesis using p(1) that by (simp add: genesis_hash ComputeHash_demo)
qed

lemma block_size_ok: "n < 2000 \<Longrightarrow> \<not> (268435456 :: u64) < of_nat n"
  by (simp add: word_less_nat_alt unat_of_nat)

lemma demo_CreateBlock:
  "\<exists>b. CreateBlock demo_crypto MemoryStore_ops 7 demo_chain [] (demo_validator 1 10) = Inr b"
proof -
  obtain p where p: "GetLastBlock MemoryStore_ops demo_chain = Inr p" "blk_Number p = 0" "blk_Hash p = 126"
    by (rule demo_last)
  then show ?thesis
    using block_size_ok [OF demo_size] by (simp add: CreateBlock_def Let_def ComputeHash_demo computeTransactionRoot_def)
qed

section \<open>Properties\<close>

text \<open>
  C7: Producing a block extends the chain.  On a well-formed, hash-linked chain, a block made by
  \<^verbatim>\<open>CreateBlock\<close> and signed is accepted by \<^verbatim>\<open>AddBlock\<close>; the chain stays well-formed and linked, is one
  block higher, has the new block at its top and the same blocks below it.  (SHA-3 is assumed
  not to collide, and not to be zero, on the headers of the chain.)
\<close>

theorem produced_block_extends_chain:
  assumes "reliable_store st I" and "chain_ok cr st I bc" "chain_linked cr st bc"
    and "collision_free cr (chain_headers st bc)" and "unat (Height bc) + 1 < 2 ^ 64"
    and "CreateBlock cr st now bc txs v = Inr b"
  shows "\<exists>bc'. AddBlock st bc (Block_Sign cr b sk) = (None, bc') \<and> chain_ok cr st I bc' \<and> chain_linked cr st bc' \<and>
    Height bc' = Height bc + 1 \<and> GetBlockByHeight st bc' (Height bc') = Inr (Block_Sign cr b sk) \<and>
    (\<forall>h \<le> Height bc. GetBlockByHeight st bc' h = GetBlockByHeight st bc h)"
proof -
  obtain p where p: "GetLastBlock st bc = Inr p" "GetBlockByHeight st bc (bc_currentHeight bc) = Inr p"
    "blk_Number p = bc_currentHeight bc"
    using GetLastBlock_ok [OF assms(2-4)] .
  note hdr = CreateBlock_header [OF assms(6) p(1)]
  have sign: "blk_Header (Block_Sign cr b sk) = blk_Header b" by (rule Block_Sign_header [OF hdr(3)])
  obtain bc' where "AddBlock st bc (Block_Sign cr b sk) = (None, bc')" "chain_ok cr st I bc'" "chain_linked cr st bc'"
    "bc_currentHeight bc' = bc_currentHeight bc + 1"
    "GetBlockByHeight st bc' (bc_currentHeight bc + 1) = Inr (Block_Sign cr b sk)"
    "\<forall>h \<le> bc_currentHeight bc. GetBlockByHeight st bc' h = GetBlockByHeight st bc h"
    by (rule reliable_store.linked_extends [OF assms(1-3) p(2), of "Block_Sign cr b sk"])
      (use hdr sign p(3) assms(5) in \<open>simp_all add: Height_def\<close>)
  then show ?thesis by (intro exI [of _ bc']) (simp add: Height_def)
qed

theorem produced_block_extends_chain_witness:
  "\<exists>b bc'. CreateBlock demo_crypto MemoryStore_ops 7 demo_chain [] (demo_validator 1 10) = Inr b \<and>
     AddBlock MemoryStore_ops demo_chain (Block_Sign demo_crypto b ''key'') = (None, bc') \<and> Height bc' = 1"
proof -
  obtain b where b: "CreateBlock demo_crypto MemoryStore_ops 7 demo_chain [] (demo_validator 1 10) = Inr b"
    using demo_CreateBlock by blast
  show ?thesis
    using produced_block_extends_chain [OF memory_store.reliable_store_axioms demo_chain_facts(2,3) demo_collision_free _ b,
        of "''key''"] b by (auto simp: demo_chain_facts(4))
qed

text \<open>
  C18: A restart finds the chain again.  Opening the store of a well-formed chain with
  \<^verbatim>\<open>NewBlockchain\<close> succeeds and gives a chain with the same height and tip that answers every
  \<^verbatim>\<open>GetBlockByHeight\<close> alike; it is well-formed again.
\<close>

theorem restart_recovers_chain:
  assumes "chain_ok cr st I bc"
  shows "\<exists>bc'. NewBlockchain cr st (bc_store bc) = Inr bc' \<and> Height bc' = Height bc \<and> bc_tip bc' = bc_tip bc \<and>
    (\<forall>h. GetBlockByHeight st bc' h = GetBlockByHeight st bc h) \<and> chain_ok cr st I bc'"
proof -
  have get: "GetBlockByHeight st (bc\<lparr>bc_height := 0\<rparr>) h = GetBlockByHeight st bc h" for h
    by (simp add: GetBlockByHeight_def)
  have "chain_ok cr st I (bc\<lparr>bc_height := 0\<rparr>)" using assms by (simp add: chain_ok_def get)
  then show ?thesis
    using restart_ok [OF assms] get by (intro exI [of _ "bc\<lparr>bc_height := 0\<rparr>"]) (simp add: Height_def)
qed

theorem restart_recovers_chain_witness:
  "\<exists>bc'. NewBlockchain demo_crypto MemoryStore_ops (bc_store demo_chain) = Inr bc' \<and> Height bc' = 0 \<and>
     bc_tip bc' = bc_tip demo_chain"
  using restart_recovers_chain [OF demo_chain_facts(2)] by (auto simp: demo_chain_facts(4))

text \<open>
  C15: Applying a block with the registry.  When \<^verbatim>\<open>ApplyBlockWithRegistry\<close> returns no error, the
  account state is exactly the one \<^verbatim>\<open>ApplyBlock\<close> computes, the registry went through the
  registrations, participations and delegations of the block in order, and both stay
  well-formed, which they also do when it returns an error.
\<close>

theorem ApplyBlockWithRegistry_refines:
  assumes "reliable_store st I" "state_ok cr s" "reg_ok st I vr"
    and "ApplyBlockWithRegistry cr st b s vr = (e, s', vr')"
  shows "state_ok cr s' \<and> reg_ok st I vr' \<and>
    (e = None \<longrightarrow> ApplyBlock cr s b = (None, s') \<and>
       reg_view st vr' = fold reg_step (blk_Transactions b) (reg_view st vr))"
  using reliable_store.apply_with_registry_ok [OF assms(1-3), of "blk_Transactions b" e s' vr'] assms(4)
  by (simp add: ApplyBlockWithRegistry_def ApplyBlock_def)

theorem ApplyBlockWithRegistry_refines_witness:
  "state_ok demo_crypto (fst (snd (ApplyBlockWithRegistry demo_crypto MemoryStore_ops (demo_block [demo_tx])
     demo_state (demo_registry []))))"
  using ApplyBlockWithRegistry_refines [OF memory_store.reliable_store_axioms demo_state_ok demo_registry_facts(1),
    of "demo_block [demo_tx]" "[]"] by (metis prod.collapse)

text \<open>
  C2: Where money goes.  If balances and stakes add up to less than 2 to the 64 and value plus fee of
  no transaction of the block wraps around, then a block that applies without error lowers balances plus
  stakes by exactly what its transactions lose: the fees, the values of participations and the
  values of transfers to oneself.  Everything else only moves between accounts and stakes.
\<close>

theorem ApplyBlockWithRegistry_conserves:
  assumes "reliable_store st I" "state_ok cr s" "reg_ok st I vr"
    and "ApplyBlockWithRegistry cr st b s vr = (None, s', vr')"
    and "\<forall>tx \<in> set (blk_Transactions b). cost_fits tx"
    and "total_supply s + total_stake st vr < 2 ^ 64"
  shows "total_supply s' + total_stake st vr' + sum_list (map lost (blk_Transactions b)) =
    total_supply s + total_stake st vr"
  using reliable_store.apply_with_registry_conserves [OF assms(1-3) _ assms(5,6)] assms(4)
  by (simp add: ApplyBlockWithRegistry_def)

lemma demo_supply: "total_supply demo_state = 100"
proof -
  have "total_supply demo_state = (\<Sum>a \<in> (UNIV :: address set). if a = 1 then 100 else 0)"
    unfolding total_supply_def by (rule sum.cong) (simp_all add: acct_demo_state new_account_def)
  then show ?thesis by simp
qed

lemma demo_stake: "total_stake MemoryStore_ops (demo_registry []) = 0"
  by (simp add: total_stake_def stake_sum_def demo_registry_facts(2) stake_of_def)

theorem ApplyBlockWithRegistry_conserves_witness:
  "\<exists>s' vr'. ApplyBlockWithRegistry demo_crypto MemoryStore_ops (demo_block [demo_tx\<lparr>tx_Type := ''register_validator''\<rparr>])
       demo_state (demo_registry []) = (None, s', vr') \<and>
     total_supply s' + total_stake MemoryStore_ops vr' + 5 = 100"
proof -
  let ?tx = "demo_tx\<lparr>tx_Type := ''register_validator''\<rparr>" and ?b = "demo_block [demo_tx\<lparr>tx_Type := ''register_validator''\<rparr>]"
  have "ledger_step (acct demo_state) ?tx \<noteq> Inl e" for e
    by (simp add: acct_demo_state ledger_step_def demo_tx_def Let_def check_type_def word_less_nat_alt)
  then obtain L where L: "ledger_step (acct demo_state) ?tx = Inr L"
    by (cases "ledger_step (acct demo_state) ?tx") auto
  obtain s' where s': "ApplyTransaction demo_crypto demo_state ?tx = (None, s')"
    using ApplyTransaction_ok [OF demo_state_ok L] by blast
  have "fst (registry_effect MemoryStore_ops ?tx (demo_registry [])) = None"
    by (subst memory_store.registry_effect_ok(1) [OF demo_registry_facts(1)]) simp
  then obtain vr' where vr': "registry_effect MemoryStore_ops ?tx (demo_registry []) = (None, vr')"
    by (cases "registry_effect MemoryStore_ops ?tx (demo_registry [])") simp
  have run: "ApplyBlockWithRegistry demo_crypto MemoryStore_ops ?b demo_state (demo_registry []) = (None, s', vr')"
    by (simp add: ApplyBlockWithRegistry_def demo_block_def NewBlock_def vr' s')
  have "total_supply s' + total_stake MemoryStore_ops vr' + 5 = 100"
    using ApplyBlockWithRegistry_conserves [OF memory_store.reliable_store_axioms demo_state_ok demo_registry_facts(1) run]
    by (simp add: demo_supply demo_stake demo_block_def NewBlock_def cost_fits_def lost_def demo_tx_def)
  with run show ?thesis by blast
qed

text \<open>
  The registry is changed before the transaction is checked.  A \<open>register_validator\<close>
  transaction that \<^verbatim>\<open>ApplyTransaction\<close> rejects, for whatever reason, makes the block fail and
  leaves the accounts alone, but its sender is registered with the stake it never paid.
\<close>

theorem rejected_registration_still_stakes:
  assumes "reliable_store st I" "state_ok cr s" "reg_ok st I vr"
    and "tx_Type tx = ''register_validator''" and "GetValidator st vr (tx_From tx) = Inr None"
    and "fst (ApplyTransaction cr s tx) = Some err" and "blk_Transactions b = [tx]"
  shows "\<exists>vr'. ApplyBlockWithRegistry cr st b s vr = (Some (ErrApplyTransaction (tx_Hash tx) err), s, vr') \<and>
    GetValidator st vr' (tx_From tx) = Inr (Some (new_validator (tx_From tx) (tx_Value tx)))"
proof -
  let ?vr = "snd (registry_effect st tx vr)"
  note eff = reliable_store.registry_effect_ok [OF assms(1,3), of tx]
  have none: "reg_view st vr (tx_From tx) = None"
    using assms(5) reliable_store.GetValidator_view [OF assms(1,3)] by simp
  have "fst (registry_effect st tx vr) = None" by (subst eff(1)) (simp add: assms(4))
  then obtain vr1 where e: "registry_effect st tx vr = (None, vr1)" by (cases "registry_effect st tx vr") simp
  have "snd (ApplyTransaction cr s tx) = s"
    using ApplyTransaction_refines [OF assms(2), of tx] assms(6)
    by (cases "ledger_step (acct s) tx") auto
  then have "ApplyBlockWithRegistry cr st b s vr = (Some (ErrApplyTransaction (tx_Hash tx) err), s, ?vr)"
    using assms(6,7) by (cases "ApplyTransaction cr s tx") (simp add: ApplyBlockWithRegistry_def e)
  moreover have "reg_view st ?vr (tx_From tx) = Some (new_validator (tx_From tx) (tx_Value tx))"
    using eff(3) assms(4) none by (simp add: reg_step_def)
  then have "GetValidator st ?vr (tx_From tx) = Inr (Some (new_validator (tx_From tx) (tx_Value tx)))"
    using reliable_store.GetValidator_view [OF assms(1) eff(2)] by simp
  ultimately show ?thesis by blast
qed

theorem rejected_registration_still_stakes_witness:
  "\<exists>vr'. ApplyBlockWithRegistry demo_crypto MemoryStore_ops
       (demo_block [demo_tx\<lparr>tx_Type := ''register_validator'', tx_Value := 1000000\<rparr>]) demo_state (demo_registry []) =
       (Some (ErrApplyTransaction 0 ErrInsufficientBalance), demo_state, vr') \<and>
     GetValidator MemoryStore_ops vr' 1 = Inr (Some (new_validator 1 1000000))"
proof -
  let ?tx = "demo_tx\<lparr>tx_Type := ''register_validator'', tx_Value := 1000000\<rparr>"
  have "ledger_step (acct demo_state) ?tx = Inl ErrInsufficientBalance"
    by (simp add: acct_demo_state ledger_step_def demo_tx_def Let_def word_less_nat_alt)
  from ApplyTransaction_error [OF demo_state_ok this]
  have "fst (ApplyTransaction demo_crypto demo_state ?tx) = Some ErrInsufficientBalance" by simp
  moreover have "GetValidator MemoryStore_ops (demo_registry []) 1 = Inr None"
    by (simp add: memory_store.GetValidator_view [OF demo_registry_facts(1)] demo_registry_facts(2))
  ultimately show ?thesis
    using rejected_registration_still_stakes [OF memory_store.reliable_store_axioms demo_state_ok demo_registry_facts(1),
        of ?tx "[]" ErrInsufficientBalance "demo_block [?tx]"]
    by (simp add: demo_block_def NewBlock_def demo_tx_def)
qed

end
