(* ===== verification/Slice_Sort.thy ===== *)
theory Slice_Sort
  imports Prelude
begin

text \<open>
  \<^verbatim>\<open>sort.Slice\<close>: sorting a slice by a comparison function.  The result of \<open>sort_slice\<close> is one
  sorted permutation of its input; where the comparison leaves no ties between the elements,
  \<open>sorted_unique\<close> shows that it is the only one, so any correct sort gives the same slice.
  The locale \<open>comparator\<close> is the contract a comparison function has to meet (a strict weak
  order), \<open>keyed_comparator\<close> adds that ties share a key.
\<close>

fun insert_by :: "('a \<Rightarrow> 'a \<Rightarrow> bool) \<Rightarrow> 'a \<Rightarrow> 'a list \<Rightarrow> 'a list" where
  "insert_by lt x [] = [x]"
| "insert_by lt x (y # ys) = (if lt y x then y # insert_by lt x ys else x # y # ys)"

definition sort_slice :: "('a \<Rightarrow> 'a \<Rightarrow> bool) \<Rightarrow> 'a list \<Rightarrow> 'a list" where
  "sort_slice lt xs = foldr (insert_by lt) xs []"

lemma mset_insert_by [simp]: "mset (insert_by lt x ys) = add_mset x (mset ys)"
  by (induction ys) auto

lemma mset_sort_slice [simp]: "mset (sort_slice lt xs) = mset xs"
  by (induction xs) (auto simp: sort_slice_def)

lemma set_insert_by [simp]: "set (insert_by lt x ys) = insert x (set ys)"
  by (induction ys) auto

lemma set_sort_slice [simp]: "set (sort_slice lt xs) = set xs"
  using mset_sort_slice by (metis set_mset_mset)

lemma length_sort_slice [simp]: "length (sort_slice lt xs) = length xs"
  using mset_sort_slice by (metis size_mset)

lemma distinct_map_sort_slice [simp]: "distinct (map f (sort_slice lt xs)) = distinct (map f xs)"
  by (metis mset_map mset_sort_slice mset_eq_imp_distinct_iff)

locale comparator =
  fixes lt :: "'a \<Rightarrow> 'a \<Rightarrow> bool"
  assumes lt_asym: "lt x y \<Longrightarrow> \<not> lt y x"
    and lt_negtrans: "\<not> lt y x \<Longrightarrow> \<not> lt z y \<Longrightarrow> \<not> lt z x"
begin

abbreviation sorted_by :: "'a list \<Rightarrow> bool" where
  "sorted_by \<equiv> sorted_wrt (\<lambda>x y. \<not> lt y x)"

lemma sorted_insert_by: "sorted_by ys \<Longrightarrow> sorted_by (insert_by lt x ys)"
  by (induction ys) (auto dest: lt_asym lt_negtrans)

lemma sorted_sort_slice: "sorted_by (sort_slice lt xs)"
  by (induction xs) (auto simp: sort_slice_def sorted_insert_by)

lemma take_best:
  assumes "x \<in> set (take n (sort_slice lt xs))" "y \<in> set (drop n (sort_slice lt xs))"
  shows "\<not> lt y x"
  using sorted_sort_slice [of xs] assms sorted_wrt_append
  by (metis append_take_drop_id)

end

locale keyed_comparator = comparator +
  fixes key :: "'a \<Rightarrow> 'k"
  assumes tie_key: "\<not> lt x y \<Longrightarrow> \<not> lt y x \<Longrightarrow> key x = key y"
begin

lemma sorted_unique:
  "sorted_by xs \<Longrightarrow> sorted_by ys \<Longrightarrow> mset xs = mset ys \<Longrightarrow> distinct (map key xs) \<Longrightarrow> xs = ys"
proof (induction xs arbitrary: ys)
  case (Cons x xs)
  then obtain y zs where ys: "ys = y # zs" by (cases ys) auto
  have "y \<in> set (x # xs)" "x \<in> set ys" using Cons.prems(3) ys by (metis list.set_intros(1) set_mset_mset)+
  have "x = y"
  proof (rule ccontr)
    assume ne: "x \<noteq> y"
    then have "\<not> lt y x" using Cons.prems(1) \<open>y \<in> set (x # xs)\<close> by simp
    moreover have "\<not> lt x y" using Cons.prems(2) \<open>x \<in> set ys\<close> ne ys by simp
    ultimately have "key x = key y" using tie_key by blast
    then show False using Cons.prems(4) \<open>y \<in> set (x # xs)\<close> ne by (auto simp: image_iff)
  qed
  then show ?case using Cons.IH [of zs] Cons.prems ys by simp
qed simp

text \<open>The order of the input does not matter when no two elements share a key.\<close>

lemma sort_slice_perm:
  assumes "mset xs = mset ys" and "distinct (map key xs)"
  shows "sort_slice lt xs = sort_slice lt ys"
  using assms by (intro sorted_unique sorted_sort_slice) simp_all

end

end
