(* ===== verification/Committee.thy ===== *)
theory Committee
  imports Validator_Registry Slice_Sort
begin

text \<open>
  \<^verbatim>\<open>committee.go\<close>: the committee of an epoch (the participating validators of highest weight,
  ties broken by address) and the rotation of proposers over the heights of the epoch.

  \<^verbatim>\<open>rand.New(rand.NewSource(0)).Perm\<close> is the parameter \<open>perm\<close>, of which only its documented
  result is used: \<open>perm n\<close> is a permutation of \<open>[0..<n]\<close>.  The heights are 64-bit words and
  wrap as in Go; the offset \<^verbatim>\<open>int(block-epochStart)\<close> is below the epoch length, 270 in the
  program, so the conversion to \<open>int\<close> is exact.
\<close>

section \<open>Committee selection\<close>

record CommitteeMember =
  cm_Validator :: Validator
  cm_Weight :: u64

definition weight_of :: "Validator \<Rightarrow> u64" where
  "weight_of v = val_Stake v + val_DelegatedStake v + val_ComputeReputation v"

definition member_less :: "CommitteeMember \<Rightarrow> CommitteeMember \<Rightarrow> bool" where
  "member_less a b =
     (if cm_Weight a = cm_Weight b
      then bytes_less (address_bytes (val_Address (cm_Validator a))) (address_bytes (val_Address (cm_Validator b)))
      else cm_Weight b < cm_Weight a)"

definition select_members :: "Validator list \<Rightarrow> nat \<Rightarrow> Validator list" where
  "select_members validators n =
     (let participating = filter val_Participating validators;
          members = map (\<lambda>v. \<lparr>cm_Validator = v, cm_Weight = weight_of v\<rparr>) participating
      in map cm_Validator (take n (sort_slice member_less members)))"

definition SelectCommittee :: "'s Storage \<Rightarrow> 's ValidatorRegistry \<Rightarrow> nat \<Rightarrow> gerror + Validator list" where
  "SelectCommittee st vr n =
     (case GetAllValidators st vr of
        Inl err \<Rightarrow> Inl err
      | Inr validators \<Rightarrow>
          if validators = [] then Inr []
          else if filter val_Participating validators = [] then Inr []
          else Inr (select_members validators n))"

section \<open>Proposer rotation\<close>

record ProposerSelector =
  ps_Committee :: "Validator list"
  ps_Slots :: "(u64, Validator) gomap"
  ps_EpochStart :: u64
  ps_EpochLength :: u64

text \<open>The inner loop: at most \<open>n\<close> more slots for one validator, below \<open>limit\<close>.\<close>

fun slot_run :: "nat \<Rightarrow> Validator \<Rightarrow> u64 \<Rightarrow> (u64, Validator) gomap \<times> u64 \<Rightarrow> (u64, Validator) gomap \<times> u64" where
  "slot_run 0 v limit (slots, block) = (slots, block)"
| "slot_run (Suc n) v limit (slots, block) =
     (if block < limit then slot_run n v limit (go_set slots block v, block + 1) else (slots, block))"

text \<open>The leftover loop.\<close>

function leftover_run ::
  "Validator list \<Rightarrow> u64 \<Rightarrow> u64 \<Rightarrow> (u64, Validator) gomap \<times> u64 \<Rightarrow> (u64, Validator) gomap \<times> u64" where
  "leftover_run committee epochStart limit (slots, block) =
     (if block < limit then
        leftover_run committee epochStart limit
          (go_set slots block (committee ! (unat (block - epochStart) mod length committee)), block + 1)
      else (slots, block))"
  by pat_completeness auto
termination
proof (relation "measure (\<lambda>(committee, epochStart, limit, slots, block). unat limit - unat block)", goal_cases)
  case (2 committee epochStart limit slots block)
  then show ?case using unat_Suc_less [of block limit] by (simp add: word_less_nat_alt)
qed simp

declare leftover_run.simps [simp del]

definition blocksPerValidator :: nat where
  "blocksPerValidator = 9"

definition NewProposerSelectorWithRotation ::
  "(nat \<Rightarrow> nat list) \<Rightarrow> Validator list \<Rightarrow> u64 \<Rightarrow> u64 \<Rightarrow> ProposerSelector" where
  "NewProposerSelectorWithRotation perm committee epochStart epochLength =
     (if committee = [] \<or> epochLength = 0 then
        \<lparr>ps_Committee = committee, ps_Slots = [], ps_EpochStart = epochStart, ps_EpochLength = epochLength\<rparr>
      else
        (let limit = epochStart + epochLength;
             rotated = foldl (\<lambda>s idx. slot_run blocksPerValidator (committee ! idx) limit s) ([], epochStart)
                         (perm (length committee));
             (slots, block) = leftover_run committee epochStart limit rotated
         in \<lparr>ps_Committee = committee, ps_Slots = slots, ps_EpochStart = epochStart,
              ps_EpochLength = epochLength\<rparr>))"

definition ProposerForBlock :: "ProposerSelector \<Rightarrow> u64 \<Rightarrow> Validator option" where
  "ProposerForBlock ps blockHeight = go_get (ps_Slots ps) blockHeight"

section \<open>The committee is the top of a strict order\<close>

lemma member_less_iff:
  "member_less a b \<longleftrightarrow> cm_Weight b < cm_Weight a \<or>
     cm_Weight a = cm_Weight b \<and> val_Address (cm_Validator a) < val_Address (cm_Validator b)"
  by (auto simp: member_less_def bytes_less_address)

interpretation members: keyed_comparator member_less "\<lambda>m. val_Address (cm_Validator m)"
  by unfold_locales (auto simp: member_less_iff)

text \<open>\<open>heavier v w\<close>: \<open>v\<close> comes before \<open>w\<close> in the election.\<close>

definition heavier :: "Validator \<Rightarrow> Validator \<Rightarrow> bool" where
  "heavier v w \<longleftrightarrow> weight_of w < weight_of v \<or> weight_of v = weight_of w \<and> val_Address v < val_Address w"

abbreviation members_of :: "Validator list \<Rightarrow> CommitteeMember list" where
  "members_of vs \<equiv> map (\<lambda>v. \<lparr>cm_Validator = v, cm_Weight = weight_of v\<rparr>) (filter val_Participating vs)"

lemma select_members_alt:
  "select_members vs n = take n (map cm_Validator (sort_slice member_less (members_of vs)))"
  by (simp add: select_members_def Let_def take_map)

lemma set_map_cm_Validator:
  "set (map cm_Validator (sort_slice member_less (members_of vs))) = {v \<in> set vs. val_Participating v}"
  by (auto simp: image_iff)

lemma member_weight:
  "m \<in> set (sort_slice member_less (members_of vs)) \<Longrightarrow> cm_Weight m = weight_of (cm_Validator m)"
  by auto

lemma distinct_members:
  assumes "distinct (map val_Address vs)"
  shows "distinct (map (\<lambda>m. val_Address (cm_Validator m)) (members_of vs))"
  using assms by (simp add: comp_def distinct_map_filter)

lemma select_members_length:
  "length (select_members vs n) = min n (length (filter val_Participating vs))"
  by (simp add: select_members_alt min.commute)

lemma select_members_subset: "set (select_members vs n) \<subseteq> {v \<in> set vs. val_Participating v}"
  using set_take_subset set_map_cm_Validator by (metis select_members_alt)

lemma select_members_distinct:
  assumes "distinct (map val_Address vs)" shows "distinct (map val_Address (select_members vs n))"
proof -
  have "distinct (map val_Address (map cm_Validator (sort_slice member_less (members_of vs))))"
    using distinct_members [OF assms] by (simp add: comp_def)
  then show ?thesis unfolding select_members_alt by (metis distinct_take take_map)
qed

text \<open>Every member is heavier than every participating validator left out.\<close>

lemma select_members_best:
  assumes d: "distinct (map val_Address vs)" and v: "v \<in> set (select_members vs n)"
    and w: "w \<in> set vs" "val_Participating w" "w \<notin> set (select_members vs n)"
  shows "heavier v w"
proof -
  let ?ms = "sort_slice member_less (members_of vs)"
  obtain a where a: "a \<in> set (take n ?ms)" "v = cm_Validator a"
    using v by (auto simp: select_members_alt take_map)
  have "w \<in> set (map cm_Validator ?ms)" using w(1,2) set_map_cm_Validator by blast
  then obtain b where b: "b \<in> set ?ms" "w = cm_Validator b" by auto
  have "b \<notin> set (take n ?ms)" using w(3) b(2) by (auto simp: select_members_alt take_map)
  then have "b \<in> set (drop n ?ms)" using b(1) by (metis append_take_drop_id Un_iff set_append)
  then have "\<not> member_less b a" using members.take_best a(1) by blast
  moreover have "cm_Weight a = weight_of v" "cm_Weight b = weight_of w"
    using member_weight a b(1,2) in_set_takeD by fast+
  moreover have "val_Address v \<noteq> val_Address w"
    using d select_members_subset [of vs n] v w by (metis (mono_tags) distinct_map inj_onD mem_Collect_eq subsetD)
  ultimately show ?thesis by (auto simp: member_less_iff heavier_def a(2) b(2))
qed

lemma select_members_perm:
  assumes "mset vs = mset ws" "distinct (map val_Address vs)"
  shows "select_members vs n = select_members ws n"
proof -
  have "mset (members_of vs) = mset (members_of ws)" using assms(1) by simp
  then show ?thesis
    unfolding select_members_alt using members.sort_slice_perm [OF _ distinct_members [OF assms(2)]] by metis
qed

lemma SelectCommittee_members:
  "SelectCommittee st vr n = map_sum id (\<lambda>vs. select_members vs n) (GetAllValidators st vr)"
proof (cases "GetAllValidators st vr")
  case (Inr vs)
  then show ?thesis
    by (auto simp: SelectCommittee_def select_members_def sort_slice_def)
qed (simp add: SelectCommittee_def)

section \<open>The rotation assigns one proposer to every height of the epoch\<close>

text \<open>
  \<open>assigned start limit vs s\<close>: the map holds exactly the heights from \<open>start\<close> on, assigned to the
  validators \<open>vs\<close> in order, and the next height is the one after them.
\<close>

definition assigned :: "u64 \<Rightarrow> u64 \<Rightarrow> Validator list \<Rightarrow> (u64, Validator) gomap \<times> u64 \<Rightarrow> bool" where
  "assigned start limit vs s \<longleftrightarrow>
     unat (snd s) = unat start + length vs \<and> unat start + length vs \<le> unat limit \<and>
     (\<forall>h. go_get (fst s) h =
        (if unat start \<le> unat h \<and> unat h < unat start + length vs then Some (vs ! (unat h - unat start)) else None))"

lemma assigned_Nil: "start \<le> limit \<Longrightarrow> assigned start limit [] ([], start)"
  by (auto simp: assigned_def word_le_nat_alt)

lemma assigned_step:
  assumes "assigned start limit vs (slots, block)" and "block < limit"
  shows "assigned start limit (vs @ [v]) (go_set slots block v, block + 1)"
proof -
  have "h = block \<longleftrightarrow> unat h = unat block" for h by (simp add: word_unat_eq_iff)
  with assms show ?thesis
    by (auto simp: assigned_def unat_Suc_less nth_append word_less_nat_alt)
qed

lemma assigned_take: "assigned start limit vs s \<Longrightarrow> take (unat limit - unat start) vs = vs"
  by (auto simp: assigned_def)

lemma assigned_full: "assigned start limit vs (slots, block) \<Longrightarrow> \<not> block < limit \<Longrightarrow> unat limit - unat start = length vs"
  unfolding assigned_def word_less_nat_alt by (simp, linarith)

lemma slot_run_assigned:
  "assigned start limit vs s \<Longrightarrow>
     assigned start limit (take (unat limit - unat start) (vs @ replicate n v)) (slot_run n v limit s)"
proof (induction n arbitrary: vs s)
  case 0
  then show ?case by (cases s) (simp add: assigned_take)
next
  case (Suc n)
  obtain slots block where s: "s = (slots, block)" by (cases s)
  show ?case
  proof (cases "block < limit")
    case True
    then show ?thesis
      using Suc.IH [OF assigned_step [OF Suc.prems [unfolded s] True, of v]] by (simp add: s)
  next
    case False
    with Suc.prems have "unat limit - unat start = length vs" by (simp add: s assigned_full)
    with False Suc.prems show ?thesis by (simp add: s)
  qed
qed

lemma rotate_assigned:
  "assigned start limit vs s \<Longrightarrow>
     assigned start limit (take (unat limit - unat start) (vs @ concat (map (\<lambda>i. replicate n (f i)) is)))
       (foldl (\<lambda>s i. slot_run n (f i) limit s) s is)"
proof (induction "is" arbitrary: vs s)
  case Nil
  then show ?case by (cases s) (simp add: assigned_take)
next
  case (Cons i "is")
  let ?L = "unat limit - unat start"
  have "take ?L (take ?L (vs @ replicate n (f i)) @ xs) = take ?L (vs @ replicate n (f i) @ xs)" for xs
    by (cases "?L \<le> length vs + n") (simp_all add: take_append)
  then show ?case using Cons.IH [OF slot_run_assigned [OF Cons.prems, of n "f i"]] by simp
qed

lemma leftover_assigned:
  "assigned start limit vs s \<Longrightarrow>
     assigned start limit (vs @ map (\<lambda>k. c ! (k mod length c)) [length vs..<unat limit - unat start])
       (leftover_run c start limit s)"
proof (induction "unat limit - unat (snd s)" arbitrary: vs s)
  case 0
  then have "\<not> snd s < limit" by (simp add: word_less_nat_alt)
  with 0 show ?case by (cases s) (simp add: leftover_run.simps assigned_full)
next
  case (Suc m)
  obtain slots block where s: "s = (slots, block)" by (cases s)
  have lt: "block < limit" using Suc.hyps(2) by (simp add: s word_less_nat_alt)
  have ofs: "unat (block - start) = length vs"
    using Suc.prems by (subst unat_sub_no_wrap) (simp_all add: s assigned_def word_le_nat_alt)
  let ?v = "c ! (length vs mod length c)"
  have len: "length vs < unat limit - unat start"
    using Suc.prems lt by (simp add: s assigned_def word_less_nat_alt)
  have IH: "assigned start limit ((vs @ [?v]) @ map (\<lambda>k. c ! (k mod length c)) [length (vs @ [?v])..<unat limit - unat start])
      (leftover_run c start limit (go_set slots block ?v, block + 1))"
    using Suc.hyps(2) lt by (intro Suc.hyps(1) assigned_step [OF Suc.prems [unfolded s] lt]) (simp add: s unat_Suc_less)
  moreover have "leftover_run c start limit s = leftover_run c start limit (go_set slots block ?v, block + 1)"
    by (subst s, subst leftover_run.simps) (simp add: lt ofs)
  ultimately show ?case using len by (simp add: upt_conv_Cons)
qed

lemma concat_replicate_nth:
  "k < n * length is \<Longrightarrow> concat (map (\<lambda>i. replicate n (f i)) is) ! k = f (is ! (k div n))"
proof (induction "is" arbitrary: k)
  case (Cons i "is")
  show ?case
  proof (cases "k < n")
    case False
    then have "k - n < n * length is" using Cons.prems by auto
    moreover have "k div n = Suc ((k - n) div n)"
      using False Cons.prems by (cases "n = 0") (simp_all add: le_div_geq)
    ultimately show ?thesis using False Cons.IH [of "k - n"] by (simp add: nth_append)
  qed (simp add: nth_append)
qed simp

lemma length_concat_replicate: "length (concat (map (\<lambda>i. replicate n (f i)) is)) = n * length is"
  by (induction "is") auto

text \<open>The proposer of the height at offset \<open>k\<close> of an epoch, in closed form.\<close>

definition rotation :: "nat list \<Rightarrow> Validator list \<Rightarrow> nat \<Rightarrow> Validator" where
  "rotation indices committee k =
     (if k < 9 * length committee then committee ! (indices ! (k div 9)) else committee ! (k mod length committee))"

lemma rotation_slots:
  assumes c: "committee \<noteq> []" and len: "unat start + unat len < 2 ^ 64"
    and perm: "length (perm (length committee)) = length committee"
  shows "ProposerForBlock (NewProposerSelectorWithRotation perm committee start len) h =
    (if unat start \<le> unat h \<and> unat h < unat start + unat len
     then Some (rotation (perm (length committee)) committee (unat h - unat start)) else None)"
proof (cases "len = 0")
  case True
  then show ?thesis by (simp add: NewProposerSelectorWithRotation_def ProposerForBlock_def)
next
  case False
  let ?limit = "start + len" and ?is = "perm (length committee)"
  let ?rot = "concat (map (\<lambda>i. replicate 9 (committee ! i)) ?is)"
  let ?s = "foldl (\<lambda>s idx. slot_run 9 (committee ! idx) ?limit s) ([], start) ?is"
  have lim: "unat ?limit = unat start + unat len" using len by (simp add: unat_add_no_wrap)
  then have "start \<le> ?limit" by (simp add: word_le_nat_alt)
  from rotate_assigned [OF assigned_Nil [OF this], of 9 "\<lambda>i. committee ! i" ?is]
  have "assigned start ?limit (take (unat len) ?rot) ?s" by (simp add: lim)
  from leftover_assigned [OF this, of committee]
  have fin: "assigned start ?limit (take (unat len) ?rot @
      map (\<lambda>k. committee ! (k mod length committee)) [length (take (unat len) ?rot)..<unat len])
      (leftover_run committee start ?limit ?s)" (is "assigned _ _ ?vs _") by (simp add: lim)
  have rl: "length ?rot = 9 * length committee" by (simp only: length_concat_replicate perm)
  have vs: "length ?vs = unat len" "k < unat len \<Longrightarrow> ?vs ! k = rotation ?is committee k" for k
  proof -
    show "length ?vs = unat len" by simp
    assume k: "k < unat len"
    show "?vs ! k = rotation ?is committee k"
    proof (cases "k < 9 * length committee")
      case True
      then have "?rot ! k = committee ! (?is ! (k div 9))"
        by (intro concat_replicate_nth) (simp add: perm)
      with True k show ?thesis by (simp add: nth_append rl rotation_def)
    next
      case nk: False
      then have "length (take (unat len) ?rot) = 9 * length committee" using k rl by simp
      with nk k show ?thesis by (simp add: nth_append rotation_def)
    qed
  qed
  have "ProposerForBlock (NewProposerSelectorWithRotation perm committee start len) h =
      go_get (fst (leftover_run committee start ?limit ?s)) h"
    using c False
    by (simp add: NewProposerSelectorWithRotation_def ProposerForBlock_def Let_def blocksPerValidator_def split: prod.split)
  with fin vs show ?thesis by (auto simp: assigned_def)
qed

lemma rotation_member:
  assumes "committee \<noteq> []" and "mset indices = mset [0..<length committee]"
  shows "rotation indices committee k \<in> set committee"
proof -
  have idx: "set indices = {0..<length committee}" "length indices = length committee"
    using arg_cong [OF assms(2), of set_mset] arg_cong [OF assms(2), of size] by (simp_all)
  show ?thesis
  proof (cases "k < 9 * length committee")
    case True
    then have "k div 9 < length indices" using idx(2) by linarith
    then have "indices ! (k div 9) < length committee" using idx(1) nth_mem by fastforce
    then show ?thesis using True by (simp add: rotation_def)
  qed (simp add: rotation_def assms(1))
qed

lemma rotation_block:
  assumes d: "distinct committee" and p: "mset indices = mset [0..<length committee]"
    and v: "v \<in> set committee"
  shows "\<exists>j < length committee. \<forall>k < 9 * length committee.
    rotation indices committee k = v \<longleftrightarrow> 9 * j \<le> k \<and> k < 9 * j + 9"
proof -
  have idx: "set indices = {0..<length committee}" "length indices = length committee" "distinct indices"
    using arg_cong [OF p, of set_mset] arg_cong [OF p, of size] mset_eq_imp_distinct_iff [OF p] by (simp_all)
  obtain i where i: "i < length committee" "committee ! i = v" using v by (auto simp: in_set_conv_nth)
  then obtain j where j: "j < length committee" "indices ! j = i"
    using idx(1,2) by (metis atLeastLessThan_iff in_set_conv_nth zero_le)
  have "rotation indices committee k = v \<longleftrightarrow> k div 9 = j" if k: "k < 9 * length committee" for k
  proof -
    have kd: "k div 9 < length indices" using k idx(2) by linarith
    then have "indices ! (k div 9) < length committee" using idx(1) nth_mem by fastforce
    then have "committee ! (indices ! (k div 9)) = v \<longleftrightarrow> indices ! (k div 9) = i"
      using i d by (metis nth_eq_iff_index_eq)
    also have "\<dots> \<longleftrightarrow> k div 9 = j" using j kd idx(2,3) by (metis nth_eq_iff_index_eq)
    finally show ?thesis using k by (simp add: rotation_def)
  qed
  moreover have "k div 9 = j \<longleftrightarrow> 9 * j \<le> k \<and> k < 9 * j + 9" for k by linarith
  ultimately show ?thesis using j(1) by blast
qed

section \<open>Properties\<close>

text \<open>
  C12: The committee is the heaviest participating validators.  In a well-formed registry
  \<^verbatim>\<open>SelectCommittee(n)\<close> returns registered, participating validators with distinct addresses, as
  many as there are up to \<open>n\<close>, and each of them comes before every participating validator left
  out: it has a larger weight, or the same weight and a smaller address.
\<close>

theorem committee_elects_heaviest:
  assumes "reliable_store st I" and "reg_ok st I vr"
  shows "\<exists>c. SelectCommittee st vr n = Inr c \<and> distinct (map val_Address c) \<and>
    length c = min n (card {v \<in> ran (reg_view st vr). val_Participating v}) \<and>
    set c \<subseteq> {v \<in> ran (reg_view st vr). val_Participating v} \<and>
    (\<forall>v \<in> set c. \<forall>w \<in> ran (reg_view st vr). val_Participating w \<and> w \<notin> set c \<longrightarrow> heavier v w)"
proof -
  obtain vs where vs: "GetAllValidators st vr = Inr vs" "distinct (map val_Address vs)" "set vs = ran (reg_view st vr)"
    using reliable_store.GetAllValidators_ok [OF assms] .
  have "card {v \<in> set vs. val_Participating v} = length (filter val_Participating vs)"
    using vs(2) by (metis distinct_card distinct_filter distinct_map set_filter)
  then show ?thesis
    using vs select_members_distinct [OF vs(2), of n] select_members_length [of vs n]
      select_members_subset [of vs n] select_members_best [OF vs(2), of _ n]
    by (intro exI [of _ "select_members vs n"]) (auto simp: SelectCommittee_members)
qed

theorem committee_elects_heaviest_witness:
  "\<exists>c. SelectCommittee MemoryStore_ops (demo_registry [demo_validator 1 10, demo_validator 2 30, demo_validator 3 20]) 2 = Inr c \<and>
     length c = 2 \<and> demo_validator 1 10 \<notin> set c"
proof -
  let ?vs = "[demo_validator 1 10, demo_validator 2 30, demo_validator 3 20]"
  let ?vr = "demo_registry ?vs"
  have view: "reg_view MemoryStore_ops ?vr =
      [1 \<mapsto> demo_validator 1 10, 2 \<mapsto> demo_validator 2 30, 3 \<mapsto> demo_validator 3 20]"
    by (simp add: demo_registry_facts(2) fun_eq_iff)
  then have ran: "ran (reg_view MemoryStore_ops ?vr) = set ?vs" by (auto simp: view)
  have part: "{v \<in> set ?vs. val_Participating v} = set ?vs" by auto
  have card: "card (set ?vs) = 3" by simp
  obtain c where c: "SelectCommittee MemoryStore_ops ?vr 2 = Inr c" "length c = 2"
    "\<forall>v \<in> set c. \<forall>w \<in> set ?vs. val_Participating w \<and> w \<notin> set c \<longrightarrow> heavier v w"
    using committee_elects_heaviest [OF memory_store.reliable_store_axioms demo_registry_facts(1), of ?vs 2]
    unfolding ran part card by force
  have "\<not> demo_validator 1 10 \<in> set c"
  proof
    assume light: "demo_validator 1 10 \<in> set c"
    have "\<not> heavier (demo_validator 1 10) (demo_validator 2 30)" "\<not> heavier (demo_validator 1 10) (demo_validator 3 20)"
      by (simp_all add: heavier_def weight_of_def word_less_nat_alt)
    with light c(3) have "{demo_validator 1 10, demo_validator 2 30, demo_validator 3 20} \<subseteq> set c"
      by auto
    then have "3 \<le> card (set c)"
      using card_mono [of "set c" "{demo_validator 1 10, demo_validator 2 30, demo_validator 3 20}"] by simp
    with c(2) show False using card_length [of c] by simp
  qed
  with c(1,2) show ?thesis by blast
qed

text \<open>
  C13: Every node elects the same committee.  Two registries that answer every address alike, in
  whatever stores and with whatever iteration order of their maps, give the same committee in
  the same order.
\<close>

theorem committee_is_deterministic:
  assumes "reliable_store st I" "reg_ok st I vr" and "reliable_store st' I'" "reg_ok st' I' vr'"
    and "\<forall>a. GetValidator st vr a = GetValidator st' vr' a"
  shows "SelectCommittee st vr n = SelectCommittee st' vr' n"
proof -
  obtain vs where vs: "GetAllValidators st vr = Inr vs" "distinct (map val_Address vs)" "set vs = ran (reg_view st vr)"
    using reliable_store.GetAllValidators_ok [OF assms(1,2)] .
  obtain ws where ws: "GetAllValidators st' vr' = Inr ws" "distinct (map val_Address ws)" "set ws = ran (reg_view st' vr')"
    using reliable_store.GetAllValidators_ok [OF assms(3,4)] .
  have "reg_view st vr = reg_view st' vr'"
    using assms(5) reliable_store.GetValidator_view [OF assms(1,2)] reliable_store.GetValidator_view [OF assms(3,4)]
    by (simp add: fun_eq_iff)
  then have "set vs = set ws" using vs(3) ws(3) by simp
  moreover have "distinct vs" "distinct ws" using vs(2) ws(2) by (simp_all add: distinct_map)
  ultimately have "mset vs = mset ws" by (simp add: set_eq_iff_mset_eq_distinct)
  then show ?thesis
    using select_members_perm [OF _ vs(2), of ws n] by (simp add: SelectCommittee_members vs(1) ws(1))
qed

theorem committee_is_deterministic_witness:
  "SelectCommittee MemoryStore_ops (demo_registry [demo_validator 1 10, demo_validator 2 30]) 1 =
   SelectCommittee MemoryStore_ops (demo_registry [demo_validator 2 30, demo_validator 1 10]) 1"
proof (rule committee_is_deterministic [OF memory_store.reliable_store_axioms demo_registry_facts(1)
      memory_store.reliable_store_axioms demo_registry_facts(1)])
  show "\<forall>a. GetValidator MemoryStore_ops (demo_registry [demo_validator 1 10, demo_validator 2 30]) a =
      GetValidator MemoryStore_ops (demo_registry [demo_validator 2 30, demo_validator 1 10]) a"
    by (simp add: memory_store.GetValidator_view [OF demo_registry_facts(1)] demo_registry_facts(2))
qed

text \<open>
  C14: One proposer for every height of the epoch.  If the epoch does not run over the end of the
  64-bit heights, \<^verbatim>\<open>ProposerForBlock\<close> answers exactly the heights from \<open>epochStart\<close> up to but not
  including \<open>epochStart + epochLength\<close>, with a member of the committee: the one at the shuffled
  position \<open>k / 9\<close> for offset \<open>k\<close>, and round-robin once every member had its nine slots.
\<close>

theorem rotation_covers_epoch:
  assumes "committee \<noteq> []" and "unat epochStart + unat epochLength < 2 ^ 64"
    and "mset (perm (length committee)) = mset [0..<length committee]"
  shows "ProposerForBlock (NewProposerSelectorWithRotation perm committee epochStart epochLength) h =
      (if unat epochStart \<le> unat h \<and> unat h < unat epochStart + unat epochLength
       then Some (rotation (perm (length committee)) committee (unat h - unat epochStart)) else None) \<and>
    rotation (perm (length committee)) committee (unat h - unat epochStart) \<in> set committee"
  using rotation_slots [of committee epochStart epochLength perm, OF assms(1,2)] rotation_member [OF assms(1,3)] arg_cong [OF assms(3), of size] by simp

theorem rotation_covers_epoch_witness:
  "ProposerForBlock (NewProposerSelectorWithRotation (\<lambda>n. rev [0..<n]) [demo_validator 1 10, demo_validator 2 30] 270 270) 278 =
     Some (demo_validator 2 30)"
  using rotation_covers_epoch [of "[demo_validator 1 10, demo_validator 2 30]" 270 270 "\<lambda>n. rev [0..<n]" 278]
  by (simp add: rotation_def)

text \<open>
  The rotation is fair.  When the epoch has nine heights per member (270 heights, 30 members)
  every member of the committee proposes exactly nine consecutive heights of it.
\<close>

theorem rotation_is_fair:
  assumes "distinct committee" and "v \<in> set committee"
    and "unat epochLength = 9 * length committee" and "unat epochStart + unat epochLength < 2 ^ 64"
    and "mset (perm (length committee)) = mset [0..<length committee]"
  shows "\<exists>j < length committee. \<forall>h.
    ProposerForBlock (NewProposerSelectorWithRotation perm committee epochStart epochLength) h = Some v \<longleftrightarrow>
    unat epochStart + 9 * j \<le> unat h \<and> unat h < unat epochStart + 9 * j + 9"
proof -
  have ne: "committee \<noteq> []" using assms(2) by auto
  obtain j where j: "j < length committee" "\<And>k. k < 9 * length committee \<Longrightarrow>
      rotation (perm (length committee)) committee k = v \<longleftrightarrow> 9 * j \<le> k \<and> k < 9 * j + 9"
    using rotation_block [OF assms(1,5,2)] by blast
  have len: "length (perm (length committee)) = length committee" using arg_cong [OF assms(5), of size] by simp
  show ?thesis
  proof (intro exI [of _ j] conjI allI j(1))
    fix h :: u64
    let ?k = "unat h - unat epochStart"
    have "ProposerForBlock (NewProposerSelectorWithRotation perm committee epochStart epochLength) h = Some v \<longleftrightarrow>
        unat epochStart \<le> unat h \<and> ?k < 9 * length committee \<and> 9 * j \<le> ?k \<and> ?k < 9 * j + 9"
      using j(2) [of ?k] assms(3)
      by (auto simp: rotation_slots [of committee epochStart epochLength perm, OF ne assms(4) len])
    then show "ProposerForBlock (NewProposerSelectorWithRotation perm committee epochStart epochLength) h = Some v \<longleftrightarrow>
        unat epochStart + 9 * j \<le> unat h \<and> unat h < unat epochStart + 9 * j + 9"
      using j(1) by linarith
  qed
qed

theorem rotation_is_fair_witness:
  "\<exists>j < Suc (Suc 0). \<forall>h. ProposerForBlock (NewProposerSelectorWithRotation (\<lambda>n. rev [0..<n])
      [demo_validator 1 10, demo_validator 2 30] 36 18) h = Some (demo_validator 1 10) \<longleftrightarrow>
     36 + 9 * j \<le> unat h \<and> unat h < 36 + 9 * j + 9"
  using rotation_is_fair [of "[demo_validator 1 10, demo_validator 2 30]" "demo_validator 1 10" 18 36 "\<lambda>n. rev [0..<n]"]
  by simp

end
