(* ===== verification/Block_Approval.thy ===== *)
theory Block_Approval
  imports Committee
begin

text \<open>
  \<^verbatim>\<open>block_approval.go\<close>: the signatures collected for one block and the threshold of more than two
  thirds of the committee.  The locale \<open>quorum_system\<close> states what agreement needs of
  quorums; the sets of signers of approved blocks are an interpretation of it.  Trackers that
  the code can reach from \<open>NewBlockApproval\<close> are the inductive predicate \<open>approval_reach\<close>.
\<close>

section \<open>Operations\<close>

record BlockApproval =
  ba_Block :: Block
  ba_Committee :: "Validator list"
  ba_Signatures :: "(string, bytes) gomap"
  ba_Threshold :: nat

definition NewBlockApproval :: "Block \<Rightarrow> Validator list \<Rightarrow> BlockApproval" where
  "NewBlockApproval block committee =
     \<lparr>ba_Block = block, ba_Committee = committee, ba_Signatures = [],
      ba_Threshold = 2 * length committee div 3 + 1\<rparr>"

fun isCommitteeMember_loop :: "Validator list \<Rightarrow> address \<Rightarrow> bool" where
  "isCommitteeMember_loop [] addr = False"
| "isCommitteeMember_loop (member # ms) addr =
     (if val_Address member = addr then True else isCommitteeMember_loop ms addr)"

definition isCommitteeMember :: "BlockApproval \<Rightarrow> address \<Rightarrow> bool" where
  "isCommitteeMember ba addr = isCommitteeMember_loop (ba_Committee ba) addr"

definition HasSignature :: "BlockApproval \<Rightarrow> address \<Rightarrow> bool" where
  "HasSignature ba validator = (go_get (ba_Signatures ba) (Address_ToHex validator) \<noteq> None)"

definition AddSignature :: "BlockApproval \<Rightarrow> address \<Rightarrow> bytes \<Rightarrow> gerror option \<times> BlockApproval" where
  "AddSignature ba addr signature =
     (if \<not> isCommitteeMember ba addr then (Some (ErrNotInCommittee (Address_ToHex addr)), ba)
      else if HasSignature ba addr then (Some (ErrDuplicateSignature (Address_ToHex addr)), ba)
      else (None, ba\<lparr>ba_Signatures := go_set (ba_Signatures ba) (Address_ToHex addr) signature\<rparr>))"

definition IsApproved :: "BlockApproval \<Rightarrow> bool" where
  "IsApproved ba = (ba_Threshold ba \<le> length (ba_Signatures ba))"

text \<open>\<^verbatim>\<open>ecdsa.Verify\<close> of the standard library on the numbers \<open>r\<close> and \<open>s\<close> is the argument \<open>verify\<close>.\<close>

definition VerifySignature :: "('p \<Rightarrow> bytes \<Rightarrow> nat \<Rightarrow> nat \<Rightarrow> bool) \<Rightarrow> 'p \<Rightarrow> hash \<Rightarrow> bytes \<Rightarrow> bool" where
  "VerifySignature verify pubKey h sig =
     (if length sig < 64 then False
      else verify pubKey (hash_bytes h) (be_nat (take (length sig div 2) sig)) (be_nat (drop (length sig div 2) sig)))"

definition HashBlockForSign :: "crypto \<Rightarrow> Block \<Rightarrow> hash" where
  "HashBlockForSign cr block = sha2_256 cr (hash_bytes (blk_Hash block))"

section \<open>Quorums\<close>

locale quorum_system =
  fixes members :: "'a set" and quorum :: "'a set \<Rightarrow> bool"
  assumes finite_members: "finite members"
    and quorum_subset: "quorum Q \<Longrightarrow> Q \<subseteq> members"
    and quorum_size: "quorum Q \<Longrightarrow> 2 * card members < 3 * card Q"
begin

text \<open>Two quorums share more than a third of the members.\<close>

lemma quorum_overlap:
  assumes "quorum Q" "quorum R"
  shows "card members < 3 * card (Q \<inter> R)"
proof -
  have fin: "finite Q" "finite R" using assms quorum_subset finite_members finite_subset by blast+
  have "card (Q \<union> R) \<le> card members"
    using assms quorum_subset finite_members by (intro card_mono) auto
  moreover have "card Q + card R = card (Q \<union> R) + card (Q \<inter> R)" using fin by (rule card_Un_Int)
  ultimately show ?thesis using quorum_size [OF assms(1)] quorum_size [OF assms(2)] by linarith
qed

text \<open>So they share a member outside any set of at most a third of them.\<close>

lemma quorum_honest:
  assumes "quorum Q" "quorum R" and "F \<subseteq> members" "3 * card F \<le> card members"
  obtains a where "a \<in> Q \<inter> R" "a \<notin> F"
proof -
  have "finite F" using assms(3) finite_members finite_subset by blast
  moreover have "card F < card (Q \<inter> R)" using quorum_overlap [OF assms(1,2)] assms(4) by linarith
  ultimately have "\<not> Q \<inter> R \<subseteq> F" using card_mono [of F] by (metis leD)
  then show ?thesis using that by blast
qed

end

section \<open>Reachable trackers\<close>

inductive approval_reach :: "Block \<Rightarrow> Validator list \<Rightarrow> BlockApproval \<Rightarrow> bool" for block committee where
  reach_new: "approval_reach block committee (NewBlockApproval block committee)"
| reach_add: "approval_reach block committee ba \<Longrightarrow> approval_reach block committee (snd (AddSignature ba addr sig))"

definition signers :: "BlockApproval \<Rightarrow> address set" where
  "signers ba = {a. HasSignature ba a}"

abbreviation committee_addrs :: "Validator list \<Rightarrow> address set" where
  "committee_addrs committee \<equiv> val_Address ` set committee"

definition approval_ok :: "BlockApproval \<Rightarrow> bool" where
  "approval_ok ba \<longleftrightarrow> go_wf (ba_Signatures ba) \<and>
     ba_Threshold ba = 2 * length (ba_Committee ba) div 3 + 1 \<and>
     (\<forall>k \<in> fst ` set (ba_Signatures ba). \<exists>a \<in> committee_addrs (ba_Committee ba). k = Address_ToHex a)"

lemma isCommitteeMember_iff: "isCommitteeMember ba a \<longleftrightarrow> a \<in> committee_addrs (ba_Committee ba)"
proof -
  have "isCommitteeMember_loop ms a \<longleftrightarrow> a \<in> committee_addrs ms" for ms
    by (induction ms) auto
  then show ?thesis by (simp add: isCommitteeMember_def)
qed

lemma approval_ok_New: "approval_ok (NewBlockApproval b c)"
  by (simp add: approval_ok_def NewBlockApproval_def)

lemma approval_ok_Add: "approval_ok ba \<Longrightarrow> approval_ok (snd (AddSignature ba a sig))"
  by (fastforce simp: approval_ok_def AddSignature_def isCommitteeMember_iff dest: subsetD [OF set_go_set])

lemma AddSignature_frame [simp]:
  "ba_Block (snd (AddSignature ba a sig)) = ba_Block ba"
  "ba_Committee (snd (AddSignature ba a sig)) = ba_Committee ba"
  by (simp_all add: AddSignature_def)

lemma approval_reach_ok:
  "approval_reach b c ba \<Longrightarrow> approval_ok ba \<and> ba_Block ba = b \<and> ba_Committee ba = c"
proof (induction rule: approval_reach.induct)
  case reach_new
  then show ?case using approval_ok_New by (simp add: NewBlockApproval_def)
next
  case (reach_add ba addr sig)
  then show ?case by (simp add: approval_ok_Add)
qed

lemma signers_Add:
  "signers (snd (AddSignature ba a sig)) =
     (if a \<in> committee_addrs (ba_Committee ba) then insert a (signers ba) else signers ba)"
  by (auto simp: signers_def AddSignature_def HasSignature_def isCommitteeMember_iff)

lemma signers_members:
  assumes "approval_ok ba" shows "signers ba \<subseteq> committee_addrs (ba_Committee ba)"
proof
  fix a assume "a \<in> signers ba"
  then obtain s where "go_get (ba_Signatures ba) (Address_ToHex a) = Some s"
    by (auto simp: signers_def HasSignature_def)
  then have "Address_ToHex a \<in> fst ` set (ba_Signatures ba)" by (metis map_of_eq_None_iff option.discI)
  then show "a \<in> committee_addrs (ba_Committee ba)" using assms by (auto simp: approval_ok_def)
qed

text \<open>Hexadecimal keys do not conflate signers: the map has one entry per signer.\<close>

lemma card_signers:
  assumes "approval_ok ba" shows "card (signers ba) = length (ba_Signatures ba)"
proof -
  let ?K = "fst ` set (ba_Signatures ba)"
  have "Address_ToHex ` signers ba = ?K"
  proof
    show "Address_ToHex ` signers ba \<subseteq> ?K"
      by (auto simp: signers_def HasSignature_def dest: map_of_SomeD intro: rev_image_eqI)
    show "?K \<subseteq> Address_ToHex ` signers ba"
    proof
      fix k assume k: "k \<in> ?K"
      then obtain a where "k = Address_ToHex a" using assms by (fastforce simp: approval_ok_def)
      moreover have "go_get (ba_Signatures ba) k \<noteq> None" using k by (simp add: map_of_eq_None_iff)
      ultimately show "k \<in> Address_ToHex ` signers ba" by (auto simp: signers_def HasSignature_def)
    qed
  qed
  moreover have "card (Address_ToHex ` signers ba) = card (signers ba)"
    by (rule card_image) (simp add: inj_on_def)
  moreover have "card ?K = length (ba_Signatures ba)"
    using assms by (metis approval_ok_def distinct_card go_wf_def length_map list.set_map)
  ultimately show ?thesis by simp
qed

lemma IsApproved_iff:
  assumes "approval_ok ba"
  shows "IsApproved ba \<longleftrightarrow> 2 * length (ba_Committee ba) < 3 * card (signers ba)"
  unfolding IsApproved_def card_signers [OF assms] using assms by (simp add: approval_ok_def) linarith

definition approved_by :: "Validator list \<Rightarrow> address set \<Rightarrow> bool" where
  "approved_by committee Q \<longleftrightarrow>
     (\<exists>block ba. approval_reach block committee ba \<and> IsApproved ba \<and> Q = signers ba)"

interpretation approvals: quorum_system "committee_addrs committee" "approved_by committee" for committee
proof (unfold_locales, goal_cases)
  case 1
  show ?case by simp
next
  case (2 Q)
  then show ?case using approval_reach_ok signers_members by (fastforce simp: approved_by_def)
next
  case (3 Q)
  then obtain block ba where ba: "approval_reach block committee ba" "IsApproved ba" "Q = signers ba"
    by (auto simp: approved_by_def)
  have "card (committee_addrs committee) \<le> length committee"
    by (metis card_length length_map list.set_map)
  then show ?case using ba approval_reach_ok [OF ba(1)] IsApproved_iff [of ba] by auto
qed

text \<open>Signing by every address of a list, from a new tracker.\<close>

definition sign_all :: "BlockApproval \<Rightarrow> address list \<Rightarrow> BlockApproval" where
  "sign_all ba as = foldl (\<lambda>ba a. snd (AddSignature ba a (Address_ToHex a))) ba as"

lemma sign_all_reach: "approval_reach b c ba \<Longrightarrow> approval_reach b c (sign_all ba as)"
  by (induction "as" arbitrary: ba) (auto simp: sign_all_def intro: reach_add)

lemma signers_sign_all:
  "signers (sign_all ba as) = signers ba \<union> (set as \<inter> committee_addrs (ba_Committee ba))"
  by (induction "as" arbitrary: ba) (auto simp: sign_all_def signers_Add)

lemma signers_New [simp]: "signers (NewBlockApproval b c) = {}"
  by (simp add: signers_def HasSignature_def NewBlockApproval_def)

section \<open>Properties\<close>

text \<open>
  C5: Agreement of approvals.  If two blocks are approved by the same committee, however the
  signatures came in, then the validators that signed both are more than a third of the
  committee; so as long as at most a third of it signs conflicting blocks, some honest
  validator signed both.
\<close>

theorem approvals_intersect:
  assumes "approval_reach b c ba" "approval_reach b' c ba'" "IsApproved ba" "IsApproved ba'"
    and "F \<subseteq> committee_addrs c" and "3 * card F \<le> card (committee_addrs c)"
  shows "card (committee_addrs c) < 3 * card {a. HasSignature ba a \<and> HasSignature ba' a} \<and>
    (\<exists>a. HasSignature ba a \<and> HasSignature ba' a \<and> a \<notin> F)"
proof -
  have q: "approved_by c (signers ba)" "approved_by c (signers ba')"
    using assms(1-4) by (auto simp: approved_by_def)
  have eq: "signers ba \<inter> signers ba' = {a. HasSignature ba a \<and> HasSignature ba' a}" by (auto simp: signers_def)
  obtain a where "a \<in> signers ba \<inter> signers ba'" "a \<notin> F"
    using approvals.quorum_honest [OF q assms(5,6)] .
  then show ?thesis using approvals.quorum_overlap [OF q] unfolding eq by auto
qed

definition demo_committee :: "Validator list" where
  "demo_committee = [demo_validator 1 10, demo_validator 2 10, demo_validator 3 10, demo_validator 4 10]"

definition demo_proposal :: Block where
  "demo_proposal = NewBlock \<lparr>hdr_BlockNumber = 1, hdr_PreviousHash = 0, hdr_Timestamp = 7, hdr_Proposer = 1,
      hdr_Gas = 0, hdr_TransactionRoot = 0, hdr_Hash = 5\<rparr> []"

definition demo_approval :: "address list \<Rightarrow> BlockApproval" where
  "demo_approval as = sign_all (NewBlockApproval demo_proposal demo_committee) as"

lemma demo_approval_facts:
  "approval_reach demo_proposal demo_committee (demo_approval as)"
  "signers (demo_approval as) = set as \<inter> {1, 2, 3, 4}"
  "ba_Committee (demo_approval as) = demo_committee"
proof -
  show r: "approval_reach demo_proposal demo_committee (demo_approval as)"
    unfolding demo_approval_def by (intro sign_all_reach reach_new)
  show "signers (demo_approval as) = set as \<inter> {1, 2, 3, 4}"
    by (simp add: demo_approval_def signers_sign_all) (simp add: NewBlockApproval_def demo_committee_def)
  show "ba_Committee (demo_approval as) = demo_committee" using approval_reach_ok [OF r] by simp
qed

lemma demo_approved: "IsApproved (demo_approval as) \<longleftrightarrow> 8 < 3 * card (set as \<inter> {1, 2, 3, 4})"
  using approval_reach_ok [OF demo_approval_facts(1), of "as"] IsApproved_iff [of "demo_approval as"]
  by (simp add: demo_approval_facts(2)) (simp add: demo_committee_def)

theorem approvals_intersect_witness:
  "IsApproved (demo_approval [1, 2, 3]) \<and> IsApproved (demo_approval [2, 3, 4]) \<and>
   (\<exists>a. HasSignature (demo_approval [1, 2, 3]) a \<and> HasSignature (demo_approval [2, 3, 4]) a \<and> a \<notin> {3})"
proof -
  have "set [1, 2, 3] \<inter> {1, 2, 3, 4 :: address} = {1, 2, 3}" "set [2, 3, 4] \<inter> {1, 2, 3, 4 :: address} = {2, 3, 4}" by auto
  then have ap: "IsApproved (demo_approval [1, 2, 3])" "IsApproved (demo_approval [2, 3, 4])"
    by (simp_all only: demo_approved) simp_all
  have "card (committee_addrs demo_committee) = 4" by (simp add: demo_committee_def)
  with ap approvals_intersect [OF demo_approval_facts(1) demo_approval_facts(1) ap, of "{3}"] show ?thesis
    by (simp add: demo_committee_def)
qed

text \<open>
  The threshold.  A reachable tracker is approved exactly when strictly more than two thirds
  of the committee's places have signed; every signer is a committee member, and a signature
  from outside the committee or a second one from the same member changes nothing.
\<close>

theorem approval_threshold:
  assumes "approval_reach b c ba"
  shows "(IsApproved ba \<longleftrightarrow> 2 * length c < 3 * card {a. HasSignature ba a}) \<and>
    {a. HasSignature ba a} \<subseteq> val_Address ` set c \<and>
    (fst (AddSignature ba a sig) = None \<longleftrightarrow> a \<in> val_Address ` set c \<and> \<not> HasSignature ba a) \<and>
    (fst (AddSignature ba a sig) \<noteq> None \<longrightarrow> snd (AddSignature ba a sig) = ba)"
  using approval_reach_ok [OF assms] IsApproved_iff [of ba] signers_members [of ba]
  by (auto simp: signers_def AddSignature_def isCommitteeMember_iff)

theorem approval_threshold_witness:
  "\<not> IsApproved (demo_approval [1, 2]) \<and> fst (AddSignature (demo_approval [1, 2]) 9 ''s'') \<noteq> None"
proof -
  have card: "card (set [1, 2] \<inter> {1, 2, 3, 4 :: address}) = 2" by simp
  then show ?thesis
    using approval_threshold [OF demo_approval_facts(1), of "[1, 2]" 9 "''s''"] demo_approved [of "[1, 2]"]
    unfolding card by (simp add: demo_committee_def)
qed

text \<open>
  An honest committee gets its block approved.  When every member of a non-empty committee
  with distinct addresses adds a signature, in any order and with repetitions, the block is
  approved.
\<close>

theorem honest_committee_approves:
  assumes "c \<noteq> []" and "distinct (map val_Address c)" and "val_Address ` set c \<subseteq> set as"
  shows "IsApproved (sign_all (NewBlockApproval b c) as)"
proof -
  let ?ba = "sign_all (NewBlockApproval b c) as"
  have r: "approval_reach b c ?ba" by (intro sign_all_reach reach_new)
  have "signers ?ba = val_Address ` set c"
    using assms(3) by (auto simp: signers_sign_all) (auto simp: NewBlockApproval_def)
  then have "card (signers ?ba) = length c" using assms(2) by (metis distinct_card length_map list.set_map)
  then show ?thesis
    using approval_reach_ok [OF r] IsApproved_iff [of ?ba] assms(1) by simp
qed

theorem honest_committee_approves_witness:
  "IsApproved (sign_all (NewBlockApproval demo_proposal demo_committee) [4, 3, 3, 2, 1])"
  by (rule honest_committee_approves) (simp_all add: demo_committee_def)

end
