(* ===== verification/Transaction_Pool.thy ===== *)
theory Transaction_Pool
  imports Account_State Slice_Sort Float64
begin

text \<open>
  \<^verbatim>\<open>transaction_pool.go\<close> and \<^verbatim>\<open>transaction_batching.go\<close>: admission of transactions, selection by
  priority, the greedy batch for a block and the batcher that marks transactions as used.

  Each call of \<open>calculatePriority\<close> reads the clock: \<open>now tx\<close> is the reading when the priority of
  \<open>tx\<close> is computed.  \<^verbatim>\<open>sort.Slice\<close> may order equal priorities in any way, and Go may iterate over
  the pool in any order; both are covered by letting the order of the association list vary.
  The pool holds pointers, so marking a transaction as used is seen in a batch that was
  returned earlier.
\<close>

section \<open>The pool\<close>

record TransactionBatch =
  tb_Transactions :: "Transaction list"
  tb_TotalFee :: u64
  tb_TotalSize :: nat
  tb_Priority :: float64

record TransactionPool =
  tp_transactions :: "(hash, Transaction) gomap"
  tp_maxBatchSize :: int
  tp_maxBatchFee :: u64
  tp_batchTimeout :: i64
  tp_priorityScores :: "(hash, float64) gomap"

definition NewTransactionPool :: TransactionPool where
  "NewTransactionPool = \<lparr>tp_transactions = [], tp_maxBatchSize = 100, tp_maxBatchFee = 1000,
     tp_batchTimeout = 5000000000, tp_priorityScores = []\<rparr>"

definition SetBatchingConfig :: "TransactionPool \<Rightarrow> int \<Rightarrow> u64 \<Rightarrow> i64 \<Rightarrow> TransactionPool" where
  "SetBatchingConfig tp maxSize maxFee timeout =
     tp\<lparr>tp_maxBatchSize := maxSize, tp_maxBatchFee := maxFee, tp_batchTimeout := timeout\<rparr>"

definition calculatePriority :: "(Transaction \<Rightarrow> i64) \<Rightarrow> TransactionPool \<Rightarrow> Transaction \<Rightarrow> float64" where
  "calculatePriority now tp tx =
     (if tx_Value tx = 0 then f64_of_int (uint (tx_Fee tx))
      else
        (let feeRatio = f64_div (f64_of_int (uint (tx_Fee tx))) (f64_of_int (uint (tx_Value tx)));
             age0 = f64_div (f64_of_int (sint (now tx - tx_Timestamp tx))) (f64_of_int (sint (tp_batchTimeout tp)));
             age = (if f64_gt age0 (Fin 1) then Fin 1 else age0);
             typeMultiplier =
               (if tx_Type tx = ''register_validator'' then Fin 2
                else if tx_Type tx = ''delegate'' then Fin (3 / 2)
                else if tx_Type tx = ''participation'' then round64 (6 / 5)
                else Fin 1)
         in f64_mul (f64_add feeRatio (f64_mul age (round64 (1 / 10)))) typeMultiplier))"

text \<open>The sender's account, created when it cannot be read; then the nonce and balance checks.\<close>

definition check_sender :: "crypto \<Rightarrow> State \<Rightarrow> Transaction \<Rightarrow> pubkey \<Rightarrow> gerror option \<times> State" where
  "check_sender cr state tx pubKey =
     (let senderAddr = pubKeyToAddress cr pubKey;
          (sender, state') =
            (case GetAccount state senderAddr of
               Inr acc \<Rightarrow> (acc, state)
             | Inl _ \<Rightarrow> (new_account senderAddr, PutAccount cr state (new_account senderAddr)))
      in if tx_Nonce tx \<noteq> acc_Nonce sender + 1 then (Some (ErrInvalidNonce (tx_Nonce tx) (acc_Nonce sender + 1)), state')
         else if acc_Balance sender < tx_Value tx + tx_Fee tx then (Some (ErrInsufficientFunds (tx_Value tx + tx_Fee tx) (acc_Balance sender)), state')
         else (None, state'))"

definition put_tx :: "TransactionPool \<Rightarrow> Transaction \<Rightarrow> TransactionPool" where
  "put_tx tp tx = tp\<lparr>tp_transactions := go_set (tp_transactions tp) (tx_Hash tx) tx\<rparr>"

definition in_pool :: "TransactionPool \<Rightarrow> hash \<Rightarrow> bool" where
  "in_pool tp h = (go_get (tp_transactions tp) h \<noteq> None)"

definition Pool_AddTransaction ::
  "crypto \<Rightarrow> TransactionPool \<Rightarrow> Transaction \<Rightarrow> pubkey \<Rightarrow> State \<Rightarrow> gerror option \<times> TransactionPool \<times> State" where
  "Pool_AddTransaction cr tp tx pubKey state =
     (if \<not> Transaction_Verify cr tx pubKey then (Some ErrInvalidSignature, tp, state)
      else if tx_Type tx = ''participation'' then
        (if in_pool tp (tx_Hash tx) then (Some ErrAlreadyInPool, tp, state)
         else (None, put_tx tp tx, state))
      else if tx_Type tx = ''register_validator'' then
        (if in_pool tp (tx_Hash tx) then (Some ErrAlreadyInPool, tp, state)
         else if tx_Value tx = 0 then (Some ErrZeroStake, tp, state)
         else (case check_sender cr state tx pubKey of
                 (Some err, state') \<Rightarrow> (Some err, tp, state')
               | (None, state') \<Rightarrow> (None, put_tx tp tx, state')))
      else if tx_Type tx = ''delegate'' then
        (if in_pool tp (tx_Hash tx) then (Some ErrAlreadyInPool, tp, state)
         else if tx_Value tx = 0 then (Some ErrZeroDelegation, tp, state)
         else (case check_sender cr state tx pubKey of
                 (Some err, state') \<Rightarrow> (Some err, tp, state')
               | (None, state') \<Rightarrow> (None, put_tx tp tx, state')))
      else
        (case check_sender cr state tx pubKey of
           (Some err, state') \<Rightarrow> (Some err, tp, state')
         | (None, state') \<Rightarrow>
             if in_pool tp (tx_Hash tx) then (Some ErrAlreadyInPool, tp, state')
             else (None, put_tx tp tx, state')))"

definition RemoveTransaction :: "TransactionPool \<Rightarrow> hash \<Rightarrow> TransactionPool" where
  "RemoveTransaction tp h = tp\<lparr>tp_transactions := go_delete (tp_transactions tp) h\<rparr>"

definition getSenderAccount :: "Transaction \<Rightarrow> State \<Rightarrow> gerror + Account" where
  "getSenderAccount tx state = GetAccount state (tx_From tx)"

text \<open>The filter of both selection loops.\<close>

definition selectable :: "State \<Rightarrow> Transaction \<Rightarrow> bool" where
  "selectable state tx =
     (if tx_Used tx then False
      else
        (case getSenderAccount tx state of
           Inl _ \<Rightarrow> False
         | Inr sender \<Rightarrow>
             if tx_Nonce tx \<noteq> acc_Nonce sender + 1 then False
             else if acc_Balance sender < tx_Value tx + tx_Fee tx then False
             else True))"

definition prioritized :: "(Transaction \<Rightarrow> i64) \<Rightarrow> TransactionPool \<Rightarrow> State \<Rightarrow> (Transaction \<times> float64) list" where
  "prioritized now tp state =
     sort_slice (\<lambda>a b. f64_gt (snd a) (snd b))
       (map (\<lambda>tx. (tx, calculatePriority now tp tx)) (filter (selectable state) (map snd (tp_transactions tp))))"

definition SelectTransactions :: "(Transaction \<Rightarrow> i64) \<Rightarrow> TransactionPool \<Rightarrow> nat \<Rightarrow> State \<Rightarrow> Transaction list" where
  "SelectTransactions now tp n state = take n (map fst (prioritized now tp state))"

fun greedy_batch ::
  "int \<Rightarrow> u64 \<Rightarrow> Transaction list \<times> u64 \<times> nat \<Rightarrow> Transaction list \<Rightarrow> Transaction list \<times> u64 \<times> nat" where
  "greedy_batch maxSize maxFee (batch, totalFee, totalSize) [] = (batch, totalFee, totalSize)"
| "greedy_batch maxSize maxFee (batch, totalFee, totalSize) (tx # txs) =
     (if maxSize \<le> int (length batch) then (batch, totalFee, totalSize)
      else if maxFee < totalFee + tx_Fee tx then greedy_batch maxSize maxFee (batch, totalFee, totalSize) txs
      else if 1000000 < totalSize + 200 then greedy_batch maxSize maxFee (batch, totalFee, totalSize) txs
      else greedy_batch maxSize maxFee (batch @ [tx], totalFee + tx_Fee tx, totalSize + 200) txs)"

text \<open>The priorities of the batch are computed again, at the later times \<open>now'\<close>.\<close>

definition CreateOptimizedBatch ::
  "(Transaction \<Rightarrow> i64) \<Rightarrow> (Transaction \<Rightarrow> i64) \<Rightarrow> TransactionPool \<Rightarrow> State \<Rightarrow> TransactionBatch" where
  "CreateOptimizedBatch now now' tp state =
     (let (batch, totalFee, totalSize) =
            greedy_batch (tp_maxBatchSize tp) (tp_maxBatchFee tp) ([], 0, 0) (map fst (prioritized now tp state));
          batchPriority =
            (if batch = [] then Fin 0
             else f64_div (foldl (\<lambda>p tx. f64_add p (calculatePriority now' tp tx)) (Fin 0) batch)
                    (f64_of_int (int (length batch))))
      in \<lparr>tb_Transactions = batch, tb_TotalFee = totalFee, tb_TotalSize = totalSize, tb_Priority = batchPriority\<rparr>)"

record BatchStatistics =
  stat_total_transactions :: nat
  stat_valid_transactions :: nat
  stat_used_transactions :: nat
  stat_total_fees :: u64
  stat_average_fee :: float64
  stat_max_batch_size :: int
  stat_max_batch_fee :: u64

definition GetBatchStatistics :: "TransactionPool \<Rightarrow> BatchStatistics" where
  "GetBatchStatistics tp =
     (let txs = map snd (tp_transactions tp);
          validTxs = filter (\<lambda>tx. \<not> tx_Used tx) txs;
          totalFee = sum_list (map tx_Fee validTxs)
      in \<lparr>stat_total_transactions = length txs, stat_valid_transactions = length validTxs,
          stat_used_transactions = length (filter tx_Used txs), stat_total_fees = totalFee,
          stat_average_fee = f64_div (f64_of_int (uint totalFee)) (f64_of_int (int (length validTxs))),
          stat_max_batch_size = tp_maxBatchSize tp, stat_max_batch_fee = tp_maxBatchFee tp\<rparr>)"

definition Pool_Size :: "TransactionPool \<Rightarrow> nat" where
  "Pool_Size tp = length (tp_transactions tp)"

definition GetTransactions :: "TransactionPool \<Rightarrow> Transaction list" where
  "GetTransactions tp = map snd (tp_transactions tp)"

definition MarkTransactionAsUsed :: "TransactionPool \<Rightarrow> hash \<Rightarrow> TransactionPool" where
  "MarkTransactionAsUsed tp h =
     (case go_get (tp_transactions tp) h of
        None \<Rightarrow> tp
      | Some tx \<Rightarrow> tp\<lparr>tp_transactions := go_set (tp_transactions tp) h (tx\<lparr>tx_Used := True\<rparr>)\<rparr>)"

section \<open>The batcher\<close>

record BatchMetrics =
  bm_TotalBatches :: int
  bm_AverageSize :: float64
  bm_AverageFee :: float64
  bm_ProcessingTime :: i64
  bm_SuccessRate :: float64
  bm_TotalProcessed :: int

record TransactionBatcher =
  tbr_batchSize :: nat
  tbr_timeout :: i64
  tbr_batches :: "TransactionBatch list"
  tbr_metrics :: BatchMetrics

definition NewTransactionBatcher :: "nat \<Rightarrow> i64 \<Rightarrow> TransactionBatcher" where
  "NewTransactionBatcher batchSize timeout =
     \<lparr>tbr_batchSize = batchSize, tbr_timeout = timeout, tbr_batches = [],
      tbr_metrics = \<lparr>bm_TotalBatches = 0, bm_AverageSize = Fin 0, bm_AverageFee = Fin 0, bm_ProcessingTime = 0,
        bm_SuccessRate = Fin 0, bm_TotalProcessed = 0\<rparr>\<rparr>"

text \<open>\<^verbatim>\<open>TransactionBatcher.AddTransaction\<close> has an empty body.\<close>

definition Batcher_AddTransaction :: "TransactionBatcher \<Rightarrow> Transaction \<Rightarrow> TransactionBatcher" where
  "Batcher_AddTransaction tb tx = tb"

definition NextBatch ::
  "(Transaction \<Rightarrow> i64) \<Rightarrow> (Transaction \<Rightarrow> i64) \<Rightarrow> TransactionBatcher \<Rightarrow> TransactionPool \<Rightarrow> State \<Rightarrow>
   Transaction list \<times> TransactionPool" where
  "NextBatch now now' tb tp state =
     (let batch = CreateOptimizedBatch now now' tp state
      in if tb_Transactions batch = [] then ([], tp)
         else
           (let selected = take (min (tbr_batchSize tb) (length (tb_Transactions batch))) (tb_Transactions batch)
            in (map (\<lambda>tx. tx\<lparr>tx_Used := True\<rparr>) selected,
                foldl (\<lambda>tp tx. MarkTransactionAsUsed tp (tx_Hash tx)) tp selected)))"

definition Batcher_Metrics :: "TransactionBatcher \<Rightarrow> BatchMetrics" where
  "Batcher_Metrics tb = tbr_metrics tb"

section \<open>The pool invariant\<close>

definition pool_ok :: "TransactionPool \<Rightarrow> bool" where
  "pool_ok tp \<longleftrightarrow> go_wf (tp_transactions tp) \<and> (\<forall>(h, tx) \<in> set (tp_transactions tp). tx_Hash tx = h)"

lemma pool_ok_New: "pool_ok NewTransactionPool"
  by (simp add: pool_ok_def NewTransactionPool_def)

lemma pool_ok_put: "pool_ok tp \<Longrightarrow> pool_ok (put_tx tp tx)"
  by (auto simp: pool_ok_def put_tx_def dest!: subsetD [OF set_go_set])

lemma pool_ok_Add: "pool_ok tp \<Longrightarrow> pool_ok (fst (snd (Pool_AddTransaction cr tp tx pk s)))"
  by (auto simp: Pool_AddTransaction_def pool_ok_put split: option.split prod.split)

lemma pool_ok_Remove: "pool_ok tp \<Longrightarrow> pool_ok (RemoveTransaction tp h)"
  by (auto simp: pool_ok_def RemoveTransaction_def set_go_delete)

lemma pool_ok_Config [simp]: "pool_ok (SetBatchingConfig tp a b c) = pool_ok tp"
  by (simp add: pool_ok_def SetBatchingConfig_def)

lemma pool_ok_get: "pool_ok tp \<Longrightarrow> go_get (tp_transactions tp) h = Some tx \<Longrightarrow> tx_Hash tx = h"
  by (auto simp: pool_ok_def dest: map_of_SomeD)

lemma pool_ok_Mark: "pool_ok tp \<Longrightarrow> pool_ok (MarkTransactionAsUsed tp h)"
  using pool_ok_get [of tp h]
  by (auto simp: pool_ok_def MarkTransactionAsUsed_def dest!: subsetD [OF set_go_set] split: option.split)

lemma GetTransactions_iff:
  assumes "pool_ok tp" shows "tx \<in> set (GetTransactions tp) \<longleftrightarrow> go_get (tp_transactions tp) (tx_Hash tx) = Some tx"
  using assms by (force simp: pool_ok_def GetTransactions_def go_wf_mem [symmetric])

lemma in_pool_iff:
  assumes "pool_ok tp" shows "in_pool tp h \<longleftrightarrow> h \<in> tx_Hash ` set (GetTransactions tp)"
proof
  assume "in_pool tp h"
  then obtain y where y: "go_get (tp_transactions tp) h = Some y" by (auto simp: in_pool_def)
  then have "tx_Hash y = h" by (rule pool_ok_get [OF assms])
  with y show "h \<in> tx_Hash ` set (GetTransactions tp)" using GetTransactions_iff [OF assms, of y] by auto
next
  assume "h \<in> tx_Hash ` set (GetTransactions tp)"
  then show "in_pool tp h" using GetTransactions_iff [OF assms] by (auto simp: in_pool_def)
qed

lemma GetTransactions_distinct:
  assumes "pool_ok tp" shows "distinct (map tx_Hash (GetTransactions tp))"
proof -
  have "map tx_Hash (GetTransactions tp) = map fst (tp_transactions tp)"
    using assms by (auto simp: pool_ok_def GetTransactions_def)
  then show ?thesis using assms by (simp add: pool_ok_def go_wf_def)
qed

section \<open>Selection\<close>

text \<open>With a positive timeout no priority is a NaN, so the comparison is a strict weak order.\<close>

definition prio_lt :: "Transaction \<times> float64 \<Rightarrow> Transaction \<times> float64 \<Rightarrow> bool" where
  "prio_lt a b = (if snd a = NaN then False else if snd b = NaN then True else f64_gt (snd a) (snd b))"

interpretation priority: comparator prio_lt
proof (unfold_locales, goal_cases)
  case (1 x y)
  then show ?case by (auto simp: prio_lt_def dest: f64_gt_asym split: if_splits)
next
  case (2 y x z)
  then show ?case using f64_gt_negtrans [of "snd y" "snd z" "snd x"] by (auto simp: prio_lt_def split: if_splits)
qed

lemma sort_slice_cong:
  assumes "\<And>x y. x \<in> set xs \<Longrightarrow> y \<in> set xs \<Longrightarrow> lt x y = lt' x y"
  shows "sort_slice lt xs = sort_slice lt' xs"
proof -
  have ins: "insert_by lt x ys = insert_by lt' x ys" if "\<And>y. y \<in> set ys \<Longrightarrow> lt y x = lt' y x" for x ys
    using that by (induction ys) auto
  show ?thesis
    using assms
  proof (induction xs)
    case (Cons x xs)
    then have IH: "foldr (insert_by lt) xs [] = foldr (insert_by lt') xs []" by (simp add: sort_slice_def)
    have "insert_by lt x (sort_slice lt' xs) = insert_by lt' x (sort_slice lt' xs)"
      by (rule ins) (simp add: Cons.prems)
    with IH show ?case by (simp add: sort_slice_def)
  qed (simp add: sort_slice_def)
qed

lemma set_prioritized:
  "set (map fst (prioritized now tp s)) = {tx \<in> set (GetTransactions tp). selectable s tx}"
  by (force simp: prioritized_def GetTransactions_def)

lemma prioritized_distinct:
  assumes "pool_ok tp" shows "distinct (map tx_Hash (map fst (prioritized now tp s)))"
proof -
  have "distinct (map tx_Hash (filter (selectable s) (GetTransactions tp)))"
    using GetTransactions_distinct [OF assms] by (rule distinct_map_filter)
  then show ?thesis
    by (simp add: prioritized_def GetTransactions_def comp_def)
qed

text \<open>
  If no priority is a NaN, which takes a timeout of zero, the selected transactions are those
  of highest priority: none left out has a higher one.
\<close>

lemma SelectTransactions_best:
  assumes "\<forall>tx \<in> set (GetTransactions tp). calculatePriority now tp tx \<noteq> NaN"
    and x: "x \<in> set (SelectTransactions now tp n s)"
    and y: "y \<in> set (GetTransactions tp)" "selectable s y" "y \<notin> set (SelectTransactions now tp n s)"
  shows "\<not> f64_gt (calculatePriority now tp y) (calculatePriority now tp x)"
proof -
  let ?xs = "map (\<lambda>tx. (tx, calculatePriority now tp tx)) (filter (selectable s) (GetTransactions tp))"
  have eq: "prioritized now tp s = sort_slice prio_lt ?xs"
    unfolding prioritized_def GetTransactions_def
    by (rule sort_slice_cong) (use assms(1) in \<open>auto simp: prio_lt_def GetTransactions_def\<close>)
  obtain p where p: "p \<in> set (take n (sort_slice prio_lt ?xs))" "x = fst p"
    using x by (auto simp: SelectTransactions_def eq take_map)
  let ?q = "(y, calculatePriority now tp y)"
  have "?q \<in> set (sort_slice prio_lt ?xs)" using y(1,2) by simp
  moreover have "?q \<notin> set (take n (sort_slice prio_lt ?xs))"
    using y(3) by (auto simp: SelectTransactions_def eq take_map image_iff)
  ultimately have "?q \<in> set (drop n (sort_slice prio_lt ?xs))" by (metis append_take_drop_id Un_iff set_append)
  then have "\<not> prio_lt ?q p" using priority.take_best p(1) by blast
  moreover have "p \<in> set ?xs" using p(1) in_set_takeD by fastforce
  ultimately show ?thesis using assms(1) y(1) p(2) by (auto simp: prio_lt_def split: if_splits)
qed

lemma greedy_batch_ok:
  assumes "greedy_batch m f (b, fee, sz) txs = (b', fee', sz')" and "fee \<le> f" "sz = 200 * length b" "sz \<le> 1000000"
    and "fee = sum_list (map tx_Fee b)"
  shows "(\<exists>ys. b' = b @ ys \<and> set ys \<subseteq> set txs \<and> (distinct (map tx_Hash txs) \<longrightarrow> distinct (map tx_Hash ys))) \<and>
    fee' \<le> f \<and> fee' = sum_list (map tx_Fee b') \<and> sz' = 200 * length b' \<and> sz' \<le> 1000000 \<and>
    (int (length b) \<le> max 0 m \<longrightarrow> int (length b') \<le> max 0 m)"
  using assms
proof (induction m f "(b, fee, sz)" txs arbitrary: b fee sz rule: greedy_batch.induct)
  case (2 m f b fee sz tx txs)
  consider (stop) "m \<le> int (length b)" | (skip) "\<not> m \<le> int (length b)" "f < fee + tx_Fee tx \<or> 1000000 < sz + 200"
    | (take) "\<not> m \<le> int (length b)" "\<not> f < fee + tx_Fee tx" "\<not> 1000000 < sz + 200" by blast
  then show ?case
  proof cases
    case stop
    then show ?thesis using 2(4-8) by auto
  next
    case skip
    then have run: "greedy_batch m f (b, fee, sz) txs = (b', fee', sz')" using 2(4) by (simp split: if_splits)
    have "(\<exists>ys. b' = b @ ys \<and> set ys \<subseteq> set txs \<and> (distinct (map tx_Hash txs) \<longrightarrow> distinct (map tx_Hash ys))) \<and>
        fee' \<le> f \<and> fee' = sum_list (map tx_Fee b') \<and> sz' = 200 * length b' \<and> sz' \<le> 1000000 \<and>
        (int (length b) \<le> max 0 m \<longrightarrow> int (length b') \<le> max 0 m)"
      using skip run 2(1,2) 2(5-8) by blast
    then show ?thesis by auto
  next
    case take
    then have run: "greedy_batch m f (b @ [tx], fee + tx_Fee tx, sz + 200) txs = (b', fee', sz')" using 2(4) by auto
    have "(\<exists>ys. b' = (b @ [tx]) @ ys \<and> set ys \<subseteq> set txs \<and> (distinct (map tx_Hash txs) \<longrightarrow> distinct (map tx_Hash ys))) \<and>
        fee' \<le> f \<and> fee' = sum_list (map tx_Fee b') \<and> sz' = 200 * length b' \<and> sz' \<le> 1000000 \<and>
        (int (length (b @ [tx])) \<le> max 0 m \<longrightarrow> int (length b') \<le> max 0 m)"
      using take run 2(5-8) by (intro 2(3)) auto
    then obtain ys where "b' = b @ tx # ys" "set ys \<subseteq> set txs" "distinct (map tx_Hash txs) \<longrightarrow> distinct (map tx_Hash ys)"
      "fee' \<le> f" "fee' = sum_list (map tx_Fee b')" "sz' = 200 * length b'" "sz' \<le> 1000000"
      "int (length (b @ [tx])) \<le> max 0 m \<longrightarrow> int (length b') \<le> max 0 m" by auto
    then show ?thesis using take(1) by (intro conjI exI [of _ "tx # ys"]) auto
  qed
qed auto

lemma CreateOptimizedBatch_ok:
  assumes "pool_ok tp" and "B = CreateOptimizedBatch now now' tp s"
  shows "set (tb_Transactions B) \<subseteq> {tx \<in> set (GetTransactions tp). selectable s tx}"
    "distinct (map tx_Hash (tb_Transactions B))" "tb_TotalFee B \<le> tp_maxBatchFee tp"
    "tb_TotalFee B = sum_list (map tx_Fee (tb_Transactions B))" "tb_TotalSize B = 200 * length (tb_Transactions B)"
    "tb_TotalSize B \<le> 1000000" "int (length (tb_Transactions B)) \<le> max 0 (tp_maxBatchSize tp)"
proof -
  obtain b fee sz where g: "greedy_batch (tp_maxBatchSize tp) (tp_maxBatchFee tp) ([], 0, 0) (map fst (prioritized now tp s)) = (b, fee, sz)"
    by (cases "greedy_batch (tp_maxBatchSize tp) (tp_maxBatchFee tp) ([], 0, 0) (map fst (prioritized now tp s))")
  have B: "tb_Transactions B = b" "tb_TotalFee B = fee" "tb_TotalSize B = sz"
    by (simp_all add: assms(2) CreateOptimizedBatch_def g Let_def)
  note ok = greedy_batch_ok [OF g, simplified]
  show "set (tb_Transactions B) \<subseteq> {tx \<in> set (GetTransactions tp). selectable s tx}"
    using ok set_prioritized [of now tp s] by (auto simp: B)
  show "distinct (map tx_Hash (tb_Transactions B))"
    using ok prioritized_distinct [OF assms(1), of now s] by (auto simp: B)
  show "tb_TotalFee B \<le> tp_maxBatchFee tp" "tb_TotalFee B = sum_list (map tx_Fee (tb_Transactions B))"
    "tb_TotalSize B = 200 * length (tb_Transactions B)" "tb_TotalSize B \<le> 1000000"
    "int (length (tb_Transactions B)) \<le> max 0 (tp_maxBatchSize tp)"
    unfolding B using ok by blast+
qed

lemma selectable_iff:
  assumes "state_ok cr s"
  shows "selectable s tx \<longleftrightarrow> \<not> tx_Used tx \<and> tx_Nonce tx = acc_Nonce (acct s (tx_From tx)) + 1 \<and>
    tx_Value tx + tx_Fee tx \<le> acc_Balance (acct s (tx_From tx))"
  by (auto simp: selectable_def getSenderAccount_def GetAccount_ok [OF assms])

lemma check_sender_ok:
  assumes "state_ok cr s"
  shows "check_sender cr s tx pk =
    (let a = acct s (pubKeyToAddress cr pk)
     in (if tx_Nonce tx \<noteq> acc_Nonce a + 1 then Some (ErrInvalidNonce (tx_Nonce tx) (acc_Nonce a + 1))
         else if acc_Balance a < tx_Value tx + tx_Fee tx then Some (ErrInsufficientFunds (tx_Value tx + tx_Fee tx) (acc_Balance a))
         else None, s))"
  by (simp add: check_sender_def GetAccount_ok [OF assms] Let_def)

section \<open>Marking\<close>

lemma Mark_get:
  "go_get (tp_transactions (MarkTransactionAsUsed tp h)) k =
     (if k = h then map_option (\<lambda>tx. tx\<lparr>tx_Used := True\<rparr>) (go_get (tp_transactions tp) k) else go_get (tp_transactions tp) k)"
  by (auto simp: MarkTransactionAsUsed_def split: option.split)

lemma Mark_all_get:
  "go_get (tp_transactions (foldl (\<lambda>tp tx. MarkTransactionAsUsed tp (tx_Hash tx)) tp txs)) k =
     (if k \<in> tx_Hash ` set txs then map_option (\<lambda>tx. tx\<lparr>tx_Used := True\<rparr>) (go_get (tp_transactions tp) k)
      else go_get (tp_transactions tp) k)"
proof (induction txs arbitrary: tp)
  case (Cons tx txs)
  then show ?case by (cases "go_get (tp_transactions tp) k") (auto simp: Mark_get)
qed simp

lemma pool_ok_Mark_all: "pool_ok tp \<Longrightarrow> pool_ok (foldl (\<lambda>tp tx. MarkTransactionAsUsed tp (tx_Hash tx)) tp txs)"
  by (induction txs arbitrary: tp) (auto intro: pool_ok_Mark)

lemma NextBatch_ok:
  assumes ok: "pool_ok tp" and nb: "NextBatch now now' tb tp s = (txs, tp')"
  shows "pool_ok tp'" "set txs \<subseteq> (\<lambda>tx. tx\<lparr>tx_Used := True\<rparr>) ` {tx \<in> set (GetTransactions tp). selectable s tx}"
    "distinct (map tx_Hash txs)" "length txs \<le> tbr_batchSize tb"
    "\<And>k. go_get (tp_transactions tp') k =
      (if k \<in> tx_Hash ` set txs then map_option (\<lambda>tx. tx\<lparr>tx_Used := True\<rparr>) (go_get (tp_transactions tp) k)
       else go_get (tp_transactions tp) k)"
proof -
  let ?B = "tb_Transactions (CreateOptimizedBatch now now' tp s)"
  let ?sel = "take (min (tbr_batchSize tb) (length ?B)) ?B"
  have eq: "txs = map (\<lambda>tx. tx\<lparr>tx_Used := True\<rparr>) ?sel" "tp' = foldl (\<lambda>tp tx. MarkTransactionAsUsed tp (tx_Hash tx)) tp ?sel"
    using nb by (auto simp: NextBatch_def Let_def split: if_splits)
  note B = CreateOptimizedBatch_ok [OF ok refl, of now now' s]
  show "pool_ok tp'" using ok by (simp add: eq pool_ok_Mark_all)
  have "set ?sel \<subseteq> set ?B" by (rule set_take_subset)
  then show "set txs \<subseteq> (\<lambda>tx. tx\<lparr>tx_Used := True\<rparr>) ` {tx \<in> set (GetTransactions tp). selectable s tx}"
    using B(1) by (auto simp: eq)
  have "distinct (map tx_Hash ?sel)" using B(2) by (metis distinct_take take_map)
  then show "distinct (map tx_Hash txs)" by (simp add: eq comp_def)
  show "length txs \<le> tbr_batchSize tb" by (simp add: eq)
  show "go_get (tp_transactions tp') k =
      (if k \<in> tx_Hash ` set txs then map_option (\<lambda>tx. tx\<lparr>tx_Used := True\<rparr>) (go_get (tp_transactions tp) k)
       else go_get (tp_transactions tp) k)" for k
  proof -
    have "tx_Hash ` set txs = tx_Hash ` set ?sel" by (simp add: eq image_image)
    then show ?thesis by (simp add: eq(2) Mark_all_get)
  qed
qed

section \<open>A concrete pool\<close>

definition key_state :: "u64 \<Rightarrow> State" where
  "key_state x = PutAccount demo_crypto NewState
     \<lparr>acc_Address = pubKeyToAddress demo_crypto (pub_key demo_crypto ''key''), acc_Balance = x, acc_Nonce = 0\<rparr>"

lemma key_state_ok: "state_ok demo_crypto (key_state x)"
  by (simp add: key_state_def state_ok_PutAccount state_ok_New)

lemma acct_key_state: "acct (key_state x) (pubKeyToAddress demo_crypto (pub_key demo_crypto ''key'')) =
    \<lparr>acc_Address = pubKeyToAddress demo_crypto (pub_key demo_crypto ''key''), acc_Balance = x, acc_Nonce = 0\<rparr>"
  by (simp add: key_state_def)

definition demo_pool :: "hash list \<Rightarrow> TransactionPool" where
  "demo_pool hs = foldl (\<lambda>tp h. put_tx tp (demo_tx\<lparr>tx_Value := 0, tx_Hash := h\<rparr>)) NewTransactionPool hs"

lemma demo_pool_ok: "pool_ok (demo_pool hs)"
  by (induction hs rule: rev_induct) (simp_all add: demo_pool_def pool_ok_New pool_ok_put)

lemma GetTransactions_New: "GetTransactions NewTransactionPool = []"
  by (simp add: GetTransactions_def NewTransactionPool_def)

lemma demo_tx_fields:
  "tx_Type demo_tx = ''transfer''" "tx_Nonce demo_tx = 1" "tx_Value demo_tx = 30" "tx_Fee demo_tx = 5" "tx_To demo_tx = 2"
  by (simp_all add: demo_tx_def)

lemma demo_selectable: "selectable demo_state (demo_tx\<lparr>tx_Value := 0, tx_Hash := h\<rparr>)"
  by (simp add: selectable_iff [OF demo_state_ok] acct_demo_state) (simp add: demo_tx_def word_le_nat_alt)

lemma demo_batch: "tb_Transactions (CreateOptimizedBatch now now' (demo_pool [1, 2]) demo_state) =
    [demo_tx\<lparr>tx_Value := 0, tx_Hash := 1\<rparr>, demo_tx\<lparr>tx_Value := 0, tx_Hash := 2\<rparr>]"
proof -
  have tp: "tp_transactions (demo_pool [1, 2]) =
      [(1, demo_tx\<lparr>tx_Value := 0, tx_Hash := 1\<rparr>), (2, demo_tx\<lparr>tx_Value := 0, tx_Hash := 2\<rparr>)]"
    and cfg: "tp_maxBatchSize (demo_pool [1, 2]) = 100" "tp_maxBatchFee (demo_pool [1, 2]) = 1000"
    by (simp_all add: demo_pool_def put_tx_def NewTransactionPool_def)
  have "map fst (prioritized now (demo_pool [1, 2]) demo_state) =
      [demo_tx\<lparr>tx_Value := 0, tx_Hash := 1\<rparr>, demo_tx\<lparr>tx_Value := 0, tx_Hash := 2\<rparr>]"
    by (simp add: prioritized_def tp demo_selectable sort_slice_def calculatePriority_def)
  then show ?thesis
    by (simp add: CreateOptimizedBatch_def cfg Let_def) (simp add: demo_tx_def word_less_nat_alt)
qed

section \<open>Properties\<close>

text \<open>
  C27: Admission to the pool.  What \<^verbatim>\<open>AddTransaction\<close> answers is decided by one order of checks: the
  signature; for a participation, a registration and a delegation, whether the pool has the hash already;
  for a registration and a delegation, whether the value is zero; then, unless it is a participation, whether the
  nonce is the next one of the account of the signing key and whether that account covers value plus fee
  (a wrapping sum); and for all other types, last, whether the pool has the hash.  The first check that
  fails determines the error, with the numbers it reports.  A transaction that fails none is
  added under its hash, a rejected one changes nothing; the account state is never changed.
\<close>

theorem pool_admission:
  assumes "state_ok cr s" "pool_ok tp" and "Pool_AddTransaction cr tp tx pk s = (e, tp', s')"
    and "sender = acct s (pubKeyToAddress cr pk)" and "dup \<longleftrightarrow> tx_Hash tx \<in> tx_Hash ` set (GetTransactions tp)"
  shows "s' = s \<and> pool_ok tp' \<and>
    e = (if \<not> Transaction_Verify cr tx pk then Some ErrInvalidSignature
         else if dup \<and> tx_Type tx \<in> {''participation'', ''register_validator'', ''delegate''} then Some ErrAlreadyInPool
         else if tx_Type tx = ''participation'' then None
         else if tx_Value tx = 0 \<and> tx_Type tx = ''register_validator'' then Some ErrZeroStake
         else if tx_Value tx = 0 \<and> tx_Type tx = ''delegate'' then Some ErrZeroDelegation
         else if tx_Nonce tx \<noteq> acc_Nonce sender + 1 then Some (ErrInvalidNonce (tx_Nonce tx) (acc_Nonce sender + 1))
         else if acc_Balance sender < tx_Value tx + tx_Fee tx
         then Some (ErrInsufficientFunds (tx_Value tx + tx_Fee tx) (acc_Balance sender))
         else if dup then Some ErrAlreadyInPool
         else None) \<and>
    (e = None \<longleftrightarrow> Transaction_Verify cr tx pk \<and> tx_Hash tx \<notin> tx_Hash ` set (GetTransactions tp) \<and>
      (tx_Type tx \<noteq> ''participation'' \<longrightarrow>
         tx_Nonce tx = acc_Nonce (acct s (pubKeyToAddress cr pk)) + 1 \<and>
         tx_Value tx + tx_Fee tx \<le> acc_Balance (acct s (pubKeyToAddress cr pk)) \<and>
         (tx_Type tx \<in> {''register_validator'', ''delegate''} \<longrightarrow> tx_Value tx \<noteq> 0))) \<and>
    (if e = None then \<forall>h. go_get (tp_transactions tp') h = (if h = tx_Hash tx then Some tx else go_get (tp_transactions tp) h)
     else tp' = tp)"
    (is "_ \<and> _ \<and> e = ?answer \<and> ?accepted \<and> ?effect")
proof -
  have ok: "pool_ok tp'" using pool_ok_Add [OF assms(2), of cr tx pk s] assms(3) by simp
  have effect: "e = None \<Longrightarrow> tp' = put_tx tp tx" "e \<noteq> None \<Longrightarrow> tp' = tp" "s' = s"
    using assms(3) by (auto simp: Pool_AddTransaction_def check_sender_ok [OF assms(1)] Let_def split: if_splits)
  have dup: "in_pool tp (tx_Hash tx) \<longleftrightarrow> dup" using in_pool_iff [OF assms(2)] assms(5) by simp
  have "fst (Pool_AddTransaction cr tp tx pk s) = ?answer"
    by (simp add: Pool_AddTransaction_def check_sender_ok [OF assms(1)] Let_def dup assms(4))
  then have answer: "e = ?answer" using assms(3) by simp
  have accepted: ?accepted unfolding answer using assms(4,5) by (simp add: not_less) (auto simp: not_less [symmetric])
  have ?effect using effect(1,2) by (simp add: put_tx_def)
  then show ?thesis by (intro conjI effect(3) ok answer accepted)
qed

theorem pool_admission_witness:
  "fst (Pool_AddTransaction demo_crypto NewTransactionPool (Transaction_Sign demo_crypto demo_tx ''key'')
     (pub_key demo_crypto ''key'') (key_state 100)) = None \<and>
   fst (Pool_AddTransaction demo_crypto NewTransactionPool (Transaction_Sign demo_crypto demo_tx ''key'')
     (pub_key demo_crypto ''key'') (key_state 10)) = Some (ErrInsufficientFunds 35 10)"
proof -
  let ?r = "\<lambda>x. Pool_AddTransaction demo_crypto NewTransactionPool (Transaction_Sign demo_crypto demo_tx ''key'')
     (pub_key demo_crypto ''key'') (key_state x)"
  have r: "?r x = (fst (?r x), fst (snd (?r x)), snd (snd (?r x)))" for x by simp
  have "fst (?r 100) = None" "fst (?r 10) = Some (ErrInsufficientFunds 35 10)"
    using pool_admission [OF key_state_ok pool_ok_New r refl refl] Verify_Sign [OF ecdsa_ok_demo, of demo_tx "''key''"]
    by (simp_all add: acct_key_state GetTransactions_New demo_tx_fields word_less_nat_alt)
  then show ?thesis by simp
qed

text \<open>
  C26: A batch holds only transactions that are valid now.  Every transaction of
  \<^verbatim>\<open>CreateOptimizedBatch\<close> is an unused pool transaction with its sender's next nonce and a covered
  cost, none occurs twice, the batch respects the size limits, and its total fee, the 64-bit sum
  of its fees, respects the fee limit.
\<close>

theorem batch_is_valid:
  assumes "state_ok cr s" "pool_ok tp" and "B = CreateOptimizedBatch now now' tp s"
  shows "(\<forall>tx \<in> set (tb_Transactions B). tx \<in> set (GetTransactions tp) \<and> \<not> tx_Used tx \<and>
      tx_Nonce tx = acc_Nonce (acct s (tx_From tx)) + 1 \<and>
      tx_Value tx + tx_Fee tx \<le> acc_Balance (acct s (tx_From tx))) \<and>
    distinct (map tx_Hash (tb_Transactions B)) \<and>
    int (length (tb_Transactions B)) \<le> max 0 (tp_maxBatchSize tp) \<and>
    tb_TotalSize B = 200 * length (tb_Transactions B) \<and> tb_TotalSize B \<le> 1000000 \<and>
    tb_TotalFee B = sum_list (map tx_Fee (tb_Transactions B)) \<and> tb_TotalFee B \<le> tp_maxBatchFee tp"
  using CreateOptimizedBatch_ok [OF assms(2,3)] selectable_iff [OF assms(1)] by auto

theorem batch_is_valid_witness:
  "tb_TotalFee (CreateOptimizedBatch (\<lambda>tx. 9) (\<lambda>tx. 9) (demo_pool [1, 2]) demo_state) \<le> 1000 \<and>
   tb_TotalSize (CreateOptimizedBatch (\<lambda>tx. 9) (\<lambda>tx. 9) (demo_pool [1, 2]) demo_state) = 400"
  using batch_is_valid [OF demo_state_ok demo_pool_ok refl, of "\<lambda>tx. 9" "\<lambda>tx. 9" "[1, 2]"]
  by (simp add: demo_batch demo_tx_fields word_le_nat_alt)

text \<open>
  No transaction is handed out twice.  After \<^verbatim>\<open>NextBatch\<close> its transactions are marked as used,
  and no later batch from that pool, at any time and against any state, contains one of them;
  the other transactions of the pool are left alone.
\<close>

theorem next_batch_never_repeats:
  assumes "pool_ok tp" "NextBatch now now' tb tp s = (txs, tp')"
  shows "length txs \<le> tbr_batchSize tb \<and> (\<forall>tx \<in> set txs. tx_Used tx) \<and>
    tx_Hash ` set txs \<inter> tx_Hash ` set (fst (NextBatch now2 now2' tb2 tp' s2)) = {} \<and>
    (\<forall>h. h \<notin> tx_Hash ` set txs \<longrightarrow> go_get (tp_transactions tp') h = go_get (tp_transactions tp) h)"
proof -
  note N = NextBatch_ok [OF assms]
  obtain txs2 tp2 where nb2: "NextBatch now2 now2' tb2 tp' s2 = (txs2, tp2)" by fastforce
  note N2 = NextBatch_ok [OF N(1) nb2]
  have "h \<notin> tx_Hash ` set txs2" if h: "h \<in> tx_Hash ` set txs" for h
  proof
    assume "h \<in> tx_Hash ` set txs2"
    then obtain t where t: "t \<in> set (GetTransactions tp')" "selectable s2 t" "tx_Hash t = h" using N2(2) by fastforce
    then have "go_get (tp_transactions tp') h = Some t" using GetTransactions_iff [OF N(1)] by auto
    then have "tx_Used t" using N(5) [of h] h by auto
    then show False using t(2) by (simp add: selectable_def)
  qed
  then show ?thesis using N(2,4,5) by (auto simp: nb2)
qed

theorem next_batch_never_repeats_witness:
  "tx_Hash ` set (fst (NextBatch (\<lambda>tx. 9) (\<lambda>tx. 9) (NewTransactionBatcher 1 0) (demo_pool [1, 2]) demo_state)) \<inter>
   tx_Hash ` set (fst (NextBatch (\<lambda>tx. 9) (\<lambda>tx. 9) (NewTransactionBatcher 5 0)
     (snd (NextBatch (\<lambda>tx. 9) (\<lambda>tx. 9) (NewTransactionBatcher 1 0) (demo_pool [1, 2]) demo_state)) demo_state)) = {}"
  using next_batch_never_repeats [OF demo_pool_ok surjective_pairing] by blast

text \<open>
  A batch with two transactions of one sender cannot be applied.  All of a batch's
  transactions carry their sender's next nonce, so when two of them have the same sender
  \<^verbatim>\<open>ApplyBlock\<close> returns an error for every block made of them.
\<close>

theorem batch_with_repeated_sender_fails:
  assumes "state_ok cr s" "pool_ok tp" and "blk_Transactions b = tb_Transactions (CreateOptimizedBatch now now' tp s)"
    and "i < j" "j < length (blk_Transactions b)" "tx_From (blk_Transactions b ! i) = tx_From (blk_Transactions b ! j)"
  shows "fst (ApplyBlock cr s b) \<noteq> None"
proof
  assume none: "fst (ApplyBlock cr s b) = None"
  let ?txs = "blk_Transactions b" and ?a = "tx_From (blk_Transactions b ! i)"
  obtain s' where "ApplyBlock cr s b = (None, s')" using none by (metis prod.collapse)
  then have "ledger_run (acct s) ?txs = (None, acct s')"
    using apply_transactions_refines [OF assms(1), of ?txs] by (simp add: ApplyBlock_def)
  note seq = ledger_run_nonces [OF this, of ?a]
  have all: "\<forall>n \<in> set (nonces_of ?a ?txs). n = acc_Nonce (acct s ?a) + 1"
    using CreateOptimizedBatch_ok(1) [OF assms(2) refl, of now now' s] selectable_iff [OF assms(1)] assms(3)
    by (auto simp: nonces_of_def)
  have "2 \<le> length (nonces_of ?a ?txs)"
  proof -
    have "{i, j} \<subseteq> {k. k < length ?txs \<and> tx_From (?txs ! k) = ?a}" using assms(4-6) by auto
    then have "card {i, j} \<le> card {k. k < length ?txs \<and> tx_From (?txs ! k) = ?a}" by (intro card_mono) auto
    then show ?thesis using assms(4) by (simp add: nonces_of_def length_filter_conv_card)
  qed
  then have "nonces_of ?a ?txs ! 1 = acc_Nonce (acct s ?a) + 1" using all by simp
  moreover have "nonces_of ?a ?txs ! 1 = acc_Nonce (acct s ?a) + of_nat 1 + 1"
    using \<open>2 \<le> _\<close> by (subst conjunct1 [OF seq]) simp
  ultimately show False by simp
qed

theorem batch_with_repeated_sender_fails_witness:
  "fst (ApplyBlock demo_crypto demo_state
     (demo_block (tb_Transactions (CreateOptimizedBatch (\<lambda>tx. 9) (\<lambda>tx. 9) (demo_pool [1, 2]) demo_state)))) \<noteq> None"
proof (rule batch_with_repeated_sender_fails [OF demo_state_ok demo_pool_ok, where i = 0 and j = 1])
  let ?b = "demo_block (tb_Transactions (CreateOptimizedBatch (\<lambda>tx. 9) (\<lambda>tx. 9) (demo_pool [1, 2]) demo_state))"
  show "blk_Transactions ?b = tb_Transactions (CreateOptimizedBatch (\<lambda>tx. 9) (\<lambda>tx. 9) (demo_pool [1, 2]) demo_state)"
    by (simp add: demo_block_def NewBlock_def)
  show "1 < length (blk_Transactions ?b)" "tx_From (blk_Transactions ?b ! 0) = tx_From (blk_Transactions ?b ! 1)"
    by (simp_all add: demo_block_def NewBlock_def demo_batch)
qed simp

text \<open>
  The pool does not tie a transaction to its sender.  A transaction that claims any address
  as its sender, signed with an unrelated key, is admitted as long as the account of the
  signing key has the right nonce and enough money; for a participation not even that.
\<close>

theorem pool_accepts_foreign_sender:
  assumes "state_ok cr s" "pool_ok tp" "ecdsa_ok cr"
    and "tx_Type t = ''transfer''" and "tx_Nonce t = acc_Nonce (acct s (pubKeyToAddress cr (pub_key cr sk))) + 1"
    and "tx_Value t + tx_Fee t \<le> acc_Balance (acct s (pubKeyToAddress cr (pub_key cr sk)))"
    and "tx_Hash (Transaction_Sign cr (t\<lparr>tx_From := victim\<rparr>) sk) \<notin> tx_Hash ` set (GetTransactions tp)"
  shows "\<exists>tp'. Pool_AddTransaction cr tp (Transaction_Sign cr (t\<lparr>tx_From := victim\<rparr>) sk) (pub_key cr sk) s = (None, tp', s) \<and>
    (\<exists>tx \<in> set (GetTransactions tp'). tx_From tx = victim \<and> tx_Value tx = tx_Value t \<and> tx_To tx = tx_To t)"
proof -
  let ?tx = "Transaction_Sign cr (t\<lparr>tx_From := victim\<rparr>) sk"
  have f: "tx_Type ?tx = ''transfer''" "tx_Nonce ?tx = tx_Nonce t" "tx_Value ?tx = tx_Value t" "tx_Fee ?tx = tx_Fee t"
    "tx_From ?tx = victim" "tx_To ?tx = tx_To t" by (simp_all add: assms(4))
  have "\<not> in_pool tp (tx_Hash ?tx)" using assms(7) in_pool_iff [OF assms(2)] by blast
  then have add: "Pool_AddTransaction cr tp ?tx (pub_key cr sk) s = (None, put_tx tp ?tx, s)"
    using Verify_Sign [OF assms(3)] assms(5,6)
    by (simp add: Pool_AddTransaction_def check_sender_ok [OF assms(1)] Let_def assms(4) not_less [symmetric])
  have "?tx \<in> set (GetTransactions (put_tx tp ?tx))"
    using GetTransactions_iff [OF pool_ok_put [OF assms(2)], of ?tx ?tx] by (simp add: put_tx_def)
  with add f show ?thesis by blast
qed

theorem pool_accepts_foreign_sender_witness:
  "\<exists>tp'. Pool_AddTransaction demo_crypto NewTransactionPool (Transaction_Sign demo_crypto (demo_tx\<lparr>tx_From := 77\<rparr>) ''key'')
      (pub_key demo_crypto ''key'') (key_state 100) = (None, tp', key_state 100) \<and>
    (\<exists>tx \<in> set (GetTransactions tp'). tx_From tx = 77 \<and> tx_Value tx = 30 \<and> tx_To tx = 2)"
  using pool_accepts_foreign_sender [OF key_state_ok [of 100] pool_ok_New ecdsa_ok_demo,
    where t = demo_tx and sk = "''key''" and victim = 77]
  by (simp add: acct_key_state demo_tx_fields GetTransactions_New word_le_nat_alt)

end
