(* ===== verification/Node_Base.thy ===== *)
theory Node_Base
  imports P2p Metrics Blockchain Block_Approval Transaction_Pool
begin

text \<open>
  The state of a node: the \<^verbatim>\<open>AppNode\<close> struct of \<^verbatim>\<open>node.go\<close> with the managers it owns (whose
  methods act on the node through their \<^verbatim>\<open>node\<close> pointer, so that they are functions on \<open>AppNode\<close>
  in the later theories), and its constructors.

  What a node needs from outside is the record \<open>env\<close>: the cryptography, the storage engine,
  libp2p, Go's seeded permutations and the clock, read once per handler.  Goroutines that a
  handler starts are entries of \<open>n_tasks\<close>; the step relation of \<open>App_Node\<close> runs them in any
  order.
\<close>

section \<open>The managers\<close>

text \<open>A channel that is only ever closed, to end the goroutines that wait for it.\<close>

datatype chan = NilChan | OpenChan | ClosedChan

text \<open>The built-in \<^verbatim>\<open>close\<close>, which panics unless the channel is open.\<close>

definition close :: "chan \<Rightarrow> chan option" where
  "close c = (if c = OpenChan then Some ClosedChan else None)"

record HandshakeManager =
  hm_round :: u64
  hm_roundSeed :: bytes
  hm_nonce :: u64

record InactivityRecord =
  ir_PeerID :: peerID
  ir_FirstReported :: gtime
  ir_LastReported :: gtime
  ir_ReportCount :: int
  ir_Reporters :: "peerID list"
  ir_Reasons :: "string list"
  ir_Evidence :: "string list"

record InactivityMonitor =
  im_records :: "(peerID, InactivityRecord) gomap"
  im_isSeedNode :: bool
  im_seedNodeThreshold :: int
  im_stopChan :: chan

record FastSyncManager =
  fsm_peers :: "string list"
  fsm_isSyncing :: bool

text \<open>The goroutines a running node may have: polls of an approval, finalizations, a fast sync.\<close>

datatype task = WatchApproval Block | FinalizeBlock Block | FastSync

section \<open>The node\<close>

record 's AppNode =
  n_p2p :: P2PNode
  n_bc :: "'s Blockchain"
  n_state :: State
  n_txPool :: TransactionPool
  n_vr :: "'s ValidatorRegistry"
  n_privKey :: privkey
  n_address :: address
  n_barNet :: BARNetwork
  n_handshakeManager :: HandshakeManager
  n_inactivityMonitor :: InactivityMonitor
  n_proposerSelector :: "ProposerSelector option"
  n_committee :: "Validator list"
  n_pendingBlocks :: "(hash, BlockApproval) gomap"
  n_approvalBuffer :: "(hash, Approval list) gomap"
  n_inactivity :: "(address, int) gomap"
  n_metrics :: MetricsCollector
  n_syncDone :: chan
  n_fastSyncManager :: FastSyncManager
  n_transactionBatcher :: TransactionBatcher
  n_tasks :: "task list"

record 's env =
  e_cr :: crypto
  e_st :: "'s Storage"
  e_lp :: libp2p
  e_perm :: "nat \<Rightarrow> nat list"
  e_now :: gtime

definition now64 :: "'s env \<Rightarrow> i64" where
  "now64 e = word_of_int (e_now e)"

text \<open>\<^verbatim>\<open>hm.node.p2p.Publish\<close> and the update of a peer's score, on the node.\<close>

definition node_publish :: "'s env \<Rightarrow> 's AppNode \<Rightarrow> string \<Rightarrow> bytes \<Rightarrow> gerror option \<times> 's AppNode" where
  "node_publish e n topic dat =
     (case Publish (e_lp e) (n_p2p n) topic dat of (err, p) \<Rightarrow> (err, n\<lparr>n_p2p := p\<rparr>))"

definition penalize :: "'s env \<Rightarrow> 's AppNode \<Rightarrow> peerID \<Rightarrow> int \<Rightarrow> string \<Rightarrow> 's AppNode" where
  "penalize e n peer increment reason =
     n\<lparr>n_barNet := UpdatePOMScore (e_now e) (n_barNet n) peer increment reason\<rparr>"

definition NewHandshakeManager :: "'s env \<Rightarrow> HandshakeManager" where
  "NewHandshakeManager e = \<lparr>hm_round = 0, hm_roundSeed = [], hm_nonce = now64 e\<rparr>"

definition NewInactivityMonitor :: "bool \<Rightarrow> InactivityMonitor" where
  "NewInactivityMonitor isSeedNode = \<lparr>im_records = [], im_isSeedNode = isSeedNode, im_seedNodeThreshold = 3,
     im_stopChan = OpenChan\<rparr>"

definition NewFastSyncManager :: FastSyncManager where
  "NewFastSyncManager = \<lparr>fsm_peers = [], fsm_isSyncing = False\<rparr>"

text \<open>The result of \<^verbatim>\<open>NewP2PNode\<close> and the random seed of the BAR network are arguments.\<close>

definition NewAppNodeWithStores ::
  "'s env \<Rightarrow> P2PNode option \<Rightarrow> bytes \<Rightarrow> privkey \<Rightarrow> 's \<Rightarrow> 's \<Rightarrow> gerror + 's AppNode" where
  "NewAppNodeWithStores e p2p seed privKey chainStore validatorStore =
     (case NewBlockchain (e_cr e) (e_st e) chainStore of
        Inl err \<Rightarrow> Inl (ErrWrapped ''failed to create blockchain'' err)
      | Inr bc \<Rightarrow>
          (case ClearAllValidators (e_st e) (NewValidatorRegistry validatorStore ''validators'') of
             (Some err, _) \<Rightarrow> Inl (ErrWrapped ''failed to clear validator registry'' err)
           | (None, vr) \<Rightarrow>
               (case p2p of
                  None \<Rightarrow> Inl (ErrWrapped ''failed to create P2P node'' (ErrConnect []))
                | Some p \<Rightarrow>
                    let addr = pubKeyToAddress (e_cr e) (pub_key (e_cr e) privKey)
                    in (case RegisterValidator (e_st e) vr (Some (new_validator addr 100)) of
                          (Some err, _) \<Rightarrow> Inl (ErrWrapped ''failed to register self as validator'' err)
                        | (None, vr') \<Rightarrow>
                            Inr \<lparr>n_p2p = p, n_bc = bc,
                                 n_state = PutAccount (e_cr e) NewState \<lparr>acc_Address = addr, acc_Balance = 1000, acc_Nonce = 0\<rparr>,
                                 n_txPool = NewTransactionPool, n_vr = vr', n_privKey = privKey, n_address = addr,
                                 n_barNet = SetOnPeerStatusChange (NewBARNetwork seed None),
                                 n_handshakeManager = NewHandshakeManager e,
                                 n_inactivityMonitor = NewInactivityMonitor False,
                                 n_proposerSelector = None, n_committee = [], n_pendingBlocks = [],
                                 n_approvalBuffer = [], n_inactivity = [], n_metrics = NewMetricsCollector (e_now e), n_syncDone = NilChan,
                                 n_fastSyncManager = NewFastSyncManager,
                                 n_transactionBatcher = NewTransactionBatcher 100 5000000000, n_tasks = []\<rparr>))))"

text \<open>\<^verbatim>\<open>NewAppNode\<close> opens the two databases first; a failure of the second closes the first.\<close>

definition NewAppNode ::
  "'d BoltStore env \<Rightarrow> 'd bbolt \<Rightarrow> string + 'd \<Rightarrow> string + 'd \<Rightarrow> string \<Rightarrow> P2PNode option \<Rightarrow> bytes \<Rightarrow> privkey \<Rightarrow>
   gerror + 'd BoltStore AppNode" where
  "NewAppNode e B chainDb validatorDb dbPath p2p seed privKey =
     (case NewBoltStore B chainDb dbPath ''chain'' of
        Inl err \<Rightarrow> Inl (ErrWrapped ''failed to open chain store'' err)
      | Inr chainStore \<Rightarrow>
          (case NewBoltStore B validatorDb (dbPath @ ''.validators'') ''validators'' of
             Inl err \<Rightarrow> Inl (ErrWrapped ''failed to open validator store'' err)
           | Inr validatorStore \<Rightarrow> NewAppNodeWithStores e p2p seed privKey chainStore validatorStore))"

section \<open>Frame facts\<close>

lemma node_publish_frame [simp]:
  "n_barNet (snd (node_publish e n t d)) = n_barNet n" "n_bc (snd (node_publish e n t d)) = n_bc n"
  "n_state (snd (node_publish e n t d)) = n_state n" "n_txPool (snd (node_publish e n t d)) = n_txPool n"
  "n_vr (snd (node_publish e n t d)) = n_vr n" "n_tasks (snd (node_publish e n t d)) = n_tasks n"
  "n_pendingBlocks (snd (node_publish e n t d)) = n_pendingBlocks n"
  "n_approvalBuffer (snd (node_publish e n t d)) = n_approvalBuffer n"
  "n_committee (snd (node_publish e n t d)) = n_committee n"
  "n_proposerSelector (snd (node_publish e n t d)) = n_proposerSelector n"
  "n_address (snd (node_publish e n t d)) = n_address n" "n_privKey (snd (node_publish e n t d)) = n_privKey n"
  "n_handshakeManager (snd (node_publish e n t d)) = n_handshakeManager n"
  "n_inactivityMonitor (snd (node_publish e n t d)) = n_inactivityMonitor n"
  "n_metrics (snd (node_publish e n t d)) = n_metrics n"
  "n_fastSyncManager (snd (node_publish e n t d)) = n_fastSyncManager n"
  "p2p_ID (n_p2p (snd (node_publish e n t d))) = p2p_ID (n_p2p n)"
  "p2p_topics (n_p2p (snd (node_publish e n t d))) = p2p_topics (n_p2p n)"
  "p2p_subs (n_p2p (snd (node_publish e n t d))) = p2p_subs (n_p2p n)"
  by (simp_all add: node_publish_def split_beta)

lemma node_publish_sent:
  "p2p_sent (n_p2p (snd (node_publish e n t d))) =
     p2p_sent (n_p2p n) @ (if t \<in> set (p2p_topics (n_p2p n)) \<and> lp_publish (e_lp e) t d then [(t, d)] else [])"
  using Publish_sent [of "e_lp e" "n_p2p n" t d] by (simp add: node_publish_def split_beta)

lemma node_publish_ok_iff:
  "fst (node_publish e n t d) = None \<longleftrightarrow> t \<in> set (p2p_topics (n_p2p n)) \<and> lp_publish (e_lp e) t d"
  using Publish_ok_iff [of "e_lp e" "n_p2p n" t d] by (simp add: node_publish_def split_beta)

section \<open>A concrete node\<close>

definition demo_env :: "MemoryStore env" where
  "demo_env = \<lparr>e_cr = demo_crypto, e_st = MemoryStore_ops, e_lp = demo_libp2p, e_perm = (\<lambda>k. [0..<k]), e_now = 7\<rparr>"

lemma demo_env_simps [simp]:
  "e_cr demo_env = demo_crypto" "e_st demo_env = MemoryStore_ops" "e_lp demo_env = demo_libp2p"
  "e_perm demo_env k = [0..<k]" "e_now demo_env = 7"
  by (simp_all add: demo_env_def)

definition demo_node :: "string list \<Rightarrow> peerID \<Rightarrow> bytes \<Rightarrow> MemoryStore AppNode" where
  "demo_node topics peer seed =
     \<lparr>n_p2p = \<lparr>p2p_ID = peer, p2p_Addrs = [''addr''], p2p_topics = topics, p2p_subs = [], p2p_bandwidthIn = 0,
               p2p_bandwidthOut = 0, p2p_sent = []\<rparr>,
      n_bc = demo_chain, n_state = demo_state, n_txPool = NewTransactionPool, n_vr = demo_registry demo_committee,
      n_privKey = ''key'', n_address = 1, n_barNet = NewBARNetwork seed None,
      n_handshakeManager = NewHandshakeManager demo_env, n_inactivityMonitor = NewInactivityMonitor False,
      n_proposerSelector = None, n_committee = demo_committee, n_pendingBlocks = [], n_approvalBuffer = [],
      n_inactivity = [], n_metrics = NewMetricsCollector 7, n_syncDone = NilChan, n_fastSyncManager = NewFastSyncManager,
      n_transactionBatcher = NewTransactionBatcher 100 5000000000, n_tasks = []\<rparr>"

end
