(* ===== verification/Handshake.thy ===== *)
theory Handshake
  imports Node_Base
begin

text \<open>
  \<^verbatim>\<open>handshake.go\<close>: the ping, pong and ack messages by which a node decides which of its greylisted
  peers to trust.  A peer is promoted to the whitelist only by \<open>handlePong\<close>, and a ping is
  answered only if its sender is selected for the round, that is, whitelisted already.

  The identifiers in a message are written by libp2p as text; a member that is present must
  be the text of an identifier, which the empty string is not.
\<close>

section \<open>Messages\<close>

record HandshakeMessage =
  hs_Type :: string
  hs_From :: peerID
  hs_To :: peerID
  hs_Round :: u64
  hs_RoundSeed :: bytes
  hs_Timestamp :: i64
  hs_ClientVersion :: string
  hs_AddrReceived :: string
  hs_AddrFrom :: string
  hs_LastRound :: u64
  hs_Nonce :: u64

definition HandshakeTopic :: string where
  "HandshakeTopic = ''/dyphira/handshake/v1''"

definition peer_json :: "libp2p \<Rightarrow> peerID \<Rightarrow> json" where
  "peer_json lp p = JStr (lp_peer_encode lp p)"

text \<open>A missing member is the empty identifier; \<^verbatim>\<open>null\<close> is read as the empty text.\<close>

definition json_peer :: "libp2p \<Rightarrow> (string \<times> json) list \<Rightarrow> string \<Rightarrow> peerID option" where
  "json_peer lp kvs name =
     foldl (\<lambda>acc (k, v).
        if acc = None then None
        else if lower k = lower name then
          (case v of JStr s \<Rightarrow> lp_peer_decode lp s | JNull \<Rightarrow> lp_peer_decode lp [] | _ \<Rightarrow> None)
        else acc) (Some []) kvs"

definition handshake_json :: "libp2p \<Rightarrow> HandshakeMessage \<Rightarrow> json" where
  "handshake_json lp m = JObj
     [(''type'', JStr (hs_Type m)),
      (''from'', peer_json lp (hs_From m)),
      (''to'', peer_json lp (hs_To m)),
      (''round'', u64_json (hs_Round m)),
      (''round_seed'', slice_json (hs_RoundSeed m)),
      (''timestamp'', i64_json (hs_Timestamp m)),
      (''client_version'', JStr (hs_ClientVersion m)),
      (''addr_received'', JStr (hs_AddrReceived m)),
      (''addr_from'', JStr (hs_AddrFrom m)),
      (''last_round'', u64_json (hs_LastRound m)),
      (''nonce'', u64_json (hs_Nonce m))]"

definition json_handshake :: "libp2p \<Rightarrow> json \<Rightarrow> HandshakeMessage option" where
  "json_handshake lp v = do {
     kvs \<leftarrow> members v;
     ty \<leftarrow> json_str (field kvs ''type'');
     from \<leftarrow> json_peer lp kvs ''from'';
     to \<leftarrow> json_peer lp kvs ''to'';
     r \<leftarrow> json_u64 (field kvs ''round'');
     seed \<leftarrow> json_slice (field kvs ''round_seed'');
     ts \<leftarrow> json_i64 (field kvs ''timestamp'');
     cv \<leftarrow> json_str (field kvs ''client_version'');
     ar \<leftarrow> json_str (field kvs ''addr_received'');
     af \<leftarrow> json_str (field kvs ''addr_from'');
     lr \<leftarrow> json_u64 (field kvs ''last_round'');
     nc \<leftarrow> json_u64 (field kvs ''nonce'');
     Some \<lparr>hs_Type = ty, hs_From = from, hs_To = to, hs_Round = r, hs_RoundSeed = seed, hs_Timestamp = ts,
       hs_ClientVersion = cv, hs_AddrReceived = ar, hs_AddrFrom = af, hs_LastRound = lr, hs_Nonce = nc\<rparr> }"

definition marshal_handshake :: "libp2p \<Rightarrow> HandshakeMessage \<Rightarrow> bytes" where
  "marshal_handshake lp m = print_json (handshake_json lp m)"

definition unmarshal_handshake :: "libp2p \<Rightarrow> bytes \<Rightarrow> HandshakeMessage option" where
  "unmarshal_handshake lp dat = Option.bind (parse_json dat) (json_handshake lp)"

lemma json_handshake_id:
  assumes "peer_ok lp (hs_From m)" "peer_ok lp (hs_To m)"
  shows "json_handshake lp (handshake_json lp m) = Some m"
  using assms
  by (simp add: json_handshake_def handshake_json_def json_peer_def peer_json_def peer_ok_def field_def lower_def)

lemma unmarshal_marshal_handshake:
  assumes "peer_ok lp (hs_From m)" "peer_ok lp (hs_To m)"
  shows "unmarshal_handshake lp (marshal_handshake lp m) = Some m"
  using json_handshake_id [OF assms] by (simp add: unmarshal_handshake_def marshal_handshake_def parse_print_json)

text \<open>Whatever libp2p makes of the identifiers, a message that can be read has the type it was sent with.\<close>

lemma unmarshal_handshake_type:
  assumes "unmarshal_handshake lp (marshal_handshake lp' m) = Some m'"
  shows "hs_Type m' = hs_Type m"
proof -
  have "json_handshake lp (handshake_json lp' m) = Some m'"
    using assms by (simp add: unmarshal_handshake_def marshal_handshake_def parse_print_json)
  moreover have "json_str (field [(''type'', JStr (hs_Type m)), (''from'', f), (''to'', t), (''round'', r), (''round_seed'', sd),
      (''timestamp'', ts), (''client_version'', cv), (''addr_received'', ar), (''addr_from'', af), (''last_round'', lr),
      (''nonce'', nc)] ''type'') = Some (hs_Type m)" for f t r sd ts cv ar af lr nc
    by (simp add: field_def lower_def)
  ultimately show ?thesis
    by (auto simp: json_handshake_def handshake_json_def bind_eq_Some_conv)
qed

section \<open>The handshake manager\<close>

definition verifyRoundSeed :: "'s env \<Rightarrow> 's AppNode \<Rightarrow> u64 \<Rightarrow> bytes \<Rightarrow> bool" where
  "verifyRoundSeed e n rnd seed =
     (let expectedSeed = generateRoundSeed (e_cr e) (n_barNet n) rnd
      in length seed = length expectedSeed \<and> 0 < length seed \<and> seed ! 0 = expectedSeed ! 0)"

definition GetRound :: "'s AppNode \<Rightarrow> u64" where
  "GetRound n = hm_round (n_handshakeManager n)"

definition generateNonce :: "'s AppNode \<Rightarrow> u64 \<times> 's AppNode" where
  "generateNonce n =
     (let hm = n_handshakeManager n; nonce = hm_nonce hm + 1
      in (nonce, n\<lparr>n_handshakeManager := hm\<lparr>hm_nonce := nonce\<rparr>\<rparr>))"

definition UpdateRound :: "'s env \<Rightarrow> 's AppNode \<Rightarrow> u64 \<Rightarrow> 's AppNode" where
  "UpdateRound e n rnd =
     n\<lparr>n_handshakeManager := (n_handshakeManager n)
        \<lparr>hm_round := rnd, hm_roundSeed := generateRoundSeed (e_cr e) (n_barNet n) rnd\<rparr>\<rparr>"

text \<open>The pong and the ack that answer a ping differ in their type and nonce only.\<close>

definition reply :: "'s env \<Rightarrow> 's AppNode \<Rightarrow> string \<Rightarrow> u64 \<Rightarrow> HandshakeMessage \<Rightarrow> HandshakeMessage" where
  "reply e n type nonce ping =
     \<lparr>hs_Type = type, hs_From = p2p_ID (n_p2p n), hs_To = hs_From ping, hs_Round = hs_Round ping,
      hs_RoundSeed = hs_RoundSeed ping, hs_Timestamp = now64 e, hs_ClientVersion = ''dyphira-v1.0'',
      hs_AddrReceived = hs_AddrFrom ping, hs_AddrFrom = GetListenAddr (n_p2p n),
      hs_LastRound = hm_round (n_handshakeManager n), hs_Nonce = nonce\<rparr>"

definition send_reply :: "'s env \<Rightarrow> 's AppNode \<Rightarrow> string \<Rightarrow> HandshakeMessage \<Rightarrow> gerror option \<times> 's AppNode" where
  "send_reply e n type ping =
     (let (nonce, n1) = generateNonce n
      in node_publish e n1 HandshakeTopic (marshal_handshake (e_lp e) (reply e n1 type nonce ping)))"

text \<open>\<open>FindNodes\<close> always returns (\<open>FindNodes_perm\<close>); its case \<open>None\<close> is not taken.\<close>

definition handlePing :: "'s env \<Rightarrow> 's AppNode \<Rightarrow> HandshakeMessage \<Rightarrow> 's AppNode" where
  "handlePing e n ping =
     (if hs_To ping \<noteq> p2p_ID (n_p2p n) then n
      else if \<not> verifyRoundSeed e n (hs_Round ping) (hs_RoundSeed ping)
      then penalize e n (hs_From ping) 1 ''invalid round seed''
      else
        (let (selectedPeers, bn) = FindNodes (e_cr e) (n_barNet n) (hs_Round ping);
             n1 = n\<lparr>n_barNet := bn\<rparr>;
             isSelected = (case selectedPeers of None \<Rightarrow> False | Some ids \<Rightarrow> list_ex (\<lambda>p. p = hs_From ping) ids)
         in if \<not> isSelected then penalize e n1 (hs_From ping) 1 ''not selected by PRNG''
            else
              (case send_reply e n1 ''pong'' ping of
                 (Some _, n2) \<Rightarrow> n2
               | (None, n2) \<Rightarrow> snd (send_reply e n2 ''ack'' ping))))"

text \<open>The hook \<^verbatim>\<open>OnPeerHandshake\<close> is never set by the program.\<close>

definition handlePong :: "'s env \<Rightarrow> 's AppNode \<Rightarrow> HandshakeMessage \<Rightarrow> 's AppNode" where
  "handlePong e n pong =
     (if hs_To pong \<noteq> p2p_ID (n_p2p n) then n
      else if \<not> verifyRoundSeed e n (hs_Round pong) (hs_RoundSeed pong)
      then penalize e n (hs_From pong) 1 ''invalid round seed''
      else if hs_ClientVersion pong = [] then penalize e n (hs_From pong) 1 ''missing client version''
      else
        (case GetPeerStatus (n_barNet n) (hs_From pong) of
           (status, exists) \<Rightarrow>
             if \<not> exists \<or> status \<noteq> PeerStatusGreylist then n
             else n\<lparr>n_barNet := snd (PromoteToWhitelist (e_now e) (n_barNet n) (hs_From pong))\<rparr>))"

definition handleAck :: "'s env \<Rightarrow> 's AppNode \<Rightarrow> HandshakeMessage \<Rightarrow> 's AppNode" where
  "handleAck e n ack =
     (if hs_To ack \<noteq> p2p_ID (n_p2p n) then n
      else if \<not> verifyRoundSeed e n (hs_Round ack) (hs_RoundSeed ack)
      then penalize e n (hs_From ack) 1 ''invalid round seed''
      else if hs_ClientVersion ack = [] then penalize e n (hs_From ack) 1 ''missing client version''
      else n)"

definition handleHandshakeMessage :: "'s env \<Rightarrow> 's AppNode \<Rightarrow> string \<Rightarrow> Message \<Rightarrow> 's AppNode" where
  "handleHandshakeMessage e n topic msg =
     (if topic \<noteq> HandshakeTopic then n
      else
        (case unmarshal_handshake (e_lp e) (msg_Data msg) of
           None \<Rightarrow> n
         | Some m \<Rightarrow>
             if hs_From m = p2p_ID (n_p2p n) then n
             else if hs_Type m = ''ping'' then handlePing e n m
             else if hs_Type m = ''pong'' then handlePong e n m
             else if hs_Type m = ''ack'' then handleAck e n m
             else n))"

definition ping_message :: "'s env \<Rightarrow> 's AppNode \<Rightarrow> peerID \<Rightarrow> u64 \<Rightarrow> HandshakeMessage" where
  "ping_message e n peer nonce =
     (let hm = n_handshakeManager n
      in \<lparr>hs_Type = ''ping'', hs_From = p2p_ID (n_p2p n), hs_To = peer, hs_Round = hm_round hm,
          hs_RoundSeed = hm_roundSeed hm, hs_Timestamp = now64 e, hs_ClientVersion = ''dyphira-v1.0'',
          hs_AddrReceived = [], hs_AddrFrom = GetListenAddr (n_p2p n), hs_LastRound = hm_round hm, hs_Nonce = nonce\<rparr>)"

definition SendPing :: "'s env \<Rightarrow> 's AppNode \<Rightarrow> peerID \<Rightarrow> gerror option \<times> 's AppNode" where
  "SendPing e n peer =
     (let (nonce, n1) = generateNonce n
      in node_publish e n1 HandshakeTopic (marshal_handshake (e_lp e) (ping_message e n peer nonce)))"

fun perform_handshakes_loop :: "'s env \<Rightarrow> 's AppNode \<Rightarrow> nat \<Rightarrow> PeerInfo list \<Rightarrow> 's AppNode" where
  "perform_handshakes_loop e n handshakeCount [] = n"
| "perform_handshakes_loop e n handshakeCount (info # infos) =
     (if 3 \<le> handshakeCount then n
      else if e_now e - pi_LastSeen info < 10 * 1000000000 then perform_handshakes_loop e n handshakeCount infos
      else
        (case SendPing e n (pi_ID info) of
           (Some _, n1) \<Rightarrow>
             perform_handshakes_loop e (penalize e n1 (pi_ID info) 1 ''failed to send ping'') handshakeCount infos
         | (None, n1) \<Rightarrow> perform_handshakes_loop e n1 (Suc handshakeCount) infos))"

definition performHandshakes :: "'s env \<Rightarrow> 's AppNode \<Rightarrow> 's AppNode" where
  "performHandshakes e n = perform_handshakes_loop e n 0 (GetGreylist (n_barNet n))"

text \<open>\<open>None\<close>: the process ends because the topic cannot be joined.\<close>

definition Handshake_Start :: "'s env \<Rightarrow> 's AppNode \<Rightarrow> 's AppNode option" where
  "Handshake_Start e n =
     map_option (\<lambda>p. n\<lparr>n_p2p := Subscribe (e_lp e) p HandshakeHandler\<rparr>) (RegisterTopic (e_lp e) (n_p2p n) HandshakeTopic)"

section \<open>Facts\<close>

lemma UpdatePOM_frame [simp]:
  "bn_config (UpdatePOMScore now bn p inc r) = bn_config bn"
  "bn_prngSeed (UpdatePOMScore now bn p inc r) = bn_prngSeed bn"
  "bn_round (UpdatePOMScore now bn p inc r) = bn_round bn"
  by (simp_all add: UpdatePOMScore_def Let_def demoteToGreylistNoLock_def banPeerNoLock_def record_ban_def
      split: option.split)

lemma UpdatePOM_white_empty [simp]:
  "bn_whitelist bn = [] \<Longrightarrow> bn_whitelist (UpdatePOMScore now bn p inc r) = []"
  by (simp add: UpdatePOMScore_def Let_def demoteToGreylistNoLock_def banPeerNoLock_def record_ban_def
      split: option.split)

lemma penalize_frame [simp]:
  "n_p2p (penalize e n p i r) = n_p2p n" "n_bc (penalize e n p i r) = n_bc n" "n_state (penalize e n p i r) = n_state n"
  "n_vr (penalize e n p i r) = n_vr n" "n_txPool (penalize e n p i r) = n_txPool n"
  "n_tasks (penalize e n p i r) = n_tasks n" "n_pendingBlocks (penalize e n p i r) = n_pendingBlocks n"
  "n_approvalBuffer (penalize e n p i r) = n_approvalBuffer n" "n_committee (penalize e n p i r) = n_committee n"
  "n_proposerSelector (penalize e n p i r) = n_proposerSelector n" "n_address (penalize e n p i r) = n_address n"
  "n_handshakeManager (penalize e n p i r) = n_handshakeManager n"
  "n_inactivityMonitor (penalize e n p i r) = n_inactivityMonitor n" "n_metrics (penalize e n p i r) = n_metrics n"
  "n_barNet (penalize e n p i r) = UpdatePOMScore (e_now e) (n_barNet n) p i r"
  by (simp_all add: penalize_def)

lemma FindNodes_empty: "bn_whitelist bn = [] \<Longrightarrow> FindNodes cr bn r = (Some [], bn\<lparr>bn_round := r\<rparr>)"
  by (simp add: FindNodes_def Let_def)

lemma generateRoundSeed_cong:
  "bn_prngSeed bn = bn_prngSeed bn' \<Longrightarrow> generateRoundSeed cr bn r = generateRoundSeed cr bn' r"
  by (simp add: generateRoundSeed_def)

lemma UpdatePOM_keeps_white [simp]:
  "go_get (bn_whitelist bn) p = None \<Longrightarrow> bn_whitelist (UpdatePOMScore now bn p inc r) = bn_whitelist bn"
  by (simp add: UpdatePOMScore_def Let_def banPeerNoLock_def record_ban_def demoteToGreylistNoLock_def split: option.split)

text \<open>Peer \<open>p\<close> is not whitelisted, and \<open>k\<close> more points get it banned, if it is not yet.\<close>

definition points_to_ban :: "BARNetwork \<Rightarrow> peerID \<Rightarrow> nat \<Rightarrow> bool" where
  "points_to_ban bn p k \<longleftrightarrow> bar_ok bn \<and> length (GetWhitelist bn) < 2 ^ 32 \<and> go_get (bn_whitelist bn) p = None \<and>
     (go_get (bn_banned bn) p \<noteq> None \<or>
      (\<exists>info. go_get (bn_greylist bn) p = Some info \<and> pi_POMScore info < cfg_POMBanThreshold (bn_config bn) \<and>
         cfg_POMBanThreshold (bn_config bn) \<le> pi_POMScore info + int k))"

lemma points_to_ban_round [simp]: "points_to_ban (bn\<lparr>bn_round := r\<rparr>) p k = points_to_ban bn p k"
  by (simp add: points_to_ban_def GetWhitelist_def bar_ok_frame [of "bn\<lparr>bn_round := r\<rparr>" bn])

lemma points_to_ban_step:
  assumes "points_to_ban bn p (Suc k)"
  shows "points_to_ban (UpdatePOMScore now bn p 1 reason) p k"
proof -
  let ?bn = "UpdatePOMScore now bn p 1 reason" and ?th = "cfg_POMBanThreshold (bn_config bn)"
  have ok: "bar_ok bn" "length (GetWhitelist bn) < 2 ^ 32" "go_get (bn_whitelist bn) p = None"
    using assms by (simp_all add: points_to_ban_def)
  consider (banned) "go_get (bn_banned bn) p \<noteq> None"
    | (grey) info where "go_get (bn_greylist bn) p = Some info" "pi_POMScore info < ?th" "?th \<le> pi_POMScore info + 1 + int k"
    using assms by (auto simp: points_to_ban_def)
  then have "go_get (bn_banned ?bn) p \<noteq> None \<or>
      (\<exists>info. go_get (bn_greylist ?bn) p = Some info \<and> pi_POMScore info < ?th \<and> ?th \<le> pi_POMScore info + int k)"
  proof cases
    case banned
    then show ?thesis using banned_step [OF step_score ok(1)] by fastforce
  next
    case grey
    then show ?thesis
      using ok(3) by (auto simp: UpdatePOM_grey [OF ok(1) grey(1) refl] Let_def banPeerNoLock_def record_ban_def)
  qed
  then show ?thesis using ok bar_ok_UpdatePOM [OF ok(1)] by (simp add: points_to_ban_def GetWhitelist_def)
qed

text \<open>A ping of a peer that is not whitelisted costs it a point, whether its seed is found valid or not.\<close>

lemma ping_costs_point:
  assumes "points_to_ban (n_barNet n) (hs_From m) (Suc k)" "hs_To m = p2p_ID (n_p2p n)"
  shows "points_to_ban (n_barNet (handlePing e n m)) (hs_From m) k" "p2p_ID (n_p2p (handlePing e n m)) = p2p_ID (n_p2p n)"
proof -
  let ?bn = "n_barNet n"
  have ok: "bar_ok ?bn" "length (bn_whitelist ?bn) < 2 ^ 32" "go_get (bn_whitelist ?bn) (hs_From m) = None"
    using assms(1) by (simp_all add: points_to_ban_def GetWhitelist_def)
  obtain ids where ids: "fst (FindNodes (e_cr e) ?bn (hs_Round m)) = Some ids" "mset ids = mset (map fst (bn_whitelist ?bn))"
    by (rule FindNodes_perm [OF ok(1,2)])
  have "hs_From m \<notin> set (map fst (bn_whitelist ?bn))" using ok(3) by (simp add: map_of_eq_None_iff)
  then have "hs_From m \<notin> set ids" using ids(2) by (metis set_mset_mset)
  then have "\<not> list_ex (\<lambda>p. p = hs_From m) ids" by (auto simp: list_ex_iff)
  then have "handlePing e n m = penalize e n (hs_From m) 1 ''invalid round seed'' \<or>
      handlePing e n m = penalize e (n\<lparr>n_barNet := ?bn\<lparr>bn_round := hs_Round m\<rparr>\<rparr>) (hs_From m) 1 ''not selected by PRNG''"
    using assms(2) ids(1) FindNodes_frame [of "e_cr e" ?bn "hs_Round m"]
    by (cases "FindNodes (e_cr e) ?bn (hs_Round m)") (simp add: handlePing_def)
  then show "points_to_ban (n_barNet (handlePing e n m)) (hs_From m) k" "p2p_ID (n_p2p (handlePing e n m)) = p2p_ID (n_p2p n)"
    using points_to_ban_step [OF assms(1)] points_to_ban_step [of "?bn\<lparr>bn_round := hs_Round m\<rparr>" "hs_From m" k] assms(1) by auto
qed

section \<open>Properties\<close>

text \<open>
  When a pong whitelists a peer.  A greylisted peer is whitelisted by its pong exactly when the
  pong is addressed to this node, its round seed has 32 bytes of which the first (and only the
  first) is that of the node's own seed for the round, it names a client version, and the
  whitelist has room; no other peer's status changes.
\<close>

theorem pong_whitelists_peer:
  assumes "bar_ok (n_barNet n)" and "go_get (bn_greylist (n_barNet n)) (hs_From m) = Some info"
    and "q \<noteq> hs_From m"
  shows "(GetPeerStatus (n_barNet (handlePong e n m)) (hs_From m) = (PeerStatusWhitelist, True) \<longleftrightarrow>
      hs_To m = p2p_ID (n_p2p n) \<and> length (hs_RoundSeed m) = 32 \<and>
      hs_RoundSeed m ! 0 = generateRoundSeed (e_cr e) (n_barNet n) (hs_Round m) ! 0 \<and> hs_ClientVersion m \<noteq> [] \<and>
      int (length (GetWhitelist (n_barNet n))) < cfg_IncomingConnections (bn_config (n_barNet n))) \<and>
    GetPeerStatus (n_barNet (handlePong e n m)) q = GetPeerStatus (n_barNet n) q"
proof -
  let ?bn = "n_barNet n" and ?p = "hs_From m"
  have white: "go_get (bn_whitelist ?bn) ?p = None"
    using assms(1,2) unfolding bar_ok_def by (metis option.distinct(1))
  have st: "pi_Status info = PeerStatusGreylist" using bar_ok_status(2) [OF assms(1,2)] by simp
  have len: "length (generateRoundSeed (e_cr e) ?bn r) = 32" for r by (simp add: generateRoundSeed_def)
  have pen: "GetPeerStatus (UpdatePOMScore now ?bn ?p 1 r) ?p \<noteq> (PeerStatusWhitelist, True) \<and>
      GetPeerStatus (UpdatePOMScore now ?bn ?p 1 r) q = GetPeerStatus ?bn q" for now r
    using assms(3) white st
    by (auto simp: UpdatePOM_grey [OF assms(1,2) refl] Let_def banPeerNoLock_def record_ban_def GetPeerStatus_def
        split: option.split)
  have grey: "GetPeerStatus ?bn ?p = (PeerStatusGreylist, True)" using assms(2) white st by (simp add: GetPeerStatus_def)
  have seed: "verifyRoundSeed e n (hs_Round m) (hs_RoundSeed m) \<longleftrightarrow> length (hs_RoundSeed m) = 32 \<and>
      hs_RoundSeed m ! 0 = generateRoundSeed (e_cr e) ?bn (hs_Round m) ! 0"
    by (auto simp: verifyRoundSeed_def Let_def len)
  have promote: "(GetPeerStatus (snd (PromoteToWhitelist now ?bn ?p)) ?p = (PeerStatusWhitelist, True) \<longleftrightarrow>
      int (length (GetWhitelist ?bn)) < cfg_IncomingConnections (bn_config ?bn)) \<and>
      GetPeerStatus (snd (PromoteToWhitelist now ?bn ?p)) q = GetPeerStatus ?bn q" for now
    using assms(2,3) white st
    by (cases "cfg_IncomingConnections (bn_config ?bn) \<le> int (length (bn_whitelist ?bn))")
      (simp_all add: bar_ops promoteToWhitelistNoLock_def GetPeerStatus_def GetWhitelist_def not_le split: option.split)
  show ?thesis
    unfolding seed [symmetric]
    using pen promote grey by (auto simp: handlePong_def seed)
qed

lemma demo_bar_full:
  "bar_ok demo_bar" "cfg_IncomingConnections (bn_config demo_bar) = 8" "length (bn_whitelist demo_bar) = 1"
  "bn_prngSeed demo_bar = []"
  using bar_reach_ok [OF demo_bar_reach]
  by (simp_all add: demo_bar_def PromoteToWhitelist_def promoteToWhitelistNoLock_def AddPeer_def isPeerInAnyList_def
        NewBARNetwork_def default_config_def Let_def)

theorem pong_whitelists_peer_witness:
  "\<exists>m. hs_From m = ''q'' \<and>
     GetPeerStatus (n_barNet (handlePong demo_env ((demo_node [] ''me'' [])\<lparr>n_barNet := demo_bar\<rparr>) m)) ''q'' =
       (PeerStatusWhitelist, True)"
proof -
  let ?n = "(demo_node [] ''me'' [])\<lparr>n_barNet := demo_bar\<rparr>"
  let ?m = "\<lparr>hs_Type = ''pong'', hs_From = ''q'', hs_To = ''me'', hs_Round = 3,
    hs_RoundSeed = generateRoundSeed demo_crypto demo_bar 3, hs_Timestamp = 0, hs_ClientVersion = ''v'',
    hs_AddrReceived = [], hs_AddrFrom = [], hs_LastRound = 0, hs_Nonce = 0\<rparr>"
  obtain info where "go_get (bn_greylist demo_bar) ''q'' = Some info" using demo_bar_lists(3) by auto
  then have "GetPeerStatus (n_barNet (handlePong demo_env ?n ?m)) ''q'' = (PeerStatusWhitelist, True)"
    using pong_whitelists_peer [of ?n ?m info "''p''" demo_env] demo_bar_full
    by (simp add: demo_node_def GetWhitelist_def generateRoundSeed_def)
  then show ?thesis by (intro exI [of _ ?m]) simp
qed

text \<open>The pings that node \<open>a\<close> sends to this node in the rounds \<open>rs\<close>, handled one after the other.\<close>

definition receive_pings :: "'s env \<Rightarrow> 's AppNode \<Rightarrow> 's AppNode \<Rightarrow> u64 list \<Rightarrow> 's AppNode" where
  "receive_pings e a n rs =
     foldl (\<lambda>n r. handlePing e n (ping_message e (UpdateRound e a r) (p2p_ID (n_p2p n)) r)) n rs"

lemma receive_pings_cost:
  "points_to_ban (n_barNet n) (p2p_ID (n_p2p a)) (length rs) \<Longrightarrow>
   points_to_ban (n_barNet (receive_pings e a n rs)) (p2p_ID (n_p2p a)) 0"
proof (induction rs arbitrary: n)
  case (Cons r rs)
  let ?m = "ping_message e (UpdateRound e a r) (p2p_ID (n_p2p n)) r"
  have m: "hs_From ?m = p2p_ID (n_p2p a)" "hs_To ?m = p2p_ID (n_p2p n)" by (simp_all add: ping_message_def UpdateRound_def Let_def)
  have "points_to_ban (n_barNet (handlePing e n ?m)) (p2p_ID (n_p2p a)) (length rs)"
    using ping_costs_point(1) [of n ?m "length rs" e] Cons.prems m by simp
  then show ?case using Cons.IH by (simp add: receive_pings_def)
qed (simp add: receive_pings_def)

text \<open>
  C39: Honest pings get a peer banned.  A ping, made as \<^verbatim>\<open>SendPing\<close> makes it, costs its sender a point at every
  receiver that has not whitelisted the sender: every node draws its own random seed, so that the
  round seed in the ping is usually found invalid, and when it is not, the sender is not among the
  peers the receiver selects, which are those of its whitelist.  After as many pings as points
  are missing to \<open>POMBanThreshold\<close> (15 from the start), in whatever rounds and with whatever seeds
  the two nodes have, the sender is banned, and by the finality of bans stays so.
\<close>

theorem honest_pings_ban_peer:
  assumes "bar_ok (n_barNet n)" and "length (GetWhitelist (n_barNet n)) < 2 ^ 32"
    and "go_get (bn_greylist (n_barNet n)) (p2p_ID (n_p2p a)) = Some info"
    and "pi_POMScore info < cfg_POMBanThreshold (bn_config (n_barNet n))"
    and "cfg_POMBanThreshold (bn_config (n_barNet n)) \<le> pi_POMScore info + int (length rs)"
  shows "GetPeerStatus (n_barNet (receive_pings e a n rs)) (p2p_ID (n_p2p a)) = (PeerStatusBanned, True)"
proof -
  let ?p = "p2p_ID (n_p2p a)" and ?bn = "n_barNet (receive_pings e a n rs)"
  have "go_get (bn_whitelist (n_barNet n)) ?p = None"
    using assms(1,3) unfolding bar_ok_def by (metis option.distinct(1))
  then have "points_to_ban (n_barNet n) ?p (length rs)" using assms by (simp add: points_to_ban_def)
  then have "points_to_ban ?bn ?p 0" by (rule receive_pings_cost)
  then obtain i where i: "go_get (bn_banned ?bn) ?p = Some i" and ok: "bar_ok ?bn" by (auto simp: points_to_ban_def)
  show ?thesis using banned_other_lists [OF ok i] bar_ok_status(3) [OF ok i] i by (simp add: GetPeerStatus_def)
qed

text \<open>With the same seed on both sides every ping is valid, and none of them is selected.\<close>

theorem honest_pings_ban_peer_witness:
  "verifyRoundSeed demo_env ((demo_node [] ''me'' [])\<lparr>n_barNet := demo_bar\<rparr>) 0 (generateRoundSeed demo_crypto (NewBARNetwork [] None) 0) \<and>
   GetPeerStatus (n_barNet (receive_pings demo_env (demo_node [] ''q'' [])
     ((demo_node [] ''me'' [])\<lparr>n_barNet := demo_bar\<rparr>) (map of_nat [0..<15]))) ''q'' = (PeerStatusBanned, True)"
proof -
  let ?n = "(demo_node [] ''me'' [])\<lparr>n_barNet := demo_bar\<rparr>" and ?a = "demo_node [] ''q'' []"
  obtain info where info: "go_get (bn_greylist demo_bar) ''q'' = Some info" "pi_POMScore info = 0"
    "cfg_POMBanThreshold (bn_config demo_bar) = 15"
    by (simp add: demo_bar_def PromoteToWhitelist_def promoteToWhitelistNoLock_def AddPeer_def isPeerInAnyList_def
        NewBARNetwork_def default_config_def Let_def)
  have "verifyRoundSeed demo_env ?n 0 (generateRoundSeed demo_crypto (NewBARNetwork [] None) 0)"
    using demo_bar_full(4) by (simp add: verifyRoundSeed_def generateRoundSeed_def NewBARNetwork_def Let_def)
  then show ?thesis
    using honest_pings_ban_peer [of ?n ?a info "map of_nat [0..<15]" demo_env] demo_bar_full info
    by (simp add: demo_node_def GetWhitelist_def)
qed

end
