(* ===== verification/Inactivity.thy ===== *)
theory Inactivity
  imports Handshake
begin

text \<open>
  \<^verbatim>\<open>inactivity_monitor.go\<close>: seed nodes tell each other about inactive peers, keep a record of the
  reports and demote a peer that enough reporters named.  The goroutine of \<^verbatim>\<open>monitoringLoop\<close> is
  the step \<open>checkForInactivity\<close>; \<^verbatim>\<open>Stop\<close> only ends that goroutine.
\<close>

section \<open>Messages\<close>

record InactivityMessage =
  ina_Type :: string
  ina_From :: peerID
  ina_To :: peerID
  ina_TargetPeer :: peerID
  ina_Timestamp :: i64
  ina_ClientVersion :: string
  ina_Reason :: string
  ina_Evidence :: "string list"

definition InactivityTopic :: string where
  "InactivityTopic = ''/dyphira/inactivity/v1''"

definition inactivity_json :: "libp2p \<Rightarrow> InactivityMessage \<Rightarrow> json" where
  "inactivity_json lp m = JObj
     [(''type'', JStr (ina_Type m)),
      (''from'', peer_json lp (ina_From m)),
      (''to'', peer_json lp (ina_To m)),
      (''target_peer'', peer_json lp (ina_TargetPeer m)),
      (''timestamp'', i64_json (ina_Timestamp m)),
      (''client_version'', JStr (ina_ClientVersion m)),
      (''reason'', JStr (ina_Reason m)),
      (''evidence'', list_json JStr (ina_Evidence m))]"

definition json_inactivity :: "libp2p \<Rightarrow> json \<Rightarrow> InactivityMessage option" where
  "json_inactivity lp v = do {
     kvs \<leftarrow> members v;
     ty \<leftarrow> json_str (field kvs ''type'');
     from \<leftarrow> json_peer lp kvs ''from'';
     to \<leftarrow> json_peer lp kvs ''to'';
     tp \<leftarrow> json_peer lp kvs ''target_peer'';
     ts \<leftarrow> json_i64 (field kvs ''timestamp'');
     cv \<leftarrow> json_str (field kvs ''client_version'');
     rs \<leftarrow> json_str (field kvs ''reason'');
     ev \<leftarrow> json_list json_str (field kvs ''evidence'');
     Some \<lparr>ina_Type = ty, ina_From = from, ina_To = to, ina_TargetPeer = tp, ina_Timestamp = ts,
       ina_ClientVersion = cv, ina_Reason = rs, ina_Evidence = ev\<rparr> }"

definition marshal_inactivity :: "libp2p \<Rightarrow> InactivityMessage \<Rightarrow> bytes" where
  "marshal_inactivity lp m = print_json (inactivity_json lp m)"

definition unmarshal_inactivity :: "libp2p \<Rightarrow> bytes \<Rightarrow> InactivityMessage option" where
  "unmarshal_inactivity lp dat = Option.bind (parse_json dat) (json_inactivity lp)"

section \<open>Records\<close>

definition set_records :: "'s AppNode \<Rightarrow> (peerID, InactivityRecord) gomap \<Rightarrow> 's AppNode" where
  "set_records n rs = n\<lparr>n_inactivityMonitor := (n_inactivityMonitor n)\<lparr>im_records := rs\<rparr>\<rparr>"

definition recordInactivity :: "'s env \<Rightarrow> 's AppNode \<Rightarrow> peerID \<Rightarrow> peerID \<Rightarrow> string \<Rightarrow> string list \<Rightarrow> 's AppNode" where
  "recordInactivity e n peer reporter reason evidence =
     (let now = e_now e;
          records = im_records (n_inactivityMonitor n);
          rec0 = (case go_get records peer of
                    Some r \<Rightarrow> r
                  | None \<Rightarrow> \<lparr>ir_PeerID = peer, ir_FirstReported = now, ir_LastReported = now, ir_ReportCount = 0,
                             ir_Reporters = [], ir_Reasons = [], ir_Evidence = []\<rparr>);
          reporters = (if list_ex (\<lambda>r. r = reporter) (ir_Reporters rec0) then ir_Reporters rec0
                       else ir_Reporters rec0 @ [reporter])
      in set_records n (go_set records peer
           (rec0\<lparr>ir_LastReported := now, ir_ReportCount := ir_ReportCount rec0 + 1, ir_Reporters := reporters,
              ir_Reasons := ir_Reasons rec0 @ [reason], ir_Evidence := ir_Evidence rec0 @ evidence\<rparr>)))"

definition shouldMarkAsInactive :: "'s env \<Rightarrow> 's AppNode \<Rightarrow> peerID \<Rightarrow> bool" where
  "shouldMarkAsInactive e n peer =
     (case go_get (im_records (n_inactivityMonitor n)) peer of
        None \<Rightarrow> False
      | Some r \<Rightarrow>
          if im_seedNodeThreshold (n_inactivityMonitor n) \<le> int (length (ir_Reporters r)) then True
          else if 5 \<le> ir_ReportCount r \<and> 10 * 60 * 1000000000 < e_now e - ir_FirstReported r then True
          else False)"

definition GetInactivityRecord :: "'s AppNode \<Rightarrow> peerID \<Rightarrow> InactivityRecord option" where
  "GetInactivityRecord n peer = go_get (im_records (n_inactivityMonitor n)) peer"

definition GetAllInactivityRecords :: "'s AppNode \<Rightarrow> (peerID, InactivityRecord) gomap" where
  "GetAllInactivityRecords n = go_copy (im_records (n_inactivityMonitor n))"

definition ClearInactivityRecord :: "'s AppNode \<Rightarrow> peerID \<Rightarrow> 's AppNode" where
  "ClearInactivityRecord n peer = set_records n (go_delete (im_records (n_inactivityMonitor n)) peer)"

section \<open>Reporting\<close>

definition broadcastInactivityReport :: "'s env \<Rightarrow> 's AppNode \<Rightarrow> peerID \<Rightarrow> 's AppNode" where
  "broadcastInactivityReport e n peer =
     (case go_get (im_records (n_inactivityMonitor n)) peer of
        None \<Rightarrow> n
      | Some r \<Rightarrow>
          snd (node_publish e n InactivityTopic (marshal_inactivity (e_lp e)
            \<lparr>ina_Type = ''inactivity_report'', ina_From = p2p_ID (n_p2p n), ina_To = [], ina_TargetPeer = peer,
             ina_Timestamp = now64 e, ina_ClientVersion = ''dyphira-v1.0'',
             ina_Reason = ''marked inactive by '' @ print_int (int (length (ir_Reporters r))) @ '' seed nodes'',
             ina_Evidence = ir_Evidence r\<rparr>)))"

definition markPeerAsInactive :: "'s env \<Rightarrow> 's AppNode \<Rightarrow> peerID \<Rightarrow> 's AppNode" where
  "markPeerAsInactive e n peer =
     broadcastInactivityReport e (n\<lparr>n_barNet := snd (DemoteToGreylist (n_barNet n) peer)\<rparr>) peer"

definition isPeerInactive :: "'s AppNode \<Rightarrow> peerID \<Rightarrow> bool" where
  "isPeerInactive n peer =
     (case GetPeerStatus (n_barNet n) peer of
        (status, exists) \<Rightarrow>
          if \<not> exists \<or> status = PeerStatusBanned then False
          else if status = PeerStatusGreylist then True
          else False)"

fun report_to :: "'s env \<Rightarrow> 's AppNode \<Rightarrow> peerID \<Rightarrow> string \<Rightarrow> string list \<Rightarrow> PeerInfo list \<Rightarrow> 's AppNode" where
  "report_to e n peer reason evidence [] = n"
| "report_to e n peer reason evidence (seedNode # seedNodes) =
     (if pi_ID seedNode = p2p_ID (n_p2p n) then report_to e n peer reason evidence seedNodes
      else
        (let n1 = snd (node_publish e n InactivityTopic (marshal_inactivity (e_lp e)
               \<lparr>ina_Type = ''mark_inactive'', ina_From = p2p_ID (n_p2p n), ina_To = pi_ID seedNode, ina_TargetPeer = peer,
                ina_Timestamp = now64 e, ina_ClientVersion = ''dyphira-v1.0'', ina_Reason = reason,
                ina_Evidence = evidence\<rparr>))
         in report_to e n1 peer reason evidence seedNodes))"

definition reportInactivity :: "'s env \<Rightarrow> 's AppNode \<Rightarrow> peerID \<Rightarrow> string \<Rightarrow> string list \<Rightarrow> 's AppNode" where
  "reportInactivity e n peer reason evidence =
     (if \<not> im_isSeedNode (n_inactivityMonitor n) then n
      else report_to e n peer reason evidence (GetWhitelist (n_barNet n)))"

definition checkForInactivity :: "'s env \<Rightarrow> 's AppNode \<Rightarrow> 's AppNode" where
  "checkForInactivity e n =
     foldl (\<lambda>n info.
        if pi_ID info = p2p_ID (n_p2p n) then n
        else if isPeerInactive n (pi_ID info)
        then reportInactivity e n (pi_ID info) ''no recent activity'' [''timeout'']
        else n) n (GetAllPeers (n_barNet n))"

section \<open>Handlers\<close>

definition handleMarkInactive :: "'s env \<Rightarrow> 's AppNode \<Rightarrow> InactivityMessage \<Rightarrow> 's AppNode" where
  "handleMarkInactive e n m =
     (if ina_To m \<noteq> p2p_ID (n_p2p n) then n
      else if \<not> im_isSeedNode (n_inactivityMonitor n)
      then penalize e n (ina_From m) 1 ''non-seed node sending inactivity mark''
      else
        (let n1 = recordInactivity e n (ina_TargetPeer m) (ina_From m) (ina_Reason m) (ina_Evidence m)
         in if shouldMarkAsInactive e n1 (ina_TargetPeer m) then markPeerAsInactive e n1 (ina_TargetPeer m) else n1))"

definition handleInactivityReport :: "'s env \<Rightarrow> 's AppNode \<Rightarrow> InactivityMessage \<Rightarrow> 's AppNode" where
  "handleInactivityReport e n m =
     (if ina_To m \<noteq> p2p_ID (n_p2p n) then n
      else recordInactivity e n (ina_TargetPeer m) (ina_From m) (ina_Reason m) (ina_Evidence m))"

definition handleInactivityMessage :: "'s env \<Rightarrow> 's AppNode \<Rightarrow> string \<Rightarrow> Message \<Rightarrow> 's AppNode" where
  "handleInactivityMessage e n topic msg =
     (if topic \<noteq> InactivityTopic then n
      else
        (case unmarshal_inactivity (e_lp e) (msg_Data msg) of
           None \<Rightarrow> penalize e n (msg_ReceivedFrom msg) 1 ''malformed inactivity message''
         | Some m \<Rightarrow>
             if ina_From m = p2p_ID (n_p2p n) then n
             else if ina_Type m = ''mark_inactive'' then handleMarkInactive e n m
             else if ina_Type m = ''inactivity_report'' then handleInactivityReport e n m
             else n))"

definition Inactivity_Start :: "'s env \<Rightarrow> 's AppNode \<Rightarrow> 's AppNode option" where
  "Inactivity_Start e n =
     map_option (\<lambda>p. n\<lparr>n_p2p := Subscribe (e_lp e) p InactivityHandler\<rparr>) (RegisterTopic (e_lp e) (n_p2p n) InactivityTopic)"

text \<open>\<^verbatim>\<open>Stop\<close>: \<open>None\<close> is the panic of closing the channel a second time.\<close>

definition Inactivity_Stop :: "'s AppNode \<Rightarrow> 's AppNode option" where
  "Inactivity_Stop n =
     map_option (\<lambda>c. n\<lparr>n_inactivityMonitor := (n_inactivityMonitor n)\<lparr>im_stopChan := c\<rparr>\<rparr>)
       (close (im_stopChan (n_inactivityMonitor n)))"

section \<open>Facts\<close>

lemma set_records_frame [simp]:
  "n_barNet (set_records n rs) = n_barNet n" "n_p2p (set_records n rs) = n_p2p n"
  "im_records (n_inactivityMonitor (set_records n rs)) = rs"
  "im_isSeedNode (n_inactivityMonitor (set_records n rs)) = im_isSeedNode (n_inactivityMonitor n)"
  "im_seedNodeThreshold (n_inactivityMonitor (set_records n rs)) = im_seedNodeThreshold (n_inactivityMonitor n)"
  by (simp_all add: set_records_def)

text \<open>What a record looks like after reports \<open>(reporter, reason, evidence)\<close> that arrived at one time.\<close>

definition record_of :: "gtime \<Rightarrow> peerID \<Rightarrow> (peerID \<times> string \<times> string list) list \<Rightarrow> InactivityRecord" where
  "record_of now peer reps = \<lparr>ir_PeerID = peer, ir_FirstReported = now, ir_LastReported = now,
     ir_ReportCount = int (length reps), ir_Reporters = rev (remdups (rev (map fst reps))),
     ir_Reasons = map (fst \<circ> snd) reps, ir_Evidence = concat (map (snd \<circ> snd) reps)\<rparr>"

lemma recordInactivity_record_of:
  assumes "go_get (im_records (n_inactivityMonitor n)) peer = (if reps = [] then None else Some (record_of (e_now e) peer reps))"
  shows "recordInactivity e n peer r w ev =
    set_records n (go_set (im_records (n_inactivityMonitor n)) peer (record_of (e_now e) peer (reps @ [(r, w, ev)])))"
  using assms by (auto simp: recordInactivity_def record_of_def Let_def list_ex_iff add.commute)

lemma length_reporters: "length (ir_Reporters (record_of now peer reps)) = card (fst ` set reps)"
  by (simp add: record_of_def length_remdups_card_conv)

lemma broadcast_frame [simp]:
  "n_barNet (broadcastInactivityReport e n p) = n_barNet n"
  "n_inactivityMonitor (broadcastInactivityReport e n p) = n_inactivityMonitor n"
  "p2p_ID (n_p2p (broadcastInactivityReport e n p)) = p2p_ID (n_p2p n)"
  by (simp_all add: broadcastInactivityReport_def split: option.split)

lemma markPeer_frame [simp]:
  "n_inactivityMonitor (markPeerAsInactive e n p) = n_inactivityMonitor n"
  "p2p_ID (n_p2p (markPeerAsInactive e n p)) = p2p_ID (n_p2p n)"
  "n_barNet (markPeerAsInactive e n p) = snd (DemoteToGreylist (n_barNet n) p)"
  by (simp_all add: markPeerAsInactive_def)

text \<open>The state of a seed node that handled the marks \<open>ms\<close> against \<open>p\<close>.\<close>

definition after_marks :: "'s env \<Rightarrow> 's AppNode \<Rightarrow> peerID \<Rightarrow> InactivityMessage list \<Rightarrow> 's AppNode \<Rightarrow> bool" where
  "after_marks e n p ms n' \<longleftrightarrow>
     go_get (im_records (n_inactivityMonitor n')) p =
       (if ms = [] then None else Some (record_of (e_now e) p (map (\<lambda>m. (ina_From m, ina_Reason m, ina_Evidence m)) ms))) \<and>
     p2p_ID (n_p2p n') = p2p_ID (n_p2p n) \<and> im_isSeedNode (n_inactivityMonitor n') \<and>
     im_seedNodeThreshold (n_inactivityMonitor n') = 3 \<and> bar_ok (n_barNet n') \<and>
     (if card (ina_From ` set ms) < 3 then go_get (bn_whitelist (n_barNet n')) p \<noteq> None
      else go_get (bn_greylist (n_barNet n')) p \<noteq> None)"

lemma after_marks_step:
  assumes inv: "after_marks e n p ms n'" and m: "ina_To m = p2p_ID (n_p2p n)" "ina_TargetPeer m = p"
  shows "after_marks e n p (ms @ [m]) (handleMarkInactive e n' m)"
proof -
  let ?reps = "\<lambda>ms. map (\<lambda>m. (ina_From m, ina_Reason m, ina_Evidence m)) ms"
  let ?rec = "record_of (e_now e) p (?reps (ms @ [m]))"
  let ?n1 = "set_records n' (go_set (im_records (n_inactivityMonitor n')) p ?rec)"
  have rec: "recordInactivity e n' p (ina_From m) (ina_Reason m) (ina_Evidence m) = ?n1"
    using recordInactivity_record_of [of n' p "?reps ms" e] inv by (simp add: after_marks_def)
  have num: "length (ir_Reporters ?rec) = card (ina_From ` set (ms @ [m]))"
    unfolding length_reporters by (simp add: image_image)
  have should: "shouldMarkAsInactive e ?n1 p \<longleftrightarrow> 3 \<le> card (ina_From ` set (ms @ [m]))"
    using inv num by (auto simp: shouldMarkAsInactive_def after_marks_def record_of_def)
  have eq: "handleMarkInactive e n' m = (if 3 \<le> card (ina_From ` set (ms @ [m])) then markPeerAsInactive e ?n1 p else ?n1)"
    using inv m rec should by (simp add: handleMarkInactive_def after_marks_def Let_def)
  have le: "card (ina_From ` set ms) \<le> card (ina_From ` set (ms @ [m]))"
    by (rule card_mono) auto
  have demoted: "go_get (bn_greylist (snd (DemoteToGreylist (n_barNet n') p))) p \<noteq> None"
    using inv by (auto simp: after_marks_def bar_ops demoteToGreylistNoLock_def split: option.split if_splits)
  show ?thesis
    unfolding eq using inv le demoted
    by (auto simp: after_marks_def bar_ops bar_ok_demote)
qed

lemma after_marks_all:
  assumes "after_marks e n p [] n" and "\<forall>m \<in> set ms. ina_To m = p2p_ID (n_p2p n) \<and> ina_TargetPeer m = p"
  shows "after_marks e n p ms (foldl (handleMarkInactive e) n ms)"
  using assms(2)
proof (induction ms rule: rev_induct)
  case Nil
  show ?case using assms(1) by simp
next
  case (snoc m ms)
  then show ?case by (simp add: after_marks_step)
qed

section \<open>Properties\<close>

text \<open>
  When reports demote a peer.  A seed node with a whitelisted peer and no record of it that
  receives, at one time, any number of marks against it demotes the peer exactly when the marks
  name three different senders.  The senders are whatever the messages claim: they need not be
  seed nodes, nor peers of this node at all.
\<close>

theorem three_reporters_demote:
  assumes "bar_ok (n_barNet n)" and "im_isSeedNode (n_inactivityMonitor n)"
    and "im_seedNodeThreshold (n_inactivityMonitor n) = 3" and "GetInactivityRecord n p = None"
    and "GetPeerStatus (n_barNet n) p = (PeerStatusWhitelist, True)"
    and "\<forall>m \<in> set ms. ina_To m = p2p_ID (n_p2p n) \<and> ina_TargetPeer m = p"
  shows "GetPeerStatus (n_barNet (foldl (handleMarkInactive e) n ms)) p =
    (if card (ina_From ` set ms) < 3 then PeerStatusWhitelist else PeerStatusGreylist, True)"
proof -
  have "go_get (bn_whitelist (n_barNet n)) p \<noteq> None"
    using assms(1,5) bar_ok_status(2,3) [OF assms(1)] by (auto simp: GetPeerStatus_def split: option.splits)
  then have "after_marks e n p [] n" using assms(1-4) by (simp add: after_marks_def GetInactivityRecord_def)
  then have inv: "after_marks e n p ms (foldl (handleMarkInactive e) n ms)" using after_marks_all assms(6) by blast
  let ?bn = "n_barNet (foldl (handleMarkInactive e) n ms)"
  have ok: "bar_ok ?bn" using inv by (simp add: after_marks_def)
  show ?thesis
  proof (cases "card (ina_From ` set ms) < 3")
    case True
    then obtain i where "go_get (bn_whitelist ?bn) p = Some i" using inv by (auto simp: after_marks_def)
    then show ?thesis using True bar_ok_status(1) [OF ok] by (simp add: GetPeerStatus_def)
  next
    case False
    then obtain i where i: "go_get (bn_greylist ?bn) p = Some i" using inv by (auto simp: after_marks_def)
    then have "go_get (bn_whitelist ?bn) p = None" using ok unfolding bar_ok_def by (metis option.distinct(1))
    then show ?thesis using False i bar_ok_status(2) [OF ok] by (simp add: GetPeerStatus_def)
  qed
qed

definition demo_mark :: "peerID \<Rightarrow> InactivityMessage" where
  "demo_mark from = \<lparr>ina_Type = ''mark_inactive'', ina_From = from, ina_To = ''me'', ina_TargetPeer = ''p'',
     ina_Timestamp = 0, ina_ClientVersion = [], ina_Reason = [], ina_Evidence = []\<rparr>"

definition demo_seed_node :: "MemoryStore AppNode" where
  "demo_seed_node = (demo_node [InactivityTopic] ''me'' [])
     \<lparr>n_barNet := demo_bar, n_inactivityMonitor := NewInactivityMonitor True\<rparr>"

theorem three_reporters_demote_witness:
  "GetPeerStatus (n_barNet (foldl (handleMarkInactive demo_env) demo_seed_node (map demo_mark [''x'', ''y'', ''z'']))) ''p'' =
     (PeerStatusGreylist, True)"
proof -
  have "GetPeerStatus demo_bar ''p'' = (PeerStatusWhitelist, True)"
    using demo_bar_lists(2) bar_ok_status(1) [OF demo_bar_full(1)] by (auto simp: GetPeerStatus_def)
  then show ?thesis
    using three_reporters_demote [of demo_seed_node "''p''" "map demo_mark [''x'', ''y'', ''z'']" demo_env] demo_bar_full(1)
    by (simp add: demo_seed_node_def demo_node_def demo_mark_def NewInactivityMonitor_def GetInactivityRecord_def)
qed

text \<open>
  Nobody hears the verdict.  The report that a seed node broadcasts after demoting a peer is
  addressed to the empty identifier, and the handlers take a report only when it is addressed
  to them: at every other node the report leaves the inactivity records as they were, and it
  costs its carrier a point where libp2p refuses the empty identifier.
\<close>

theorem broadcast_report_is_ignored:
  assumes "GetInactivityRecord n p = Some r" and "InactivityTopic \<in> set (p2p_topics (n_p2p n))"
    and "lp_publish (e_lp e) InactivityTopic = (\<lambda>_. True)" and "p2p_ID (n_p2p other) \<noteq> []"
    and "lp_peer_decode (e_lp e) (lp_peer_encode (e_lp e) []) \<in> {None, Some []}"
    and "p2p_sent (n_p2p (broadcastInactivityReport e n p)) = p2p_sent (n_p2p n) @ [(InactivityTopic, dat)]"
  shows "n_inactivityMonitor (handleInactivityMessage e other InactivityTopic \<lparr>msg_Data = dat, msg_ReceivedFrom = q\<rparr>) =
      n_inactivityMonitor other \<and>
    (lp_peer_decode (e_lp e) (lp_peer_encode (e_lp e) []) = None \<longrightarrow>
      handleInactivityMessage e other InactivityTopic \<lparr>msg_Data = dat, msg_ReceivedFrom = q\<rparr> =
      penalize e other q 1 ''malformed inactivity message'')"
proof -
  let ?lp = "e_lp e"
  obtain m where m: "dat = marshal_inactivity ?lp m" "ina_To m = []" "ina_Type m = ''inactivity_report''"
    using assms(1-3,6) by (auto simp: broadcastInactivityReport_def GetInactivityRecord_def node_publish_sent)
  have to: "json_peer ?lp [(''type'', a), (''from'', b), (''to'', peer_json ?lp []), (''target_peer'', c), (''timestamp'', d),
      (''client_version'', f), (''reason'', g), (''evidence'', h)] ''to'' = lp_peer_decode ?lp (lp_peer_encode ?lp [])" for a b c d f g h
    by (simp add: json_peer_def peer_json_def lower_def)
  have dec: "unmarshal_inactivity ?lp dat = json_inactivity ?lp (inactivity_json ?lp m)"
    by (simp add: m(1) unmarshal_inactivity_def marshal_inactivity_def parse_print_json)
  show ?thesis
  proof (cases "lp_peer_decode ?lp (lp_peer_encode ?lp [])")
    case None
    then have "unmarshal_inactivity ?lp dat = None"
      unfolding dec by (auto simp: json_inactivity_def inactivity_json_def m(2) to bind_eq_None_conv split: bind_split)
    then show ?thesis by (simp add: handleInactivityMessage_def)
  next
    case (Some x)
    then have "m'\<noteq> None \<longrightarrow> ina_To (the m') = [] \<and> ina_Type (the m') = ''inactivity_report''"
      if "m' = unmarshal_inactivity ?lp dat" for m'
      using that assms(5) unfolding dec
      by (auto simp: json_inactivity_def inactivity_json_def m(2,3) to bind_eq_Some_conv field_def lower_def)
    then show ?thesis
      using assms(4) Some
      by (auto simp: handleInactivityMessage_def handleInactivityReport_def split: option.split)
  qed
qed

theorem broadcast_report_is_ignored_witness:
  "\<exists>dat. handleInactivityMessage demo_env (demo_node [] ''other'' []) InactivityTopic \<lparr>msg_Data = dat, msg_ReceivedFrom = ''me''\<rparr> =
     penalize demo_env (demo_node [] ''other'' []) ''me'' 1 ''malformed inactivity message''"
proof -
  let ?n = "recordInactivity demo_env demo_seed_node ''p'' ''x'' ''late'' []"
  have rec: "\<exists>r. GetInactivityRecord ?n ''p'' = Some r"
    by (simp add: GetInactivityRecord_def recordInactivity_def Let_def)
  have top: "InactivityTopic \<in> set (p2p_topics (n_p2p ?n))"
    by (simp add: recordInactivity_def Let_def demo_seed_node_def demo_node_def)
  obtain r where r: "GetInactivityRecord ?n ''p'' = Some r" using rec by blast
  have pub: "lp_publish demo_libp2p = (\<lambda>_ _. True)" "lp_peer_decode demo_libp2p (lp_peer_encode demo_libp2p []) = None"
    by (simp_all add: demo_libp2p_def)
  obtain dat where "p2p_sent (n_p2p (broadcastInactivityReport demo_env ?n ''p'')) = p2p_sent (n_p2p ?n) @ [(InactivityTopic, dat)]"
    using r top pub by (auto simp: broadcastInactivityReport_def GetInactivityRecord_def node_publish_sent)
  then show ?thesis
    using broadcast_report_is_ignored [of ?n "''p''" r demo_env "demo_node [] ''other'' []" dat "''me''"] r top pub
    by (auto simp: demo_node_def)
qed

end
