(* ===== verification/Optimistic_Push.thy ===== *)
theory Optimistic_Push
  imports Handshake
begin

text \<open>
  \<^verbatim>\<open>optimistic_push.go\<close>: a node asks its whitelisted peers for recent blocks, and answers such
  requests from its own whitelisted peers with headers (for light nodes) or the latest block.
  What arrives in an answer is only logged (\<^verbatim>\<open>processReceivedBlockData\<close> and
  \<^verbatim>\<open>processReceivedBlockHeaders\<close> are empty), so the handlers of answers leave the node as it was.
  The untyped \<^verbatim>\<open>interface{}\<close> fields are JSON values.
\<close>

section \<open>Messages\<close>

record OptimisticPushMessage =
  pm_Type :: string
  pm_From :: peerID
  pm_To :: peerID
  pm_RequestID :: string
  pm_Timestamp :: i64
  pm_ClientVersion :: string
  pm_BlockHeight :: u64
  pm_BlockData :: json
  pm_BlockHeaders :: "json list"
  pm_IsLightNode :: bool

definition OptimisticPushTopic :: string where
  "OptimisticPushTopic = ''/dyphira/optimistic-push/v1''"

text \<open>Members with \<^verbatim>\<open>omitempty\<close> are left out when they hold the zero value.\<close>

definition push_json :: "libp2p \<Rightarrow> OptimisticPushMessage \<Rightarrow> json" where
  "push_json lp m = JObj
     ([(''type'', JStr (pm_Type m)),
       (''from'', peer_json lp (pm_From m)),
       (''to'', peer_json lp (pm_To m)),
       (''request_id'', JStr (pm_RequestID m)),
       (''timestamp'', i64_json (pm_Timestamp m)),
       (''client_version'', JStr (pm_ClientVersion m))] @
      (if pm_BlockHeight m = 0 then [] else [(''block_height'', u64_json (pm_BlockHeight m))]) @
      (if pm_BlockData m = JNull then [] else [(''block_data'', pm_BlockData m)]) @
      (if pm_BlockHeaders m = [] then [] else [(''block_headers'', JArr (pm_BlockHeaders m))]) @
      [(''is_light_node'', JBool (pm_IsLightNode m))])"

definition json_push :: "libp2p \<Rightarrow> json \<Rightarrow> OptimisticPushMessage option" where
  "json_push lp v = do {
     kvs \<leftarrow> members v;
     ty \<leftarrow> json_str (field kvs ''type'');
     from \<leftarrow> json_peer lp kvs ''from'';
     to \<leftarrow> json_peer lp kvs ''to'';
     ri \<leftarrow> json_str (field kvs ''request_id'');
     ts \<leftarrow> json_i64 (field kvs ''timestamp'');
     cv \<leftarrow> json_str (field kvs ''client_version'');
     bh \<leftarrow> json_u64 (field kvs ''block_height'');
     hs \<leftarrow> json_list Some (field kvs ''block_headers'');
     li \<leftarrow> json_bool (field kvs ''is_light_node'');
     Some \<lparr>pm_Type = ty, pm_From = from, pm_To = to, pm_RequestID = ri, pm_Timestamp = ts, pm_ClientVersion = cv,
       pm_BlockHeight = bh, pm_BlockData = field kvs ''block_data'', pm_BlockHeaders = hs, pm_IsLightNode = li\<rparr> }"

definition marshal_push :: "libp2p \<Rightarrow> OptimisticPushMessage \<Rightarrow> bytes" where
  "marshal_push lp m = print_json (push_json lp m)"

definition unmarshal_push :: "libp2p \<Rightarrow> bytes \<Rightarrow> OptimisticPushMessage option" where
  "unmarshal_push lp dat = Option.bind (parse_json dat) (json_push lp)"

lemma json_push_id:
  assumes "peer_ok lp (pm_From m)" "peer_ok lp (pm_To m)"
  shows "json_push lp (push_json lp m) = Some m"
proof -
  have arr: "json_list Some (JArr vs) = Some vs" for vs by (simp add: json_list_def map_opt_map [of _ _ id, simplified])
  have z: "json_u64 JNull = Some 0" "json_list Some JNull = Some []" by (simp_all add: json_u64_def json_list_def)
  show ?thesis
    using assms
    by (cases "pm_BlockHeight m = 0"; cases "pm_BlockData m = JNull"; cases "pm_BlockHeaders m = []")
      (simp_all add: json_push_def push_json_def json_peer_def peer_json_def peer_ok_def field_def lower_def arr z)
qed

lemma unmarshal_marshal_push:
  "peer_ok lp (pm_From m) \<Longrightarrow> peer_ok lp (pm_To m) \<Longrightarrow> unmarshal_push lp (marshal_push lp m) = Some m"
  by (simp add: unmarshal_push_def marshal_push_def parse_print_json json_push_id)

section \<open>Serving requests\<close>

definition push_heights :: "u64 \<Rightarrow> u64 list" where
  "push_heights height =
     (let startHeight = (if 100 < height then height - 100 else 0)
      in map of_nat [unat startHeight..<Suc (unat height)])"

definition getBlockHeaders :: "'s env \<Rightarrow> 's AppNode \<Rightarrow> u64 \<Rightarrow> json list" where
  "getBlockHeaders e n height =
     List.map_filter (\<lambda>i. case GetBlockByHeight (e_st e) (n_bc n) i of
         Inl _ \<Rightarrow> None | Inr block \<Rightarrow> Some (header_json (blk_Header block))) (push_heights height)"

definition getBlockData :: "'s env \<Rightarrow> 's AppNode \<Rightarrow> u64 \<Rightarrow> json" where
  "getBlockData e n height =
     (case GetBlockByHeight (e_st e) (n_bc n) height of Inl _ \<Rightarrow> JNull | Inr block \<Rightarrow> block_json block)"

definition push_response :: "'s env \<Rightarrow> 's AppNode \<Rightarrow> peerID \<Rightarrow> string \<Rightarrow> bool \<Rightarrow> OptimisticPushMessage" where
  "push_response e n to requestID isLightNode =
     (let currentHeight = Height (n_bc n)
      in \<lparr>pm_Type = ''push_response'', pm_From = p2p_ID (n_p2p n), pm_To = to, pm_RequestID = requestID,
          pm_Timestamp = now64 e, pm_ClientVersion = ''dyphira-v1.0'', pm_BlockHeight = currentHeight,
          pm_BlockData = (if isLightNode then JNull else getBlockData e n currentHeight),
          pm_BlockHeaders = (if isLightNode then getBlockHeaders e n currentHeight else []),
          pm_IsLightNode = isLightNode\<rparr>)"

definition sendPushResponse :: "'s env \<Rightarrow> 's AppNode \<Rightarrow> peerID \<Rightarrow> string \<Rightarrow> bool \<Rightarrow> 's AppNode" where
  "sendPushResponse e n to requestID isLightNode =
     snd (node_publish e n OptimisticPushTopic (marshal_push (e_lp e) (push_response e n to requestID isLightNode)))"

definition handlePushRequest :: "'s env \<Rightarrow> 's AppNode \<Rightarrow> OptimisticPushMessage \<Rightarrow> 's AppNode" where
  "handlePushRequest e n request =
     (if pm_To request \<noteq> p2p_ID (n_p2p n) then n
      else
        (case GetPeerStatus (n_barNet n) (pm_From request) of
           (status, exists) \<Rightarrow>
             if \<not> exists \<or> status \<noteq> PeerStatusWhitelist then n
             else sendPushResponse e n (pm_From request) (pm_RequestID request) (pm_IsLightNode request)))"

definition processReceivedBlockData :: "'s AppNode \<Rightarrow> json \<Rightarrow> u64 \<Rightarrow> 's AppNode" where
  "processReceivedBlockData n blockData height = n"

definition processReceivedBlockHeaders :: "'s AppNode \<Rightarrow> json list \<Rightarrow> 's AppNode" where
  "processReceivedBlockHeaders n headers = n"

definition handlePushResponse :: "'s AppNode \<Rightarrow> OptimisticPushMessage \<Rightarrow> 's AppNode" where
  "handlePushResponse n response =
     (if pm_To response \<noteq> p2p_ID (n_p2p n) then n
      else
        (let n1 = (if pm_BlockData response \<noteq> JNull
                   then processReceivedBlockData n (pm_BlockData response) (pm_BlockHeight response) else n)
         in if pm_BlockHeaders response \<noteq> [] then processReceivedBlockHeaders n1 (pm_BlockHeaders response) else n1))"

definition handleBlockData :: "'s AppNode \<Rightarrow> OptimisticPushMessage \<Rightarrow> 's AppNode" where
  "handleBlockData n blockMsg =
     (if pm_To blockMsg \<noteq> p2p_ID (n_p2p n) then n
      else if pm_BlockData blockMsg \<noteq> JNull
      then processReceivedBlockData n (pm_BlockData blockMsg) (pm_BlockHeight blockMsg)
      else n)"

definition handleOptimisticPushMessage :: "'s env \<Rightarrow> 's AppNode \<Rightarrow> string \<Rightarrow> Message \<Rightarrow> 's AppNode" where
  "handleOptimisticPushMessage e n topic msg =
     (if topic \<noteq> OptimisticPushTopic then n
      else
        (case unmarshal_push (e_lp e) (msg_Data msg) of
           None \<Rightarrow> penalize e n (msg_ReceivedFrom msg) 1 ''malformed optimistic push message''
         | Some m \<Rightarrow>
             if pm_From m = p2p_ID (n_p2p n) then n
             else if pm_Type m = ''push_request'' then handlePushRequest e n m
             else if pm_Type m = ''push_response'' then handlePushResponse n m
             else if pm_Type m = ''block_data'' then handleBlockData n m
             else n))"

section \<open>Requesting\<close>

definition push_request :: "'s env \<Rightarrow> 's AppNode \<Rightarrow> peerID \<Rightarrow> string \<Rightarrow> bool \<Rightarrow> OptimisticPushMessage" where
  "push_request e n to requestID isLightNode =
     \<lparr>pm_Type = ''push_request'', pm_From = p2p_ID (n_p2p n), pm_To = to, pm_RequestID = requestID,
      pm_Timestamp = now64 e, pm_ClientVersion = ''dyphira-v1.0'', pm_BlockHeight = 0, pm_BlockData = JNull,
      pm_BlockHeaders = [], pm_IsLightNode = isLightNode\<rparr>"

definition RequestOptimisticPush :: "'s env \<Rightarrow> 's AppNode \<Rightarrow> bool \<Rightarrow> gerror option \<times> 's AppNode" where
  "RequestOptimisticPush e n isLightNode =
     (let whitelist = GetWhitelist (n_barNet n);
          requestID = ''push_'' @ print_int (sint (now64 e))
      in if whitelist = [] then (Some ErrNoWhitelistedPeers, n)
         else
           (None, foldl (\<lambda>n info. snd (node_publish e n OptimisticPushTopic
              (marshal_push (e_lp e) (push_request e n (pi_ID info) requestID isLightNode)))) n whitelist))"

definition TriggerOptimisticPushForNewPeer :: "'s env \<Rightarrow> 's AppNode \<Rightarrow> peerID \<Rightarrow> 's AppNode" where
  "TriggerOptimisticPushForNewPeer e n peer =
     snd (node_publish e n OptimisticPushTopic (marshal_push (e_lp e)
       (push_request e n peer (''new_peer_push_'' @ print_int (sint (now64 e))) False)))"

definition Push_Start :: "'s env \<Rightarrow> 's AppNode \<Rightarrow> 's AppNode option" where
  "Push_Start e n =
     map_option (\<lambda>p. n\<lparr>n_p2p := Subscribe (e_lp e) p PushHandler\<rparr>) (RegisterTopic (e_lp e) (n_p2p n) OptimisticPushTopic)"

end
