(* ===== verification/Lifecycle.thy ===== *)
theory Lifecycle
  imports Node_Base
begin

text \<open>
  \<^verbatim>\<open>fast_sync.go\<close> and \<^verbatim>\<open>graceful_shutdown.go\<close>: the fast-sync manager, whose steps are stubs in
  the source, and the list of shutdown hooks.  A hook acts on a state of any type \<open>'w\<close>
  and may return an error text.  What a signal does (\<^verbatim>\<open>ListenAndServe\<close>) is in \<open>Program\<close>.
\<close>

section \<open>Fast sync\<close>

definition discoverPeers :: "string list" where
  "discoverPeers = [''peer1'', ''peer2'']"

definition requestStateSnapshot :: "gerror option" where
  "requestStateSnapshot = None"

definition requestBlockStream :: "gerror option" where
  "requestBlockStream = None"

definition applyStateAndBlocks :: "gerror option" where
  "applyStateAndBlocks = None"

definition FastSync_Start :: "'s AppNode \<Rightarrow> 's AppNode" where
  "FastSync_Start n =
     (if fsm_isSyncing (n_fastSyncManager n) then n
      else n\<lparr>n_fastSyncManager := (n_fastSyncManager n)\<lparr>fsm_isSyncing := True\<rparr>, n_tasks := n_tasks n @ [FastSync]\<rparr>)"

text \<open>The body of the goroutine, whichever step ends it: only the peers are set and the flag is cleared.\<close>

definition fastsync_syncLoop :: "'s AppNode \<Rightarrow> 's AppNode" where
  "fastsync_syncLoop n =
     (let fsm = (n_fastSyncManager n)\<lparr>fsm_peers := discoverPeers\<rparr>;
          finish = n\<lparr>n_fastSyncManager := fsm\<lparr>fsm_isSyncing := False\<rparr>\<rparr>
      in if fsm_peers fsm = [] then finish
         else if requestStateSnapshot \<noteq> None then finish
         else if requestBlockStream \<noteq> None then finish
         else if applyStateAndBlocks \<noteq> None then finish
         else finish)"

section \<open>Graceful shutdown\<close>

record ShutdownStatus =
  ss_Reason :: string
  ss_Components :: "(string, string) gomap"

record 'w GracefulShutdown =
  gs_components :: "(string \<times> ('w \<Rightarrow> string option \<times> 'w)) list"
  gs_cancelled :: bool
  gs_status :: ShutdownStatus

definition NewGracefulShutdown :: "'w GracefulShutdown" where
  "NewGracefulShutdown = \<lparr>gs_components = [], gs_cancelled = False, gs_status = \<lparr>ss_Reason = [], ss_Components = []\<rparr>\<rparr>"

definition Register :: "'w GracefulShutdown \<Rightarrow> string \<Rightarrow> ('w \<Rightarrow> string option \<times> 'w) \<Rightarrow> 'w GracefulShutdown" where
  "Register gs component shutdownFunc = gs\<lparr>gs_components := gs_components gs @ [(component, shutdownFunc)]\<rparr>"

text \<open>One wrapped hook: run it and note the outcome under the component's name.\<close>

definition hook_status :: "string option \<Rightarrow> string" where
  "hook_status err = (case err of Some m \<Rightarrow> ''error: '' @ m | None \<Rightarrow> ''stopped'')"

fun run_hooks ::
  "(string \<times> ('w \<Rightarrow> string option \<times> 'w)) list \<Rightarrow> (string, string) gomap \<Rightarrow> 'w \<Rightarrow> (string, string) gomap \<times> 'w" where
  "run_hooks [] st w = (st, w)"
| "run_hooks ((component, shutdownFunc) # hooks) st w =
     (case shutdownFunc w of (err, w') \<Rightarrow> run_hooks hooks (go_set st component (hook_status err)) w')"

definition Shutdown :: "'w GracefulShutdown \<Rightarrow> string \<Rightarrow> 'w \<Rightarrow> 'w GracefulShutdown \<times> 'w" where
  "Shutdown gs reason w =
     (case run_hooks (gs_components gs) (ss_Components (gs_status gs)) w of
        (st, w') \<Rightarrow> (gs\<lparr>gs_status := \<lparr>ss_Reason = reason, ss_Components = st\<rparr>, gs_cancelled := True\<rparr>, w'))"

definition Status :: "'w GracefulShutdown \<Rightarrow> ShutdownStatus" where
  "Status gs = gs_status gs"

section \<open>What a shutdown does\<close>

text \<open>The state before the hook with index \<open>i\<close>: all earlier hooks ran, in order, whatever they returned.\<close>

definition state_before :: "('w \<Rightarrow> string option \<times> 'w) list \<Rightarrow> nat \<Rightarrow> 'w \<Rightarrow> 'w" where
  "state_before hooks i w = foldl (\<lambda>w f. snd (f w)) w (take i hooks)"

lemma run_hooks_state: "snd (run_hooks hooks st w) = foldl (\<lambda>w f. snd (f w)) w (map snd hooks)"
  by (induction hooks arbitrary: st w) (auto simp: split_beta)

lemma run_hooks_other: "c \<notin> fst ` set hooks \<Longrightarrow> go_get (fst (run_hooks hooks st w)) c = go_get st c"
  by (induction hooks arbitrary: st w) (auto simp: split_beta)

lemma run_hooks_status:
  assumes "i < length hooks" and "fst (hooks ! i) \<notin> fst ` set (drop (Suc i) hooks)"
  shows "go_get (fst (run_hooks hooks st w)) (fst (hooks ! i)) =
    Some (hook_status (fst (snd (hooks ! i) (state_before (map snd hooks) i w))))"
  using assms
proof (induction hooks arbitrary: i st w)
  case (Cons h hooks)
  show ?case
  proof (cases i)
    case 0
    with Cons.prems show ?thesis
      by (cases h) (simp add: state_before_def split_beta run_hooks_other)
  next
    case (Suc j)
    with Cons.prems show ?thesis
      using Cons.IH [of j] by (cases h) (simp add: state_before_def split_beta)
  qed
qed simp

section \<open>Properties\<close>

text \<open>
  A shutdown stops every component.  All registered hooks run exactly once, in the order of
  their registration, even when earlier ones fail; the status map ends with the outcome of the
  last hook of each component name, and the reason is recorded.
\<close>

theorem shutdown_runs_every_hook:
  assumes "Shutdown gs reason w = (gs', w')" and "i < length (gs_components gs)"
    and "fst (gs_components gs ! i) \<notin> fst ` set (drop (Suc i) (gs_components gs))"
  shows "w' = foldl (\<lambda>w f. snd (f w)) w (map snd (gs_components gs)) \<and>
    ss_Reason (Status gs') = reason \<and>
    go_get (ss_Components (Status gs')) (fst (gs_components gs ! i)) =
      Some (hook_status (fst (snd (gs_components gs ! i) (state_before (map snd (gs_components gs)) i w))))"
  using assms run_hooks_state [of "gs_components gs"] run_hooks_status [OF assms(2,3)]
  by (auto simp: Shutdown_def Status_def split_beta)

theorem shutdown_runs_every_hook_witness:
  "go_get (ss_Components (Status (fst (Shutdown
      (Register (Register NewGracefulShutdown ''api'' (\<lambda>n :: nat. (Some ''busy'', n + 1))) ''db'' (\<lambda>n. (None, n * 10)))
      ''signal: interrupt'' 0)))) ''api'' = Some ''error: busy''"
proof -
  let ?gs = "Register (Register NewGracefulShutdown ''api'' (\<lambda>n :: nat. (Some ''busy'', n + 1))) ''db'' (\<lambda>n. (None, n * 10))"
  show ?thesis
    using shutdown_runs_every_hook [OF surjective_pairing, of 0 ?gs "''signal: interrupt''" 0]
    by (simp add: Register_def NewGracefulShutdown_def state_before_def hook_status_def)
qed

end
