(* ===== verification/App_Node.thy ===== *)
theory App_Node
  imports Handshake Inactivity Optimistic_Push Lifecycle
begin

text \<open>
  \<^verbatim>\<open>node.go\<close>: the handlers of network messages, block production, approval and finalization of
  received blocks, committee elections, validator registration and block synchronization.

  A handler that dereferences a nil pointer ends the process: such handlers return an
  \<open>option\<close>, with \<open>None\<close> for the crash.  Each handler, timer tick and goroutine is one step; the
  locks of the source make the parts of a step atomic for the maps they guard, and the steps
  are interleaved arbitrarily by \<open>node_input\<close>.
\<close>

section \<open>Messages\<close>

definition TransactionTopic :: string where "TransactionTopic = ''/dyphira/transactions/v1''"

definition BlockTopic :: string where "BlockTopic = ''/dyphira/blocks/v1''"

definition ApprovalTopic :: string where "ApprovalTopic = ''/dyphira/approvals/v1''"

definition BlockRequestTopic :: string where "BlockRequestTopic = ''/dyphira/block-requests/v1''"

definition BlockResponseTopic :: string where "BlockResponseTopic = ''/dyphira/block-responses/v1''"

definition ValidatorTopic :: string where "ValidatorTopic = ''/dyphira/validators/v1''"

definition EpochLength :: u64 where "EpochLength = 270"

definition CommitteeSize :: nat where "CommitteeSize = 30"

lemmas topic_defs = TransactionTopic_def BlockTopic_def ApprovalTopic_def BlockRequestTopic_def
  BlockResponseTopic_def ValidatorTopic_def

record BlockRequest =
  breq_Height :: u64
  breq_From :: address

text \<open>A received block may be a nil pointer, or have a nil header.\<close>

datatype wire_block = NilBlock | NilHeader | WireBlock Block

record BlockResponse =
  bresp_Block :: wire_block
  bresp_From :: address

definition approval_json :: "Approval \<Rightarrow> json" where
  "approval_json a = JObj
     [(''blockHash'', hash_json (app_BlockHash a)), (''address'', address_json (app_Address a)),
      (''signature'', slice_json (app_Signature a))]"

definition json_approval :: "json \<Rightarrow> Approval option" where
  "json_approval v = do {
     kvs \<leftarrow> members v;
     h \<leftarrow> json_hash (field kvs ''blockHash'');
     a \<leftarrow> json_address (field kvs ''address'');
     s \<leftarrow> json_slice (field kvs ''signature'');
     Some \<lparr>app_BlockHash = h, app_Address = a, app_Signature = s\<rparr> }"

definition registration_json :: "ValidatorRegistration \<Rightarrow> json" where
  "registration_json r = JObj [(''address'', address_json (vreg_Address r)), (''stake'', u64_json (vreg_Stake r))]"

definition json_registration :: "json \<Rightarrow> ValidatorRegistration option" where
  "json_registration v = do {
     kvs \<leftarrow> members v;
     a \<leftarrow> json_address (field kvs ''address'');
     s \<leftarrow> json_u64 (field kvs ''stake'');
     Some \<lparr>vreg_Address = a, vreg_Stake = s\<rparr> }"

definition request_json :: "BlockRequest \<Rightarrow> json" where
  "request_json r = JObj [(''height'', u64_json (breq_Height r)), (''from'', address_json (breq_From r))]"

definition json_request :: "json \<Rightarrow> BlockRequest option" where
  "json_request v = do {
     kvs \<leftarrow> members v;
     h \<leftarrow> json_u64 (field kvs ''height'');
     f \<leftarrow> json_address (field kvs ''from'');
     Some \<lparr>breq_Height = h, breq_From = f\<rparr> }"

text \<open>Reading a struct \<^verbatim>\<open>Block\<close>: when the header is missing the other members must still be readable.\<close>

definition json_struct_block :: "json \<Rightarrow> wire_block option" where
  "json_struct_block v =
     (case members v of
        None \<Rightarrow> None
      | Some kvs \<Rightarrow>
          if field kvs ''Header'' = JNull
          then (if json_block (JObj ((''Header'', JObj []) # kvs)) = None then None else Some NilHeader)
          else map_option WireBlock (json_block v))"

definition response_json :: "Block \<Rightarrow> address \<Rightarrow> json" where
  "response_json b from = JObj [(''block'', block_json b), (''from'', address_json from)]"

definition json_response :: "json \<Rightarrow> BlockResponse option" where
  "json_response v = do {
     kvs \<leftarrow> members v;
     b \<leftarrow> (if field kvs ''block'' = JNull then Some NilBlock else json_struct_block (field kvs ''block''));
     f \<leftarrow> json_address (field kvs ''from'');
     Some \<lparr>bresp_Block = b, bresp_From = f\<rparr> }"

section \<open>Transactions\<close>

definition handleTransaction :: "'s env \<Rightarrow> 's AppNode \<Rightarrow> Message \<Rightarrow> 's AppNode" where
  "handleTransaction e n msg =
     (case NetworkTransaction_Decode (msg_Data msg) of
        Inl _ \<Rightarrow> penalize e n (msg_ReceivedFrom msg) 1 ''malformed transaction message''
      | Inr netTx \<Rightarrow>
          (case ntx_Tx netTx of
             None \<Rightarrow> penalize e n (msg_ReceivedFrom msg) 1 ''nil transaction in message''
           | Some tx \<Rightarrow>
               (case ntx_PubKey netTx of
                  None \<Rightarrow> penalize e n (msg_ReceivedFrom msg) 1 ''nil pubkey in message''
                | Some keyBytes \<Rightarrow>
                 (case UnmarshalPublicKey (e_cr e) keyBytes of
                    None \<Rightarrow> penalize e n (msg_ReceivedFrom msg) 1 ''invalid public key''
                  | Some pubKey \<Rightarrow>
                      (case Pool_AddTransaction (e_cr e) (n_txPool n) tx pubKey (n_state n) of
                         (Some _, tp, state) \<Rightarrow>
                           penalize e (n\<lparr>n_txPool := tp, n_state := state\<rparr>) (msg_ReceivedFrom msg) 1 ''invalid transaction''
                       | (None, tp, state) \<Rightarrow>
                           n\<lparr>n_txPool := tp, n_state := state, n_metrics := RecordTransaction (e_now e) (n_metrics n)\<rparr>)))))"

definition BroadcastTransaction :: "'s env \<Rightarrow> 's AppNode \<Rightarrow> Transaction \<Rightarrow> gerror option \<times> 's AppNode" where
  "BroadcastTransaction e n tx =
     (case node_publish e n TransactionTopic (NetworkTransaction_Encode
        \<lparr>ntx_Tx = Some tx, ntx_PubKey = Some (MarshalPublicKey (e_cr e) (pub_key (e_cr e) (n_privKey n)))\<rparr>) of
        (err, n') \<Rightarrow> (map_option (ErrWrapped ''failed to publish transaction'') err, n'))"

section \<open>Blocks and approvals\<close>

definition broadcastApproval :: "'s env \<Rightarrow> 's AppNode \<Rightarrow> Block \<Rightarrow> 's AppNode" where
  "broadcastApproval e n block =
     snd (node_publish e n ApprovalTopic (print_json (approval_json
       \<lparr>app_BlockHash = blk_Hash block, app_Address = n_address n,
        app_Signature = ecdsa_sign (e_cr e) (n_privKey n) (blk_Hash block)\<rparr>)))"

definition add_buffered :: "BlockApproval \<Rightarrow> Approval list \<Rightarrow> BlockApproval" where
  "add_buffered ba as = foldl (\<lambda>ba a. snd (AddSignature ba (app_Address a) (app_Signature a))) ba as"

text \<open>The end of \<^verbatim>\<open>processReceivedBlock\<close>: start the finalization of an approved block and broadcast the vote.\<close>

definition after_vote :: "'s env \<Rightarrow> 's AppNode \<Rightarrow> Block \<Rightarrow> BlockApproval \<Rightarrow> 's AppNode" where
  "after_vote e n block approval =
     broadcastApproval e (if IsApproved approval then n\<lparr>n_tasks := n_tasks n @ [FinalizeBlock block]\<rparr> else n) block"

definition processReceivedBlock :: "'s env \<Rightarrow> 's AppNode \<Rightarrow> Block \<Rightarrow> 's AppNode" where
  "processReceivedBlock e n block =
     (let h = blk_Hash block; currentHeight = Height (n_bc n)
      in if go_get (n_pendingBlocks n) h \<noteq> None then n
         else if HasBlock (e_st e) (n_bc n) h then n
         else if currentHeight + 10 < blk_Number block then n
         else if blk_Number block < currentHeight then n
         else
           (let approval0 = NewBlockApproval block (n_committee n);
                (approval1, buffer) =
                  (case go_get (n_approvalBuffer n) h of
                     Some as \<Rightarrow> (add_buffered approval0 as, go_delete (n_approvalBuffer n) h)
                   | None \<Rightarrow> (approval0, n_approvalBuffer n));
                n1 = n\<lparr>n_pendingBlocks := go_set (n_pendingBlocks n) h approval1, n_approvalBuffer := buffer,
                       n_tasks := n_tasks n @ [WatchApproval block]\<rparr>
            in if isCommitteeMember_loop (n_committee n) (n_address n) then
                 (case AddSignature approval1 (n_address n) (ecdsa_sign (e_cr e) (n_privKey n) h) of
                    (Some _, _) \<Rightarrow> n1\<lparr>n_pendingBlocks := go_delete (n_pendingBlocks n1) h\<rparr>
                  | (None, approval2) \<Rightarrow>
                      after_vote e (n1\<lparr>n_pendingBlocks := go_set (n_pendingBlocks n1) h approval2\<rparr>) block approval2)
               else after_vote e n1 block approval1))"

definition handleBlockProposal :: "'s env \<Rightarrow> 's AppNode \<Rightarrow> Message \<Rightarrow> 's AppNode option" where
  "handleBlockProposal e n msg =
     (case Option.bind (parse_json (msg_Data msg)) json_struct_block of
        None \<Rightarrow> Some (penalize e n (msg_ReceivedFrom msg) 2 ''malformed block message'')
      | Some (WireBlock block) \<Rightarrow> Some (processReceivedBlock e n block)
      | Some _ \<Rightarrow> None)"

definition processApproval :: "'s AppNode \<Rightarrow> Approval \<Rightarrow> 's AppNode" where
  "processApproval n a =
     (case go_get (n_pendingBlocks n) (app_BlockHash a) of
        None \<Rightarrow>
          n\<lparr>n_approvalBuffer := go_set (n_approvalBuffer n) (app_BlockHash a)
             ((case go_get (n_approvalBuffer n) (app_BlockHash a) of None \<Rightarrow> [] | Some as \<Rightarrow> as) @ [a])\<rparr>
      | Some approval \<Rightarrow>
          (case AddSignature approval (app_Address a) (app_Signature a) of
             (Some _, _) \<Rightarrow> n
           | (None, approval') \<Rightarrow>
               let n1 = n\<lparr>n_pendingBlocks := go_set (n_pendingBlocks n) (app_BlockHash a) approval'\<rparr>
               in if IsApproved approval' then n1\<lparr>n_tasks := n_tasks n1 @ [FinalizeBlock (ba_Block approval')]\<rparr> else n1))"

definition handleApproval :: "'s env \<Rightarrow> 's AppNode \<Rightarrow> Message \<Rightarrow> 's AppNode" where
  "handleApproval e n msg =
     (case Option.bind (parse_json (msg_Data msg)) json_approval of
        None \<Rightarrow> penalize e n (msg_ReceivedFrom msg) 1 ''malformed approval message''
      | Some a \<Rightarrow> processApproval n a)"

text \<open>The two events of \<^verbatim>\<open>watchBlockApproval\<close>; the first component says whether the goroutine goes on.\<close>

definition watch_tick :: "'s AppNode \<Rightarrow> Block \<Rightarrow> bool \<times> 's AppNode" where
  "watch_tick n block =
     (case go_get (n_pendingBlocks n) (blk_Hash block) of
        None \<Rightarrow> (False, n)
      | Some approval \<Rightarrow>
          if IsApproved approval then (False, n\<lparr>n_tasks := n_tasks n @ [FinalizeBlock block]\<rparr>) else (True, n))"

definition watch_timeout :: "'s AppNode \<Rightarrow> Block \<Rightarrow> 's AppNode" where
  "watch_timeout n block = n\<lparr>n_pendingBlocks := go_delete (n_pendingBlocks n) (blk_Hash block)\<rparr>"

text \<open>
  The loops over the transactions of the block dereference every pointer: when the transactions before the
  first nil pointer were applied without error, the goroutine panics there, which ends the process
  (\<open>finalize_panics\<close>).  \<open>finalizeApprovedBlock\<close> is then the node at that point.
\<close>

definition finalizeApprovedBlock :: "'s env \<Rightarrow> 's AppNode \<Rightarrow> Block \<Rightarrow> 's AppNode" where
  "finalizeApprovedBlock e n block =
     (if go_get (n_pendingBlocks n) (blk_Hash block) = None then n
      else
        (let n1 = n\<lparr>n_pendingBlocks := go_delete (n_pendingBlocks n) (blk_Hash block)\<rparr>
         in case AddBlock (e_st e) (n_bc n1) block of
              (Some _, bc) \<Rightarrow> n1\<lparr>n_bc := bc\<rparr>
            | (None, bc) \<Rightarrow>
                (case ApplyBlockWithRegistry (e_cr e) (e_st e) block (n_state n1) (n_vr n1) of
                   (Some _, state, vr) \<Rightarrow> n1\<lparr>n_bc := bc, n_state := state, n_vr := vr\<rparr>
                 | (None, state, vr) \<Rightarrow>
                     if blk_FromNil block \<noteq> None then n1\<lparr>n_bc := bc, n_state := state, n_vr := vr\<rparr>
                     else
                     n1\<lparr>n_bc := bc, n_state := state, n_vr := vr,
                        n_metrics := RecordFinalityTime (RecordBlockProduction (e_now e) (n_metrics n1)) 250000000,
                        n_txPool := foldl RemoveTransaction (n_txPool n1) (map tx_Hash (blk_Transactions block))\<rparr>)))"

definition finalize_panics :: "'s env \<Rightarrow> 's AppNode \<Rightarrow> Block \<Rightarrow> bool" where
  "finalize_panics e n block \<longleftrightarrow>
     go_get (n_pendingBlocks n) (blk_Hash block) \<noteq> None \<and> fst (AddBlock (e_st e) (n_bc n) block) = None \<and>
     fst (ApplyBlockWithRegistry (e_cr e) (e_st e) block (n_state n) (n_vr n)) = None \<and> blk_FromNil block \<noteq> None"

section \<open>The committee\<close>

definition need_re_election :: "'s env \<Rightarrow> 's AppNode \<Rightarrow> u64 \<Rightarrow> bool" where
  "need_re_election e n epochStartHeight \<longleftrightarrow>
     n_committee n = [] \<or>
     (case n_proposerSelector n of None \<Rightarrow> True | Some ps \<Rightarrow> ps_EpochStart ps \<noteq> epochStartHeight) \<or>
     length (n_committee n) < CommitteeSize \<or>
     (case GetAllValidators (e_st e) (n_vr n) of
        Inl _ \<Rightarrow> False
      | Inr vs \<Rightarrow> list_ex (\<lambda>v. val_Participating v \<and> \<not> isCommitteeMember_loop (n_committee n) (val_Address v)) vs)"

definition ForceCommitteeAndProposer :: "'s env \<Rightarrow> 's AppNode \<Rightarrow> 's AppNode" where
  "ForceCommitteeAndProposer e n =
     (let currentHeight = Height (n_bc n);
          epoch = currentHeight div EpochLength;
          epochStartHeight = epoch * EpochLength
      in if \<not> need_re_election e n epochStartHeight then n
         else
           (case SelectCommittee (e_st e) (n_vr n) CommitteeSize of
              Inl _ \<Rightarrow> n
            | Inr newCommittee \<Rightarrow>
                if newCommittee = [] then n
                else n\<lparr>n_committee := newCommittee,
                       n_proposerSelector := Some (NewProposerSelectorWithRotation (e_perm e)
                         newCommittee epochStartHeight EpochLength)\<rparr>))"

definition candidate_less :: "Validator \<Rightarrow> Validator \<Rightarrow> bool" where
  "candidate_less a b =
     (let weightI = val_Stake a + val_DelegatedStake a + val_ComputeReputation a;
          weightJ = val_Stake b + val_DelegatedStake b + val_ComputeReputation b
      in if weightI = weightJ then bytes_less (address_bytes (val_Address a)) (address_bytes (val_Address b))
         else weightJ < weightI)"

fun replace_member :: "address \<Rightarrow> Validator \<Rightarrow> Validator list \<Rightarrow> Validator list" where
  "replace_member addr v [] = []"
| "replace_member addr v (m # ms) = (if val_Address m = addr then v # ms else m # replace_member addr v ms)"

definition ReplaceInactiveValidator ::
  "'s Storage \<Rightarrow> Validator list \<Rightarrow> address \<Rightarrow> 's ValidatorRegistry \<Rightarrow> gerror + Validator list" where
  "ReplaceInactiveValidator st committee inactiveAddress vr =
     (case GetAllValidators st vr of
        Inl err \<Rightarrow> Inl (ErrWrapped ''failed to get all validators'' err)
      | Inr allValidators \<Rightarrow>
          let candidates = filter (\<lambda>v. val_Participating v \<and> \<not> isCommitteeMember_loop committee (val_Address v) \<and>
                                       val_Address v \<noteq> inactiveAddress) allValidators
          in if candidates = [] then Inl (ErrNoReplacement inactiveAddress)
             else Inr (replace_member inactiveAddress (sort_slice candidate_less candidates ! 0) committee))"

section \<open>Producing blocks\<close>

definition propose_block :: "'s env \<Rightarrow> 's AppNode \<Rightarrow> Validator \<Rightarrow> 's AppNode" where
  "propose_block e n proposer =
     (let txs = tb_Transactions (CreateOptimizedBatch (\<lambda>_. now64 e) (\<lambda>_. now64 e) (n_txPool n) (n_state n))
      in case CreateBlock (e_cr e) (e_st e) (now64 e) (n_bc n) txs proposer of
           Inl _ \<Rightarrow> n
         | Inr block0 \<Rightarrow>
             let block = Block_Sign (e_cr e) block0 (n_privKey n)
             in (case AddBlock (e_st e) (n_bc n) block of
                   (Some _, bc) \<Rightarrow> n\<lparr>n_bc := bc\<rparr>
                 | (None, bc) \<Rightarrow>
                     (case ApplyBlockWithRegistry (e_cr e) (e_st e) block (n_state n) (n_vr n) of
                        (Some _, state, vr) \<Rightarrow> n\<lparr>n_bc := bc, n_state := state, n_vr := vr\<rparr>
                      | (None, state, vr) \<Rightarrow>
                          snd (node_publish e
                            (n\<lparr>n_bc := bc, n_state := state, n_vr := vr,
                               n_txPool := foldl RemoveTransaction (n_txPool n) (map tx_Hash txs),
                               n_metrics := foldl (\<lambda>mc _. RecordTransaction (e_now e) mc)
                                 (RecordBlockProduction (e_now e) (n_metrics n)) txs\<rparr>)
                            BlockTopic (Block_Encode block)))))"

text \<open>
  One tick of \<^verbatim>\<open>producerLoop\<close>, with the loop's counter as an argument: the bookkeeping of the round and
  the election, then the proposal.
\<close>

definition start_round :: "'s env \<Rightarrow> 's AppNode \<Rightarrow> u64 \<Rightarrow> 's AppNode" where
  "start_round e n rnd =
     (let n1 = UpdateRound e n rnd;
          n2 = n1\<lparr>n_barNet := snd (FindNodes (e_cr e) (n_barNet n1) rnd)\<rparr>;
          n3 = (if rnd mod 10 = 0 then n2\<lparr>n_barNet := CleanupReputationRecords (n_barNet n2)\<rparr> else n2)
      in ForceCommitteeAndProposer e n3)"

definition producer_tick :: "'s env \<Rightarrow> 's AppNode \<Rightarrow> u64 \<Rightarrow> 's AppNode" where
  "producer_tick e n rnd =
     (let n4 = start_round e n rnd;
          nextHeight = Height (n_bc n4) + 1
      in case n_proposerSelector n4 of
           None \<Rightarrow> n4
         | Some ps \<Rightarrow>
             if n_committee n4 = [] then n4
             else
               (case ProposerForBlock ps nextHeight of
                  None \<Rightarrow> n4
                | Some proposer \<Rightarrow>
                    if val_Address proposer = n_address n4 then propose_block e n4 proposer else n4))"

section \<open>Block synchronization\<close>

definition handleBlockRequest :: "'s env \<Rightarrow> 's AppNode \<Rightarrow> Message \<Rightarrow> 's AppNode" where
  "handleBlockRequest e n msg =
     (case Option.bind (parse_json (msg_Data msg)) json_request of
        None \<Rightarrow> n
      | Some request \<Rightarrow>
          if breq_From request = n_address n then n
          else
            (case GetBlockByHeight (e_st e) (n_bc n) (breq_Height request) of
               Inl _ \<Rightarrow> n
             | Inr block \<Rightarrow> snd (node_publish e n BlockResponseTopic (print_json (response_json block (n_address n))))))"

definition handleBlockResponse :: "'s env \<Rightarrow> 's AppNode \<Rightarrow> Message \<Rightarrow> 's AppNode option" where
  "handleBlockResponse e n msg =
     (case Option.bind (parse_json (msg_Data msg)) json_response of
        None \<Rightarrow> Some n
      | Some response \<Rightarrow>
          if bresp_From response = n_address n then Some n
          else
            (case bresp_Block response of
               WireBlock block \<Rightarrow> Some (processReceivedBlock e n block)
             | _ \<Rightarrow> None))"

definition RequestBlock :: "'s env \<Rightarrow> 's AppNode \<Rightarrow> u64 \<Rightarrow> 's AppNode" where
  "RequestBlock e n height =
     snd (node_publish e n BlockRequestTopic (print_json (request_json \<lparr>breq_Height = height, breq_From = n_address n\<rparr>)))"

text \<open>
  The loop runs over the three heights above the current one; with the bound wrapped around it
  does not run at all.  (At height 2^64 - 4, where the bound is the greatest 64-bit number, the loop of the
  source would never end; heights that large are out of reach.)
\<close>

definition performBlockSync :: "'s env \<Rightarrow> 's AppNode \<Rightarrow> 's AppNode" where
  "performBlockSync e n =
     (let currentHeight = Height (n_bc n)
      in foldl (\<lambda>n height. case GetBlockByHeight (e_st e) (n_bc n) height of
                  Inl _ \<Rightarrow> RequestBlock e n height | Inr _ \<Rightarrow> n)
           n (if currentHeight + 1 \<le> currentHeight + 3
              then [currentHeight + 1, currentHeight + 2, currentHeight + 3] else []))"

section \<open>Validator registration\<close>

definition sendValidatorRegistration :: "'s env \<Rightarrow> 's AppNode \<Rightarrow> 's AppNode" where
  "sendValidatorRegistration e n =
     (case GetValidator (e_st e) (n_vr n) (n_address n) of
        Inr (Some validator) \<Rightarrow>
          snd (node_publish e n ValidatorTopic (print_json (registration_json
            \<lparr>vreg_Address = n_address n, vreg_Stake = val_Stake validator\<rparr>)))
      | _ \<Rightarrow> n)"

text \<open>An account with an empty balance is given 1000; an unreadable account is a nil pointer in the source.\<close>

definition fund_account :: "'s env \<Rightarrow> 's AppNode \<Rightarrow> address \<Rightarrow> 's AppNode option" where
  "fund_account e n addr =
     (case GetAccount (n_state n) addr of
        Inl _ \<Rightarrow> None
      | Inr acc \<Rightarrow>
          if acc_Balance acc = 0
          then Some (n\<lparr>n_state := PutAccount (e_cr e) (n_state n) (acc\<lparr>acc_Balance := 1000\<rparr>)\<rparr>)
          else Some n)"

definition handleValidatorRegistration :: "'s env \<Rightarrow> 's AppNode \<Rightarrow> Message \<Rightarrow> 's AppNode option" where
  "handleValidatorRegistration e n msg =
     (case Option.bind (parse_json (msg_Data msg)) json_registration of
        None \<Rightarrow> Some n
      | Some registration \<Rightarrow>
          (case RegisterValidator (e_st e) (n_vr n)
              (Some (new_validator (vreg_Address registration) (vreg_Stake registration))) of
             (Some _, vr) \<Rightarrow> Some (n\<lparr>n_vr := vr\<rparr>)
           | (None, vr) \<Rightarrow> fund_account e (ForceCommitteeAndProposer e (n\<lparr>n_vr := vr\<rparr>)) (vreg_Address registration)))"

section \<open>Start-up and test transactions\<close>

definition testRecipient :: address where
  "testRecipient = address_of_bytes (take 20 ''test_recipient_address'')"

definition test_tx :: "'s env \<Rightarrow> 's AppNode \<Rightarrow> address \<Rightarrow> u64 \<Rightarrow> u64 \<Rightarrow> string \<Rightarrow> Transaction" where
  "test_tx e n to amount nonce type =
     Transaction_Sign (e_cr e)
       \<lparr>tx_From = n_address n, tx_To = to, tx_Value = amount, tx_Nonce = nonce, tx_Fee = 1, tx_Timestamp = now64 e,
        tx_Type = type, tx_Signature = [], tx_Hash = 0, tx_Used = False\<rparr> (n_privKey n)"

definition addTestTransactions :: "'s env \<Rightarrow> 's AppNode \<Rightarrow> 's AppNode" where
  "addTestTransactions e n =
     (let n1 = foldl (\<lambda>n (amount, nonce). snd (BroadcastTransaction e n (test_tx e n testRecipient amount nonce ''transfer'')))
                 n [(10, 1), (25, 2), (50, 3), (100, 4), (200, 5)]
      in case GetAllValidators (e_st e) (n_vr n1) of
           Inl _ \<Rightarrow> n1
         | Inr validators \<Rightarrow>
             if length validators \<le> 1 then n1
             else
               (case find (\<lambda>v. val_Address v \<noteq> n_address n1) validators of
                  None \<Rightarrow> n1
                | Some v \<Rightarrow> snd (BroadcastTransaction e n1 (test_tx e n1 (val_Address v) 50 6 ''delegate''))))"

fun fund_validators :: "'s env \<Rightarrow> 's AppNode \<Rightarrow> Validator list \<Rightarrow> 's AppNode option" where
  "fund_validators e n [] = Some n"
| "fund_validators e n (v # vs) =
     (case fund_account e n (val_Address v) of None \<Rightarrow> None | Some n' \<Rightarrow> fund_validators e n' vs)"

text \<open>The delayed goroutine of \<^verbatim>\<open>Start\<close>.\<close>

definition initialize_accounts :: "'s env \<Rightarrow> 's AppNode \<Rightarrow> 's AppNode option" where
  "initialize_accounts e n =
     (case GetAllValidators (e_st e) (n_vr n) of
        Inl _ \<Rightarrow> Some n
      | Inr validators \<Rightarrow> map_option (addTestTransactions e) (fund_validators e n validators))"

fun register_topics :: "libp2p \<Rightarrow> P2PNode \<Rightarrow> string list \<Rightarrow> P2PNode option" where
  "register_topics lp p [] = Some p"
| "register_topics lp p (t # ts) = (case RegisterTopic lp p t of None \<Rightarrow> None | Some p' \<Rightarrow> register_topics lp p' ts)"

text \<open>
  \<^verbatim>\<open>Start\<close>, with the goroutine that subscribes run before the managers register their topics.
  The timers and the broadcasting goroutine are the inputs of \<open>node_input\<close>.
\<close>

definition Start :: "'s env \<Rightarrow> 's AppNode \<Rightarrow> 's AppNode option" where
  "Start e n = do {
     p \<leftarrow> register_topics (e_lp e) (n_p2p n)
            [TransactionTopic, BlockTopic, ApprovalTopic, BlockRequestTopic, BlockResponseTopic, ValidatorTopic];
     n1 \<leftarrow> Handshake_Start e (n\<lparr>n_p2p := Subscribe (e_lp e) p NodeHandler, n_syncDone := OpenChan\<rparr>);
     n2 \<leftarrow> Push_Start e n1;
     n3 \<leftarrow> Inactivity_Start e n2;
     Some (if Height (n_bc n3) < 10 then FastSync_Start n3 else n3) }"

text \<open>
  \<^verbatim>\<open>Close\<close> stops the synchronization and closes the two stores; errors are only logged.  Closing
  a node that was started and closed before panics.
\<close>

definition Close :: "'s env \<Rightarrow> 's AppNode \<Rightarrow> 's AppNode option" where
  "Close e n =
     (case (if n_syncDone n = NilChan then Some NilChan else close (n_syncDone n)) of
        None \<Rightarrow> None
      | Some c \<Rightarrow>
          Some (n\<lparr>n_syncDone := c,
                  n_bc := (n_bc n)\<lparr>bc_store := snd (st_Close (e_st e) (bc_store (n_bc n)))\<rparr>,
                  n_vr := (n_vr n)\<lparr>vr_store := snd (st_Close (e_st e) (vr_store (n_vr n)))\<rparr>\<rparr>))"

section \<open>Steps of a node\<close>

definition handleNetworkMessage :: "'s env \<Rightarrow> 's AppNode \<Rightarrow> string \<Rightarrow> Message \<Rightarrow> 's AppNode option" where
  "handleNetworkMessage e n topic msg =
     (if topic = TransactionTopic then Some (handleTransaction e n msg)
      else if topic = BlockTopic then handleBlockProposal e n msg
      else if topic = ApprovalTopic then Some (handleApproval e n msg)
      else if topic = BlockRequestTopic then Some (handleBlockRequest e n msg)
      else if topic = BlockResponseTopic then handleBlockResponse e n msg
      else if topic = ValidatorTopic then handleValidatorRegistration e n msg
      else Some n)"

fun dispatch :: "'s env \<Rightarrow> 's AppNode \<Rightarrow> string \<Rightarrow> msg_handler \<Rightarrow> Message \<Rightarrow> 's AppNode option" where
  "dispatch e n topic NodeHandler msg = handleNetworkMessage e n topic msg"
| "dispatch e n topic HandshakeHandler msg = Some (handleHandshakeMessage e n topic msg)"
| "dispatch e n topic PushHandler msg = Some (handleOptimisticPushMessage e n topic msg)"
| "dispatch e n topic InactivityHandler msg = Some (handleInactivityMessage e n topic msg)"

text \<open>A message on one subscription, through \<^verbatim>\<open>handleSubscription\<close>.\<close>

definition receive :: "'s env \<Rightarrow> 's AppNode \<Rightarrow> string \<Rightarrow> msg_handler \<Rightarrow> Message \<Rightarrow> 's AppNode option" where
  "receive e n topic handler msg =
     (if (topic, handler) \<notin> set (p2p_subs (n_p2p n)) then Some n
      else
        (case handleSubscription (n_p2p n) msg of
           None \<Rightarrow> Some n
         | Some p \<Rightarrow> dispatch e (n\<lparr>n_p2p := p\<rparr>) topic handler msg))"

text \<open>Running the goroutine with index \<open>i\<close>; for a watched block, \<open>timeout\<close> says which event fires.\<close>

definition drop_task :: "nat \<Rightarrow> 's AppNode \<Rightarrow> 's AppNode" where
  "drop_task i n = n\<lparr>n_tasks := take i (n_tasks n) @ drop (Suc i) (n_tasks n)\<rparr>"

definition run_task :: "'s env \<Rightarrow> 's AppNode \<Rightarrow> nat \<Rightarrow> bool \<Rightarrow> 's AppNode" where
  "run_task e n i timeout =
     (if length (n_tasks n) \<le> i then n
      else
        (case n_tasks n ! i of
           FinalizeBlock block \<Rightarrow> finalizeApprovedBlock e (drop_task i n) block
         | FastSync \<Rightarrow> fastsync_syncLoop (drop_task i n)
         | WatchApproval block \<Rightarrow>
             if timeout then watch_timeout (drop_task i n) block
             else (case watch_tick n block of (goes_on, n') \<Rightarrow> if goes_on then n' else drop_task i n')))"

text \<open>A panic of a goroutine ends the process.\<close>

definition task_panics :: "'s env \<Rightarrow> 's AppNode \<Rightarrow> nat \<Rightarrow> bool" where
  "task_panics e n i \<longleftrightarrow> i < length (n_tasks n) \<and>
     (case n_tasks n ! i of FinalizeBlock block \<Rightarrow> finalize_panics e n block | _ \<Rightarrow> False)"

datatype input =
    Receive string msg_handler Message
  | ProducerTick u64
  | HandshakeTick
  | InactivityTick
  | SyncTick
  | RegistrationTick
  | PeerConnected peerID string
  | RunTask nat bool
  | InitializeAccounts

fun node_input :: "'s env \<Rightarrow> input \<Rightarrow> 's AppNode \<Rightarrow> 's AppNode option" where
  "node_input e (Receive topic handler msg) n = receive e n topic handler msg"
| "node_input e (ProducerTick rnd) n = Some (producer_tick e n rnd)"
| "node_input e HandshakeTick n = Some (performHandshakes e n)"
| "node_input e InactivityTick n =
     Some (if im_isSeedNode (n_inactivityMonitor n) \<and> im_stopChan (n_inactivityMonitor n) = OpenChan
           then checkForInactivity e n else n)"
| "node_input e SyncTick n = Some (if n_syncDone n = OpenChan then performBlockSync e n else n)"
| "node_input e RegistrationTick n = Some (sendValidatorRegistration e n)"
| "node_input e (PeerConnected peer address) n = Some (n\<lparr>n_barNet := AddPeer (e_now e) (n_barNet n) peer address\<rparr>)"
| "node_input e (RunTask i timeout) n = (if task_panics e n i then None else Some (run_task e n i timeout))"
| "node_input e InitializeAccounts n = initialize_accounts e n"

end
