(* ===== verification/Node_Safety.thy ===== *)
theory Node_Safety
  imports App_Node
begin

text \<open>
  What a node does to its chain, and when.  \<open>core\<close> is the part of the node that consensus is
  about (the chain, the blocks waiting for approval, the running goroutines); most handlers
  leave it alone, which is one lemma each.  Executions are \<open>node_trace\<close>s: any inputs, in any
  order, each with its own environment.
\<close>

section \<open>Handlers that leave the core alone\<close>

definition core :: "'s AppNode \<Rightarrow> 's Blockchain \<times> (hash, BlockApproval) gomap \<times> task list" where
  "core n = (n_bc n, n_pendingBlocks n, n_tasks n)"

named_theorems core_frame

lemma core_upd [simp, core_frame]:
  "core (n\<lparr>n_barNet := bn\<rparr>) = core n" "core (n\<lparr>n_p2p := p\<rparr>) = core n" "core (n\<lparr>n_handshakeManager := hm\<rparr>) = core n"
  "core (n\<lparr>n_state := s\<rparr>) = core n" "core (n\<lparr>n_vr := vr\<rparr>) = core n" "core (n\<lparr>n_txPool := tp\<rparr>) = core n"
  "core (n\<lparr>n_metrics := mc\<rparr>) = core n" "core (n\<lparr>n_inactivityMonitor := im\<rparr>) = core n"
  "core (n\<lparr>n_committee := c\<rparr>) = core n" "core (n\<lparr>n_proposerSelector := ps\<rparr>) = core n"
  "core (n\<lparr>n_fastSyncManager := fsm\<rparr>) = core n"
  by (simp_all add: core_def)

lemma core_publish [core_frame]: "core (snd (node_publish e n t d)) = core n"
  by (simp add: core_def)

lemma core_penalize [core_frame]: "core (penalize e n p i r) = core n"
  by (simp add: core_def)

lemma core_UpdateRound [core_frame]: "core (UpdateRound e n r) = core n"
  by (simp add: UpdateRound_def core_def)

lemma core_generateNonce [core_frame]: "core (snd (generateNonce n)) = core n"
  by (simp add: generateNonce_def core_def Let_def)

lemma core_send_reply [core_frame]: "core (snd (send_reply e n t m)) = core n"
  by (simp add: send_reply_def split_beta core_frame)

lemma core_SendPing [core_frame]: "core (snd (SendPing e n p)) = core n"
  by (simp add: SendPing_def split_beta core_frame)

lemma core_handlePing [core_frame]: "core (handlePing e n m) = core n"
  by (simp add: handlePing_def split_beta Let_def core_frame option.case_eq_if)

lemma core_handlePong [core_frame]: "core (handlePong e n m) = core n"
  by (simp add: handlePong_def split_beta core_frame)

lemma core_handleAck [core_frame]: "core (handleAck e n m) = core n"
  by (simp add: handleAck_def core_frame)

lemma core_handshake [core_frame]: "core (handleHandshakeMessage e n t m) = core n"
  by (simp add: handleHandshakeMessage_def core_frame split: option.split)

lemma core_perform_loop: "core (perform_handshakes_loop e n k infos) = core n"
proof (induction e n k infos rule: perform_handshakes_loop.induct)
  case (2 e n k info infos)
  have sp: "core n1 = core n" if "SendPing e n (pi_ID info) = (r, n1)" for r n1
    using core_SendPing [of e n "pi_ID info"] that by simp
  show ?case using 2 sp by (auto simp: core_frame split: prod.split option.split)
qed simp

lemma core_perform [core_frame]: "core (performHandshakes e n) = core n"
  by (simp add: performHandshakes_def core_perform_loop)

lemma core_set_records [core_frame]: "core (set_records n rs) = core n"
  by (simp add: set_records_def core_frame)

lemma core_recordInactivity [core_frame]: "core (recordInactivity e n p r w ev) = core n"
  by (simp add: recordInactivity_def Let_def core_frame)

lemma core_broadcastInactivity [core_frame]: "core (broadcastInactivityReport e n p) = core n"
  by (simp add: broadcastInactivityReport_def core_frame split: option.split)

lemma core_mark [core_frame]: "core (markPeerAsInactive e n p) = core n"
  by (simp add: markPeerAsInactive_def core_frame)

lemma core_report_to [core_frame]: "core (report_to e n p r ev infos) = core n"
  by (induction infos arbitrary: n) (simp_all add: Let_def core_frame)

lemma core_checkForInactivity [core_frame]: "core (checkForInactivity e n) = core n"
proof -
  have "core (foldl (\<lambda>n info. if pi_ID info = p2p_ID (n_p2p n) then n
        else if isPeerInactive n (pi_ID info)
        then reportInactivity e n (pi_ID info) ''no recent activity'' [''timeout''] else n) n infos) = core n" for n infos
    by (induction infos arbitrary: n) (simp_all add: reportInactivity_def core_frame)
  then show ?thesis by (simp add: checkForInactivity_def)
qed

lemma core_inactivity [core_frame]: "core (handleInactivityMessage e n t m) = core n"
  by (simp add: handleInactivityMessage_def handleMarkInactive_def handleInactivityReport_def Let_def core_frame split: option.split)

lemma core_push [core_frame]: "core (handleOptimisticPushMessage e n t m) = core n"
  by (simp add: handleOptimisticPushMessage_def handlePushRequest_def handlePushResponse_def handleBlockData_def
      sendPushResponse_def processReceivedBlockData_def processReceivedBlockHeaders_def Let_def split_beta core_frame
      split: option.split)

lemma core_handleTransaction [core_frame]: "core (handleTransaction e n m) = core n"
  by (simp add: handleTransaction_def core_frame split: sum.split option.split prod.split)

lemma core_BroadcastTransaction [core_frame]: "core (snd (BroadcastTransaction e n tx)) = core n"
  by (simp add: BroadcastTransaction_def split_beta core_frame)

lemma core_broadcastApproval [core_frame]: "core (broadcastApproval e n b) = core n"
  by (simp add: broadcastApproval_def core_frame)

lemma core_handleBlockRequest [core_frame]: "core (handleBlockRequest e n m) = core n"
  by (simp add: handleBlockRequest_def core_frame split: option.split sum.split)

lemma core_RequestBlock [core_frame]: "core (RequestBlock e n h) = core n"
  by (simp add: RequestBlock_def core_frame)

lemma core_performBlockSync [core_frame]: "core (performBlockSync e n) = core n"
  by (simp add: performBlockSync_def Let_def core_frame split: sum.split)

lemma core_sendRegistration [core_frame]: "core (sendValidatorRegistration e n) = core n"
  by (simp add: sendValidatorRegistration_def core_frame split: sum.split option.split)

lemma core_ForceCommittee [core_frame]: "core (ForceCommitteeAndProposer e n) = core n"
  by (simp add: ForceCommitteeAndProposer_def Let_def core_frame split: sum.split)

lemma core_fund_account: "fund_account e n a = Some n' \<Longrightarrow> core n' = core n"
  by (auto simp: fund_account_def core_frame split: sum.splits if_splits)

lemma core_handleRegistration: "handleValidatorRegistration e n m = Some n' \<Longrightarrow> core n' = core n"
  by (auto simp: handleValidatorRegistration_def core_frame dest!: core_fund_account split: option.splits prod.splits)

lemma core_fund_validators: "fund_validators e n vs = Some n' \<Longrightarrow> core n' = core n"
  by (induction vs arbitrary: n) (auto dest!: core_fund_account split: option.splits)

lemma core_addTest [core_frame]: "core (addTestTransactions e n) = core n"
  by (simp add: addTestTransactions_def Let_def core_frame split: sum.split option.split)

lemma core_initialize: "initialize_accounts e n = Some n' \<Longrightarrow> core n' = core n"
  by (auto simp: initialize_accounts_def core_frame dest!: core_fund_validators split: sum.splits)

section \<open>Blocks waiting for approval\<close>

definition pending_ok :: "'s AppNode \<Rightarrow> bool" where
  "pending_ok n \<longleftrightarrow> (\<forall>h ba. go_get (n_pendingBlocks n) h = Some ba \<longrightarrow> approval_ok ba \<and> blk_Hash (ba_Block ba) = h)"

text \<open>The block with this hash is waiting, and more than two thirds of the committee's addresses are noted as signers.\<close>

definition quorum_at :: "'s AppNode \<Rightarrow> hash \<Rightarrow> bool" where
  "quorum_at n h \<longleftrightarrow> (\<exists>ba. go_get (n_pendingBlocks n) h = Some ba \<and> approval_ok ba \<and> IsApproved ba)"

text \<open>Every finalization in \<open>n'\<close> was there in \<open>n\<close>, or its block had a quorum before or after the step.\<close>

definition finalizations_ok :: "'s AppNode \<Rightarrow> 's AppNode \<Rightarrow> bool" where
  "finalizations_ok n n' \<longleftrightarrow>
     (\<forall>b. FinalizeBlock b \<in> set (n_tasks n') \<longrightarrow>
        FinalizeBlock b \<in> set (n_tasks n) \<or> quorum_at n (blk_Hash b) \<or> quorum_at n' (blk_Hash b))"

lemma core_pending_ok: "core n' = core n \<Longrightarrow> pending_ok n' = pending_ok n"
  by (simp add: pending_ok_def core_def)

lemma core_finalizations: "core n' = core n \<Longrightarrow> finalizations_ok n n'"
  by (simp add: finalizations_ok_def core_def)

lemma core_bc: "core n' = core n \<Longrightarrow> n_bc n' = n_bc n"
  by (simp add: core_def)

lemma core_pending: "core n' = core n \<Longrightarrow> n_pendingBlocks n' = n_pendingBlocks n"
  by (simp add: core_def)

lemma core_tasks: "core n' = core n \<Longrightarrow> n_tasks n' = n_tasks n"
  by (simp add: core_def)

lemma add_buffered_ok: "approval_ok ba \<Longrightarrow> approval_ok (add_buffered ba as) \<and> ba_Block (add_buffered ba as) = ba_Block ba"
  by (induction "as" arbitrary: ba) (simp_all add: add_buffered_def approval_ok_Add)

lemma after_vote_core:
  "n_bc (after_vote e n b ba) = n_bc n" "n_pendingBlocks (after_vote e n b ba) = n_pendingBlocks n"
  "n_tasks (after_vote e n b ba) = n_tasks n @ (if IsApproved ba then [FinalizeBlock b] else [])"
  unfolding after_vote_def
  by (simp_all add: core_bc [OF core_broadcastApproval] core_pending [OF core_broadcastApproval] core_tasks [OF core_broadcastApproval])

text \<open>The tracker of a block at the end of \<open>processReceivedBlock\<close>, and what becomes of it.\<close>

lemma processReceivedBlock_cases:
  obtains "processReceivedBlock e n b = n"
  | as where "n_bc (processReceivedBlock e n b) = n_bc n"
      "n_pendingBlocks (processReceivedBlock e n b) = go_delete (go_set (n_pendingBlocks n) (blk_Hash b) as) (blk_Hash b)"
      "n_tasks (processReceivedBlock e n b) = n_tasks n @ [WatchApproval b]"
  | ba where "approval_ok ba" "ba_Block ba = b" "n_bc (processReceivedBlock e n b) = n_bc n"
      "n_pendingBlocks (processReceivedBlock e n b) = go_set (n_pendingBlocks n) (blk_Hash b) ba \<or>
       (\<exists>ba0. n_pendingBlocks (processReceivedBlock e n b) =
          go_set (go_set (n_pendingBlocks n) (blk_Hash b) ba0) (blk_Hash b) ba)"
      "n_tasks (processReceivedBlock e n b) = n_tasks n @ [WatchApproval b] @ (if IsApproved ba then [FinalizeBlock b] else [])"
proof -
  let ?h = "blk_Hash b" and ?fresh = "NewBlockApproval b (n_committee n)"
  consider (same) "processReceivedBlock e n b = n"
    | (go) "\<not> (go_get (n_pendingBlocks n) ?h \<noteq> None)" "\<not> HasBlock (e_st e) (n_bc n) ?h"
        "\<not> Height (n_bc n) + 10 < blk_Number b" "\<not> blk_Number b < Height (n_bc n)"
    by (fastforce simp: processReceivedBlock_def Let_def)
  then show thesis
  proof cases
    case same
    then show thesis by (rule that(1))
  next
    case go
    define ba1 where "ba1 = (case go_get (n_approvalBuffer n) ?h of Some as \<Rightarrow> add_buffered ?fresh as | None \<Rightarrow> ?fresh)"
    define buf where "buf = (case go_get (n_approvalBuffer n) ?h of Some as \<Rightarrow> go_delete (n_approvalBuffer n) ?h | None \<Rightarrow> n_approvalBuffer n)"
    define n1 where "n1 = n\<lparr>n_pendingBlocks := go_set (n_pendingBlocks n) ?h ba1, n_approvalBuffer := buf,
      n_tasks := n_tasks n @ [WatchApproval b]\<rparr>"
    define sig where "sig = ecdsa_sign (e_cr e) (n_privKey n) ?h"
    have ok: "approval_ok ba1" "ba_Block ba1 = b"
      using add_buffered_ok [OF approval_ok_New] approval_ok_New
      by (auto simp: ba1_def NewBlockApproval_def split: option.split)
    have pair: "(case go_get (n_approvalBuffer n) ?h of Some as \<Rightarrow> (add_buffered ?fresh as, go_delete (n_approvalBuffer n) ?h)
       | None \<Rightarrow> (?fresh, n_approvalBuffer n)) = (ba1, buf)"
      by (simp add: ba1_def buf_def split: option.split)
    have eq: "processReceivedBlock e n b =
      (if isCommitteeMember_loop (n_committee n) (n_address n) then
         (case AddSignature ba1 (n_address n) sig of
            (Some _, _) \<Rightarrow> n1\<lparr>n_pendingBlocks := go_delete (n_pendingBlocks n1) ?h\<rparr>
          | (None, ba2) \<Rightarrow> after_vote e (n1\<lparr>n_pendingBlocks := go_set (n_pendingBlocks n1) ?h ba2\<rparr>) b ba2)
       else after_vote e n1 b ba1)"
      unfolding processReceivedBlock_def Let_def pair n1_def sig_def using go by simp
    show thesis
    proof (cases "isCommitteeMember_loop (n_committee n) (n_address n)")
      case False
      then show thesis using ok by (intro that(3) [of ba1]) (simp_all add: eq after_vote_core n1_def)
    next
      case True
      obtain err ba2 where add: "AddSignature ba1 (n_address n) sig = (err, ba2)" by fastforce
      have ok2: "approval_ok ba2" "ba_Block ba2 = b"
        using approval_ok_Add [OF ok(1), of "n_address n" sig] AddSignature_frame(1) [of ba1 "n_address n" sig] ok add by simp_all
      show thesis
      proof (cases err)
        case None
        then show thesis
          using ok2 True by (intro that(3) [of ba2] disjI2 exI [of _ ba1]) (simp_all add: eq add after_vote_core n1_def)
      next
        case (Some er)
        then show thesis using True by (intro that(2) [of ba1]) (simp_all add: eq add n1_def)
      qed
    qed
  qed
qed

lemma processReceivedBlock_safe:
  assumes "pending_ok n"
  shows "pending_ok (processReceivedBlock e n b) \<and> finalizations_ok n (processReceivedBlock e n b) \<and>
    n_bc (processReceivedBlock e n b) = n_bc n"
  by (rule processReceivedBlock_cases [of e n b])
    (use assms in \<open>auto simp: pending_ok_def finalizations_ok_def quorum_at_def split: if_splits\<close>)

lemma processApproval_safe:
  assumes "pending_ok n"
  shows "pending_ok (processApproval n a) \<and> finalizations_ok n (processApproval n a) \<and> n_bc (processApproval n a) = n_bc n"
proof (cases "go_get (n_pendingBlocks n) (app_BlockHash a)")
  case None
  then show ?thesis using assms by (simp add: processApproval_def pending_ok_def finalizations_ok_def)
next
  case (Some ba)
  obtain err ba2 where add: "AddSignature ba (app_Address a) (app_Signature a) = (err, ba2)" by fastforce
  have ok2: "approval_ok ba2" "blk_Hash (ba_Block ba2) = app_BlockHash a"
    using approval_ok_Add [of ba "app_Address a" "app_Signature a"]
      AddSignature_frame(1) [of ba "app_Address a" "app_Signature a"] assms Some add by (auto simp: pending_ok_def)
  show ?thesis
    using assms ok2 by (cases err) (auto simp: processApproval_def Some add Let_def pending_ok_def finalizations_ok_def quorum_at_def)
qed

lemma finalize_core:
  "n_pendingBlocks (finalizeApprovedBlock e n b) = go_delete (n_pendingBlocks n) (blk_Hash b) \<or>
     finalizeApprovedBlock e n b = n"
  "n_tasks (finalizeApprovedBlock e n b) = n_tasks n"
  "go_get (n_pendingBlocks n) (blk_Hash b) = None \<Longrightarrow> finalizeApprovedBlock e n b = n"
  by (auto simp: finalizeApprovedBlock_def Let_def split: prod.split option.split)

lemma propose_core:
  "n_pendingBlocks (propose_block e n p) = n_pendingBlocks n" "n_tasks (propose_block e n p) = n_tasks n"
  by (simp_all add: propose_block_def Let_def split: sum.split prod.split option.split)

section \<open>Steps\<close>

text \<open>The two ways a step may change the chain.\<close>

definition own_proposal :: "input \<Rightarrow> 's AppNode \<Rightarrow> 's AppNode \<Rightarrow> bool" where
  "own_proposal inp n n' \<longleftrightarrow>
     (\<exists>rnd ps proposer. inp = ProducerTick rnd \<and> n_proposerSelector n' = Some ps \<and>
        ProposerForBlock ps (Height (n_bc n) + 1) = Some proposer \<and> val_Address proposer = n_address n)"

definition runs_finalization :: "input \<Rightarrow> 's AppNode \<Rightarrow> Block \<Rightarrow> bool" where
  "runs_finalization inp n b \<longleftrightarrow>
     (\<exists>i timeout. inp = RunTask i timeout \<and> i < length (n_tasks n) \<and> n_tasks n ! i = FinalizeBlock b)"

definition safe_step :: "input \<Rightarrow> 's AppNode \<Rightarrow> 's AppNode \<Rightarrow> bool" where
  "safe_step inp n n' \<longleftrightarrow> pending_ok n' \<and> finalizations_ok n n' \<and>
     (n_bc n' = n_bc n \<or> own_proposal inp n n' \<or> (\<exists>b. runs_finalization inp n b))"

lemma safe_core: "pending_ok n \<Longrightarrow> core n' = core n \<Longrightarrow> safe_step inp n n'"
  by (simp add: safe_step_def core_def pending_ok_def finalizations_ok_def)

lemma safe_consensus:
  "pending_ok n' \<Longrightarrow> finalizations_ok n n' \<Longrightarrow> n_bc n' = n_bc n \<Longrightarrow> safe_step inp n n'"
  by (simp add: safe_step_def)

lemma pending_ok_p2p [simp]: "pending_ok (n\<lparr>n_p2p := p\<rparr>) = pending_ok n"
  by (simp add: pending_ok_def)

lemma finalizations_p2p [simp]: "finalizations_ok (n\<lparr>n_p2p := p\<rparr>) n' = finalizations_ok n n'"
  by (simp add: finalizations_ok_def quorum_at_def)

definition undisturbed :: "'s AppNode \<Rightarrow> 's AppNode \<Rightarrow> bool" where
  "undisturbed n n' \<longleftrightarrow> pending_ok n' \<and> finalizations_ok n n' \<and> n_bc n' = n_bc n"

lemma undisturbed_core: "pending_ok n \<Longrightarrow> core n' = core n \<Longrightarrow> undisturbed n n'"
  by (simp add: undisturbed_def core_def pending_ok_def finalizations_ok_def)

lemma undisturbed_block: "pending_ok n \<Longrightarrow> undisturbed n (processReceivedBlock e n b)"
  using processReceivedBlock_safe by (simp add: undisturbed_def)

lemma undisturbed_approval: "pending_ok n \<Longrightarrow> undisturbed n (processApproval n a)"
  using processApproval_safe by (simp add: undisturbed_def)

lemma undisturbed_proposal:
  assumes "pending_ok n" "handleBlockProposal e n m = Some n'" shows "undisturbed n n'"
  using assms(2) undisturbed_block [OF assms(1)] undisturbed_core [OF assms(1) core_penalize]
  by (auto simp: handleBlockProposal_def split: option.splits wire_block.splits)

lemma undisturbed_response:
  assumes "pending_ok n" "handleBlockResponse e n m = Some n'" shows "undisturbed n n'"
  using assms(2) undisturbed_block [OF assms(1)] undisturbed_core [OF assms(1) refl]
  by (auto simp: handleBlockResponse_def split: option.splits wire_block.splits if_splits)

lemma undisturbed_handleApproval:
  assumes "pending_ok n" shows "undisturbed n (handleApproval e n m)"
  using undisturbed_approval [OF assms] undisturbed_core [OF assms core_penalize]
  by (auto simp: handleApproval_def split: option.split)

lemma handleNetworkMessage_safe:
  assumes "pending_ok n" "handleNetworkMessage e n t m = Some n'"
  shows "undisturbed n n'"
  using assms(2) undisturbed_proposal [OF assms(1)] undisturbed_response [OF assms(1)] undisturbed_handleApproval [OF assms(1)]
    undisturbed_core [OF assms(1) core_handleTransaction] undisturbed_core [OF assms(1) core_handleBlockRequest]
    undisturbed_core [OF assms(1) core_handleRegistration] undisturbed_core [OF assms(1) refl]
  by (auto simp: handleNetworkMessage_def split: if_splits)

lemma dispatch_core: "h \<noteq> NodeHandler \<Longrightarrow> dispatch e n t h m = Some n' \<Longrightarrow> core n' = core n"
  by (cases h) (auto simp: core_frame)

lemma receive_safe:
  assumes "pending_ok n" "receive e n t h m = Some n'"
  shows "safe_step inp n n'"
proof -
  consider (none) "n' = n" | (some) p where "dispatch e (n\<lparr>n_p2p := p\<rparr>) t h m = Some n'"
  proof (cases "(t, h) \<notin> set (p2p_subs (n_p2p n)) \<or> handleSubscription (n_p2p n) m = None")
    case True
    then have "receive e n t h m = Some n" by (auto simp: receive_def)
    then show ?thesis using assms(2) by (intro that(1)) simp
  next
    case False
    then obtain p where "handleSubscription (n_p2p n) m = Some p" by auto
    then have "dispatch e (n\<lparr>n_p2p := p\<rparr>) t h m = Some n'" using False assms(2) by (simp add: receive_def)
    then show ?thesis by (rule that(2))
  qed
  then show ?thesis
  proof cases
    case none
    then show ?thesis using safe_core [OF assms(1) refl] by simp
  next
    case some
    show ?thesis
    proof (cases "h = NodeHandler")
      case True
      then show ?thesis
        using handleNetworkMessage_safe [of "n\<lparr>n_p2p := p\<rparr>" e t m n'] some assms(1)
        by (intro safe_consensus) (simp_all add: undisturbed_def)
    next
      case False
      then have "core n' = core (n\<lparr>n_p2p := p\<rparr>)" using some by (rule dispatch_core)
      then show ?thesis by (intro safe_core [OF assms(1)]) simp
    qed
  qed
qed

lemma core_start_round [core_frame]: "core (start_round e n rnd) = core n"
  by (simp add: start_round_def Let_def core_frame)

lemma start_round_address [simp]: "n_address (start_round e n rnd) = n_address n"
  by (simp add: start_round_def ForceCommitteeAndProposer_def UpdateRound_def Let_def split: sum.split)

lemma producer_tick_cases:
  obtains n4 where "producer_tick e n rnd = n4" "core n4 = core n"
  | n4 ps proposer where "producer_tick e n rnd = propose_block e n4 proposer" "core n4 = core n"
      "n_address n4 = n_address n" "n_proposerSelector n4 = Some ps"
      "ProposerForBlock ps (Height (n_bc n) + 1) = Some proposer" "val_Address proposer = n_address n"
proof -
  define n4 where "n4 = start_round e n rnd"
  have core4: "core n4 = core n" and addr: "n_address n4 = n_address n" by (simp_all add: n4_def core_frame)
  have eq: "producer_tick e n rnd =
     (case n_proposerSelector n4 of None \<Rightarrow> n4
      | Some ps \<Rightarrow> if n_committee n4 = [] then n4
                   else (case ProposerForBlock ps (Height (n_bc n4) + 1) of None \<Rightarrow> n4
                         | Some proposer \<Rightarrow> if val_Address proposer = n_address n4 then propose_block e n4 proposer else n4))"
    by (simp only: producer_tick_def Let_def n4_def)
  show thesis
  proof (cases "\<exists>ps proposer. n_proposerSelector n4 = Some ps \<and> n_committee n4 \<noteq> [] \<and>
      ProposerForBlock ps (Height (n_bc n4) + 1) = Some proposer \<and> val_Address proposer = n_address n4")
    case True
    then obtain ps proposer where "n_proposerSelector n4 = Some ps" "n_committee n4 \<noteq> []"
      "ProposerForBlock ps (Height (n_bc n4) + 1) = Some proposer" "val_Address proposer = n_address n4" by blast
    then show thesis using core4 addr core_bc [OF core4] by (intro that(2) [of n4 proposer ps]) (simp_all add: eq)
  next
    case False
    then have "producer_tick e n rnd = n4" by (auto simp: eq split: option.split)
    then show thesis using core4 by (rule that(1))
  qed
qed

lemma propose_selector [simp]: "n_proposerSelector (propose_block e n p) = n_proposerSelector n"
  by (simp add: propose_block_def Let_def split: sum.split prod.split option.split)

lemma producer_safe:
  assumes "pending_ok n" shows "safe_step (ProducerTick rnd) n (producer_tick e n rnd)"
proof (rule producer_tick_cases [of e n rnd])
  fix n4 assume "producer_tick e n rnd = n4" "core n4 = core n"
  then show ?thesis using assms by (simp add: safe_core)
next
  fix n4 ps proposer
  assume p: "producer_tick e n rnd = propose_block e n4 proposer" "core n4 = core n"
    "n_address n4 = n_address n" "n_proposerSelector n4 = Some ps"
    "ProposerForBlock ps (Height (n_bc n) + 1) = Some proposer" "val_Address proposer = n_address n"
  have "pending_ok (producer_tick e n rnd)" "finalizations_ok n (producer_tick e n rnd)"
    using assms p(2) by (simp_all add: p(1) pending_ok_def finalizations_ok_def propose_core core_def)
  then show ?thesis using p by (auto simp: safe_step_def own_proposal_def)
qed

lemma drop_task_frame [simp]:
  "n_pendingBlocks (drop_task i n) = n_pendingBlocks n" "n_bc (drop_task i n) = n_bc n"
  by (simp_all add: drop_task_def)

lemma drop_task_subset: "x \<in> set (n_tasks (drop_task i n)) \<Longrightarrow> x \<in> set (n_tasks n)"
  by (auto simp: drop_task_def dest: in_set_takeD in_set_dropD)

lemma run_task_safe:
  assumes "pending_ok n" shows "safe_step (RunTask i timeout) n (run_task e n i timeout)"
proof (cases "i < length (n_tasks n)")
  case False
  then show ?thesis using assms by (simp add: run_task_def safe_core)
next
  case True
  show ?thesis
  proof (cases "n_tasks n ! i")
    case (FinalizeBlock b)
    have "pending_ok (finalizeApprovedBlock e (drop_task i n) b)"
      using finalize_core(1) [of e "drop_task i n" b]
    proof
      assume "n_pendingBlocks (finalizeApprovedBlock e (drop_task i n) b) = go_delete (n_pendingBlocks (drop_task i n)) (blk_Hash b)"
      then show ?thesis using assms by (simp add: pending_ok_def)
    next
      assume "finalizeApprovedBlock e (drop_task i n) b = drop_task i n"
      then show ?thesis using assms by (simp add: pending_ok_def)
    qed
    moreover have "finalizations_ok n (finalizeApprovedBlock e (drop_task i n) b)"
      using finalize_core(2) [of e "drop_task i n" b] drop_task_subset by (fastforce simp: finalizations_ok_def)
    ultimately show ?thesis
      using True FinalizeBlock by (auto simp: safe_step_def runs_finalization_def run_task_def)
  next
    case (WatchApproval b)
    have "undisturbed n (watch_timeout (drop_task i n) b)"
      using assms drop_task_subset by (fastforce simp: undisturbed_def watch_timeout_def pending_ok_def finalizations_ok_def)
    moreover have "undisturbed n (snd (watch_tick n b))" "undisturbed n (drop_task i (snd (watch_tick n b)))"
      using assms drop_task_subset [of _ i "snd (watch_tick n b)"]
      by (fastforce simp: undisturbed_def watch_tick_def pending_ok_def finalizations_ok_def quorum_at_def split: option.splits)+
    ultimately have "undisturbed n (run_task e n i timeout)"
      using True WatchApproval by (simp add: run_task_def split_beta)
    then show ?thesis by (simp add: undisturbed_def safe_consensus)
  next
    case FastSync
    then have "undisturbed n (run_task e n i timeout)"
      using True assms drop_task_subset
      by (fastforce simp: undisturbed_def run_task_def fastsync_syncLoop_def Let_def pending_ok_def finalizations_ok_def)
    then show ?thesis by (simp add: undisturbed_def safe_consensus)
  qed
qed

lemma node_input_safe:
  assumes "pending_ok n" "node_input e inp n = Some n'"
  shows "safe_step inp n n'"
proof (cases inp)
  case (Receive t h m)
  then show ?thesis using assms receive_safe by (metis node_input.simps(1))
next
  case (ProducerTick rnd)
  then show ?thesis using assms producer_safe by fastforce
next
  case (RunTask i timeout)
  then show ?thesis using assms run_task_safe [OF assms(1)] by (auto split: if_splits)
next
  case InitializeAccounts
  then show ?thesis using assms core_initialize by (intro safe_core) auto
qed (use assms in \<open>auto intro!: safe_core simp: core_frame\<close>)

section \<open>Executions\<close>

text \<open>
  The states of an execution, the latest first.  It starts in a node with no pending block and no
  finalization under way, as a node is after \<^verbatim>\<open>Start\<close>, which may have queued a fast synchronization.
\<close>

inductive node_trace :: "'s AppNode list \<Rightarrow> bool" where
  trace_start: "\<forall>b. FinalizeBlock b \<notin> set (n_tasks n) \<Longrightarrow> n_pendingBlocks n = [] \<Longrightarrow> node_trace [n]"
| trace_step: "node_trace (n # ns) \<Longrightarrow> node_input e inp n = Some n' \<Longrightarrow> node_trace (n' # n # ns)"

lemma node_trace_inv:
  "node_trace ns \<Longrightarrow> pending_ok (hd ns) \<and>
     (\<forall>b. FinalizeBlock b \<in> set (n_tasks (hd ns)) \<longrightarrow> (\<exists>m \<in> set ns. quorum_at m (blk_Hash b)))"
proof (induction rule: node_trace.induct)
  case (trace_start n)
  then show ?case by (simp add: pending_ok_def)
next
  case (trace_step n ns e inp n')
  have safe: "safe_step inp n n'" using node_input_safe trace_step by fastforce
  have "\<exists>m \<in> set (n' # n # ns). quorum_at m (blk_Hash b)" if "FinalizeBlock b \<in> set (n_tasks n')" for b
  proof -
    have "FinalizeBlock b \<in> set (n_tasks n) \<or> quorum_at n (blk_Hash b) \<or> quorum_at n' (blk_Hash b)"
      using safe that by (auto simp: safe_step_def finalizations_ok_def)
    then show ?thesis using trace_step.IH by auto
  qed
  then show ?case using safe by (simp add: safe_step_def)
qed

section \<open>Receiving a new block\<close>

lemma json_struct_block_block [simp]: "json_struct_block (block_json b) = Some (WireBlock b)"
proof -
  obtain kvs where kvs: "block_json b = JObj kvs" by (simp add: block_json_def)
  have "field kvs ''Header'' \<noteq> JNull"
    using kvs by (auto simp: block_json_def field_def lower_def)
  then show ?thesis using kvs json_block_block [of b] by (simp add: json_struct_block_def)
qed

text \<open>A block that passes the four checks of \<^verbatim>\<open>processReceivedBlock\<close>.\<close>

definition acceptable :: "'s env \<Rightarrow> 's AppNode \<Rightarrow> Block \<Rightarrow> bool" where
  "acceptable e n b \<longleftrightarrow> go_get (n_pendingBlocks n) (blk_Hash b) = None \<and> \<not> HasBlock (e_st e) (n_bc n) (blk_Hash b) \<and>
     blk_Number b \<le> Height (n_bc n) + 10 \<and> Height (n_bc n) \<le> blk_Number b"

lemma member_iff: "isCommitteeMember_loop c a \<longleftrightarrow> a \<in> committee_addrs c"
  by (induction c) auto

lemma receive_fresh_block:
  assumes "acceptable e n b" and "go_get (n_approvalBuffer n) (blk_Hash b) = None"
  obtains ba where "go_get (n_pendingBlocks (processReceivedBlock e n b)) (blk_Hash b) = Some ba"
    "approval_reach b (n_committee n) ba"
    "signers ba = {n_address n} \<inter> committee_addrs (n_committee n)"
    "n_tasks (processReceivedBlock e n b) = n_tasks n @ [WatchApproval b] @ (if IsApproved ba then [FinalizeBlock b] else [])"
    "n_bc (processReceivedBlock e n b) = n_bc n"
proof -
  let ?h = "blk_Hash b" and ?fresh = "NewBlockApproval b (n_committee n)" and ?sig = "ecdsa_sign (e_cr e) (n_privKey n) (blk_Hash b)"
  let ?next = "n\<lparr>n_pendingBlocks := go_set (n_pendingBlocks n) ?h ?fresh, n_approvalBuffer := n_approvalBuffer n,
    n_tasks := n_tasks n @ [WatchApproval b]\<rparr>"
  have checks: "go_get (n_pendingBlocks n) ?h = None" "\<not> HasBlock (e_st e) (n_bc n) ?h"
    "\<not> Height (n_bc n) + 10 < blk_Number b" "\<not> blk_Number b < Height (n_bc n)"
    using assms(1) by (simp_all add: acceptable_def not_less)
  have eq: "processReceivedBlock e n b =
      (if isCommitteeMember_loop (n_committee n) (n_address n) then
         (case AddSignature ?fresh (n_address n) ?sig of
            (Some _, _) \<Rightarrow> ?next\<lparr>n_pendingBlocks := go_delete (n_pendingBlocks ?next) ?h\<rparr>
          | (None, ba2) \<Rightarrow> after_vote e (?next\<lparr>n_pendingBlocks := go_set (n_pendingBlocks ?next) ?h ba2\<rparr>) b ba2)
       else after_vote e ?next b ?fresh)"
    unfolding processReceivedBlock_def Let_def using checks assms(2) by simp
  show thesis
  proof (cases "isCommitteeMember_loop (n_committee n) (n_address n)")
    case False
    then show thesis
      using reach_new [of b "n_committee n"] by (intro that [of ?fresh]) (simp_all add: eq after_vote_core member_iff)
  next
    case True
    obtain ba where ba: "ba = snd (AddSignature ?fresh (n_address n) ?sig)" by blast
    have "isCommitteeMember ?fresh (n_address n)" "\<not> HasSignature ?fresh (n_address n)"
      using True by (simp_all add: isCommitteeMember_def HasSignature_def NewBlockApproval_def)
    then have add: "AddSignature ?fresh (n_address n) ?sig = (None, ba)" by (simp add: ba AddSignature_def)
    have "signers ba = {n_address n} \<inter> committee_addrs (n_committee n)"
      using True unfolding ba signers_Add signers_New by (auto simp: NewBlockApproval_def member_iff)
    moreover have "approval_reach b (n_committee n) ba" unfolding ba by (rule reach_add [OF reach_new])
    ultimately show thesis using True by (intro that [of ba]) (simp_all add: eq add after_vote_core)
  qed
qed

section \<open>Properties\<close>

text \<open>
  C1: The chain changes only by consensus.  In any execution of a node, whatever messages arrive
  and however its goroutines are scheduled, a step changes the chain only if the node itself is
  the proposer of the next height, or the step finalizes a block that, at some earlier point
  of the execution, was noted as signed by more than two thirds of the committee that was asked to
  approve it, all of them members of it.
\<close>

theorem chain_changes_need_quorum:
  assumes "node_trace (n # ns)" and "node_input e inp n = Some n'" and "n_bc n' \<noteq> n_bc n"
  shows "own_proposal inp n n' \<or>
    (\<exists>b. runs_finalization inp n b \<and>
      (\<exists>m \<in> set (n # ns). \<exists>ba. go_get (n_pendingBlocks m) (blk_Hash b) = Some ba \<and>
         2 * length (ba_Committee ba) < 3 * card {a. HasSignature ba a} \<and>
         {a. HasSignature ba a} \<subseteq> val_Address ` set (ba_Committee ba)))"
proof -
  have inv: "pending_ok n" "FinalizeBlock b \<in> set (n_tasks n) \<Longrightarrow> \<exists>m \<in> set (n # ns). quorum_at m (blk_Hash b)" for b
    using node_trace_inv [OF assms(1)] by auto
  have "own_proposal inp n n' \<or> (\<exists>b. runs_finalization inp n b)"
    using node_input_safe [OF inv(1) assms(2)] assms(3) by (simp add: safe_step_def)
  then show ?thesis
  proof
    assume "\<exists>b. runs_finalization inp n b"
    then obtain b where b: "runs_finalization inp n b" by blast
    then have "FinalizeBlock b \<in> set (n_tasks n)" by (auto simp: runs_finalization_def dest: nth_mem)
    then obtain m ba where m: "m \<in> set (n # ns)" "go_get (n_pendingBlocks m) (blk_Hash b) = Some ba" "approval_ok ba" "IsApproved ba"
      using inv(2) unfolding quorum_at_def by blast
    then have "2 * length (ba_Committee ba) < 3 * card {a. HasSignature ba a} \<and>
        {a. HasSignature ba a} \<subseteq> val_Address ` set (ba_Committee ba)"
      using IsApproved_iff [OF m(3)] signers_members [OF m(3)] by (simp add: signers_def)
    then show ?thesis using b m by blast
  qed simp
qed

definition solo_node :: "MemoryStore AppNode" where
  "solo_node = (demo_node [ApprovalTopic] ''me'' [])\<lparr>n_committee := [demo_validator 1 10]\<rparr>"

lemma demo_HasBlock: "h \<noteq> 126 \<Longrightarrow> \<not> HasBlock MemoryStore_ops demo_chain h"
proof -
  assume "h \<noteq> 126"
  moreover have "GetBlockByHeight MemoryStore_ops demo_chain 0 = Inr (createGenesisBlock demo_crypto)"
    using demo_chain_facts(2) by (simp add: GetBlockByHeight_def chain_ok_def)
  moreover have "blk_Hash (createGenesisBlock demo_crypto) = 126" by (simp add: genesis_hash ComputeHash_demo)
  moreover have "heights demo_chain = [0]" using demo_chain_facts(4) by (simp add: heights_def Height_def)
  ultimately show ?thesis by (simp add: HasBlock_def GetBlockByHash_def)
qed

lemma demo_acceptable: "n_bc n = demo_chain \<Longrightarrow> n_pendingBlocks n = [] \<Longrightarrow> acceptable demo_env n demo_proposal"
  using demo_HasBlock [of 5] demo_chain_facts(4) by (simp add: acceptable_def demo_proposal_def NewBlock_def)

lemma memory_AddBlock:
  assumes "MemoryStore_wf (bc_store bc)"
  obtains bc' where "AddBlock MemoryStore_ops bc b = (None, bc')" "Height bc' = blk_Number b" "bc_tip bc' = blk_Hash b"
proof -
  obtain s where "AddBlock MemoryStore_ops bc b = (None, bc\<lparr>bc_store := s, bc_tip := blk_Hash b, bc_height := blk_Number b,
      bc_currentHeight := blk_Number b\<rparr>)"
    by (rule memory_store.AddBlock_ok [OF assms])
  then show thesis by (rule that) (simp_all add: Height_def)
qed

theorem chain_changes_need_quorum_witness:
  "\<exists>n n' ns. node_trace (n # ns) \<and> node_input demo_env (RunTask 1 False) n = Some n' \<and> n_bc n' \<noteq> n_bc n \<and>
     (\<exists>m \<in> set (n # ns). \<exists>ba. go_get (n_pendingBlocks m) 5 = Some ba \<and>
         2 * length (ba_Committee ba) < 3 * card {a. HasSignature ba a})"
proof -
  define n0 where "n0 = solo_node\<lparr>n_p2p := (n_p2p solo_node)\<lparr>p2p_subs := [(BlockTopic, NodeHandler)]\<rparr>\<rparr>"
  define nr where "nr = n0\<lparr>n_p2p := UpdateBandwidthIn (n_p2p n0) (of_nat (length (Block_Encode demo_proposal)))\<rparr>"
  define n where "n = processReceivedBlock demo_env nr demo_proposal"
  note nr = nr_def n0_def solo_node_def demo_node_def
  let ?msg = "\<lparr>msg_Data = Block_Encode demo_proposal, msg_ReceivedFrom = ''other''\<rparr>"
  have "acceptable demo_env nr demo_proposal"
    by (rule demo_acceptable) (simp_all add: nr)
  then obtain ba where ba: "go_get (n_pendingBlocks n) (blk_Hash demo_proposal) = Some ba" "approval_reach demo_proposal (n_committee nr) ba"
    "signers ba = {n_address nr} \<inter> committee_addrs (n_committee nr)"
    "n_tasks n = n_tasks nr @ [WatchApproval demo_proposal] @ (if IsApproved ba then [FinalizeBlock demo_proposal] else [])"
    "n_bc n = n_bc nr"
    unfolding n_def by (rule receive_fresh_block) (simp add: nr)
  have "IsApproved ba"
    using approval_reach_ok [OF ba(2)] ba(3) IsApproved_iff [of ba] by (simp add: nr)
  then have tasks: "n_tasks n = [WatchApproval demo_proposal, FinalizeBlock demo_proposal]"
    using ba(4) by (simp add: nr)
  have hash: "blk_Hash demo_proposal = 5" by (simp add: demo_proposal_def NewBlock_def)
  have sub: "handleSubscription (n_p2p n0) ?msg = Some (n_p2p nr)" "(BlockTopic, NodeHandler) \<in> set (p2p_subs (n_p2p n0))"
    by (simp_all add: handleSubscription_def nr)
  have "n0\<lparr>n_p2p := n_p2p nr\<rparr> = nr" by (simp add: nr_def)
  then have step: "node_input demo_env (Receive BlockTopic NodeHandler ?msg) n0 = Some n"
    using sub by (simp add: receive_def handleNetworkMessage_def handleBlockProposal_def topic_defs
        Block_Encode_def parse_print_json n_def)
  have "node_trace [n0]" by (rule trace_start) (simp_all add: n0_def solo_node_def demo_node_def)
  then have trace: "node_trace [n, n0]" using step by (rule trace_step)
  define n' where "n' = finalizeApprovedBlock demo_env (drop_task 1 n) demo_proposal"
  have run: "node_input demo_env (RunTask 1 False) n = Some n'" 
    using hash by (simp add: run_task_def task_panics_def finalize_panics_def tasks n'_def demo_proposal_def NewBlock_def)
  have bc: "n_bc n = demo_chain" using ba(5) by (simp add: nr)
  have "MemoryStore_wf (bc_store demo_chain)" using demo_chain_facts(2) by (simp add: chain_ok_def)
  then obtain bc' where bc': "AddBlock MemoryStore_ops demo_chain demo_proposal = (None, bc')" "Height bc' = blk_Number demo_proposal"
    by (rule memory_AddBlock)
  have "n_bc n' = bc'"
    using ba(1) bc bc'(1) by (auto simp: n'_def finalizeApprovedBlock_def Let_def split: prod.split option.split)
  then have ne: "n_bc n' \<noteq> n_bc n"
    using bc bc'(2) demo_chain_facts(4) by (auto simp: demo_proposal_def NewBlock_def)
  have "\<exists>m \<in> set [n, n0]. \<exists>ba. go_get (n_pendingBlocks m) 5 = Some ba \<and> 2 * length (ba_Committee ba) < 3 * card {a. HasSignature ba a}"
    using chain_changes_need_quorum [OF trace run ne] hash
    by (auto simp: own_proposal_def runs_finalization_def tasks)
  then show ?thesis using trace run ne by blast
qed

end
