(* ===== verification/Node_Behaviour.thy ===== *)
theory Node_Behaviour
  imports Node_Safety
begin

text \<open>
  What the handlers of \<^verbatim>\<open>node.go\<close> do, one property each: forged approvals, malformed blocks,
  elections at the end of an epoch, registrations, replacing a committee member, synchronizing
  blocks, restarting a node.
\<close>

section \<open>Approvals are not checked\<close>

text \<open>The tracker of block \<open>b\<close> in a node that has received it and approvals in the names of \<open>S\<close>.\<close>

definition voted :: "'s AppNode \<Rightarrow> Block \<Rightarrow> Validator list \<Rightarrow> address set \<Rightarrow> bool" where
  "voted n b c S \<longleftrightarrow>
     (\<exists>ba. go_get (n_pendingBlocks n) (blk_Hash b) = Some ba \<and> approval_reach b c ba \<and> signers ba = S \<and>
        (IsApproved ba \<longrightarrow> FinalizeBlock b \<in> set (n_tasks n)))"

definition approval_for :: "Block \<Rightarrow> (address \<Rightarrow> bytes) \<Rightarrow> address \<Rightarrow> Approval" where
  "approval_for b sig a = \<lparr>app_BlockHash = blk_Hash b, app_Address = a, app_Signature = sig a\<rparr>"

lemma voted_step:
  assumes "voted n b c S" "a \<in> committee_addrs c"
  shows "voted (processApproval n (approval_for b sig a)) b c (insert a S) \<and>
    n_bc (processApproval n (approval_for b sig a)) = n_bc n"
proof -
  obtain ba where ba: "go_get (n_pendingBlocks n) (blk_Hash b) = Some ba" "approval_reach b c ba" "signers ba = S"
    "IsApproved ba \<longrightarrow> FinalizeBlock b \<in> set (n_tasks n)"
    using assms(1) by (auto simp: voted_def)
  have c: "ba_Committee ba = c" "ba_Block ba = b" using approval_reach_ok [OF ba(2)] by auto
  obtain err ba2 where add: "AddSignature ba a (sig a) = (err, ba2)" by fastforce
  have reach: "approval_reach b c ba2" using reach_add [OF ba(2), of a "sig a"] add by simp
  have sg: "signers ba2 = insert a (signers ba)" using signers_Add [of ba a "sig a"] add assms(2) c by simp
  show ?thesis
  proof (cases err)
    case None
    then show ?thesis
      using ba(1,3) reach sg approval_reach_ok [OF reach]
      by (auto simp: processApproval_def approval_for_def add Let_def voted_def)
  next
    case (Some er)
    then have "ba2 = ba" using add by (auto simp: AddSignature_def split: if_splits)
    then show ?thesis
      using Some ba sg by (auto simp: processApproval_def approval_for_def add voted_def)
  qed
qed

lemma voted_all:
  assumes "voted n b c S" "set as \<subseteq> committee_addrs c"
  shows "voted (foldl processApproval n (map (approval_for b sig) as)) b c (S \<union> set as) \<and>
    n_bc (foldl processApproval n (map (approval_for b sig) as)) = n_bc n"
  using assms
proof (induction "as" arbitrary: n S)
  case Nil
  then show ?case by simp
next
  case (Cons a as)
  have "voted (processApproval n (approval_for b sig a)) b c (insert a S)"
    "n_bc (processApproval n (approval_for b sig a)) = n_bc n"
    using voted_step [OF Cons.prems(1)] Cons.prems(2) by auto
  then show ?case using Cons.IH [of "processApproval n (approval_for b sig a)" "insert a S"] Cons.prems(2) by simp
qed

lemma finalize_adds:
  assumes "go_get (n_pendingBlocks n) (blk_Hash b) \<noteq> None" "AddBlock (e_st e) (n_bc n) b = (None, bc)"
  shows "n_bc (finalizeApprovedBlock e n b) = bc"
  using assms by (auto simp: finalizeApprovedBlock_def Let_def split: prod.split option.split)

text \<open>
  C9: Approvals need no signature.  Let a node receive any block numbered within ten of its height
  that it does not know yet, whatever the block's predecessor, proposer, transactions and
  signature are, and then one approval in the name of every member of its committee, with any
  bytes in the place of the signature.  Then it finalizes the block: the block becomes the tip
  of its chain, and the chain's height the block's number.  (A \<^verbatim>\<open>null\<close> transaction in the block
  ends the process right after that.)
\<close>

theorem forged_approvals_finalize:
  assumes "reliable_store (e_st e) I" and "I (bc_store (n_bc n))" and "acceptable e n b"
    and "go_get (n_approvalBuffer n) (blk_Hash b) = None"
    and "n_committee n \<noteq> []" and "distinct (map val_Address (n_committee n))"
    and "n1 = foldl processApproval (processReceivedBlock e n b) (map (approval_for b sig) (map val_Address (n_committee n)))"
  shows "FinalizeBlock b \<in> set (n_tasks n1) \<and>
    bc_tip (n_bc (finalizeApprovedBlock e n1 b)) = blk_Hash b \<and>
    Height (n_bc (finalizeApprovedBlock e n1 b)) = blk_Number b"
proof -
  let ?c = "n_committee n"
  obtain ba where ba: "go_get (n_pendingBlocks (processReceivedBlock e n b)) (blk_Hash b) = Some ba"
    "approval_reach b ?c ba"
    "n_tasks (processReceivedBlock e n b) = n_tasks n @ [WatchApproval b] @ (if IsApproved ba then [FinalizeBlock b] else [])"
    and bc: "n_bc (processReceivedBlock e n b) = n_bc n"
    by (rule receive_fresh_block [OF assms(3,4)])
  have "voted (processReceivedBlock e n b) b ?c (signers ba)" using ba by (auto simp: voted_def)
  then have v: "voted n1 b ?c (signers ba \<union> set (map val_Address ?c))" and bc1: "n_bc n1 = n_bc n"
    using voted_all [of "processReceivedBlock e n b" b ?c "signers ba" "map val_Address ?c" sig] bc assms(7) by auto
  obtain ba1 where ba1: "go_get (n_pendingBlocks n1) (blk_Hash b) = Some ba1" "approval_reach b ?c ba1"
    "set (map val_Address ?c) \<subseteq> signers ba1" "IsApproved ba1 \<longrightarrow> FinalizeBlock b \<in> set (n_tasks n1)"
    using v by (auto simp: voted_def)
  have ok: "approval_ok ba1" "ba_Committee ba1 = ?c" using approval_reach_ok [OF ba1(2)] by auto
  have "signers ba1 = set (map val_Address ?c)" using ba1(3) signers_members [OF ok(1)] ok(2) by auto
  then have "card (signers ba1) = length ?c" using distinct_card [OF assms(6)] by simp
  then have "IsApproved ba1" using IsApproved_iff [OF ok(1)] ok(2) assms(5) by (cases ?c) auto
  moreover obtain s where "AddBlock (e_st e) (n_bc n) b = (None, (n_bc n)\<lparr>bc_store := s, bc_tip := blk_Hash b,
      bc_height := blk_Number b, bc_currentHeight := blk_Number b\<rparr>)"
    by (rule reliable_store.AddBlock_ok [OF assms(1,2)])
  ultimately show ?thesis
    using ba1(1,4) bc1 finalize_adds [of n1 b e] by (simp add: Height_def)
qed

lemma demo_store_ok: "MemoryStore_wf (bc_store demo_chain)"
  using demo_chain_facts(2) by (simp add: chain_ok_def)

theorem forged_approvals_finalize_witness:
  "bc_tip (n_bc (finalizeApprovedBlock demo_env (foldl processApproval (processReceivedBlock demo_env (demo_node [] ''me'' []) demo_proposal)
     (map (approval_for demo_proposal (\<lambda>_. [])) [1, 2, 3, 4])) demo_proposal)) = 5"
proof -
  let ?n = "demo_node [] ''me'' []"
  have acc: "acceptable demo_env ?n demo_proposal" by (rule demo_acceptable) (simp_all add: demo_node_def)
  have "reliable_store (e_st demo_env) MemoryStore_wf" using memory_store.reliable_store_axioms by simp
  from forged_approvals_finalize [OF this _ acc, of _ "\<lambda>_. []"]
  show ?thesis
    using demo_store_ok by (simp add: demo_node_def demo_committee_def) (simp add: demo_proposal_def NewBlock_def)
qed

text \<open>
  One forged approval silences a voter.  If an approval in the node's own name, with any bytes
  as its signature, arrives before a block, then when the block arrives the node, a member of
  the committee, neither votes for it nor keeps it: its own vote is refused as a duplicate, the
  block is dropped and no approval is broadcast.
\<close>

theorem early_forged_approval_silences:
  assumes "acceptable e n b" and "n_address n \<in> val_Address ` set (n_committee n)"
    and "go_get (n_approvalBuffer n) (blk_Hash b) = None"
    and "n1 = processApproval n (approval_for b sig (n_address n))"
  shows "go_get (n_pendingBlocks (processReceivedBlock e n1 b)) (blk_Hash b) = None \<and>
    FinalizeBlock b \<notin> set (drop (length (n_tasks n)) (n_tasks (processReceivedBlock e n1 b))) \<and>
    p2p_sent (n_p2p (processReceivedBlock e n1 b)) = p2p_sent (n_p2p n)"
proof -
  let ?h = "blk_Hash b" and ?a = "approval_for b sig (n_address n)" and ?fresh = "NewBlockApproval b (n_committee n)"
  have checks: "go_get (n_pendingBlocks n) ?h = None" "\<not> HasBlock (e_st e) (n_bc n) ?h"
    "\<not> Height (n_bc n) + 10 < blk_Number b" "\<not> blk_Number b < Height (n_bc n)"
    using assms(1) by (simp_all add: acceptable_def not_less)
  have n1: "n1 = n\<lparr>n_approvalBuffer := go_set (n_approvalBuffer n) ?h [?a]\<rparr>"
    using checks(1) assms(3) by (simp add: assms(4) processApproval_def approval_for_def)
  have mem: "isCommitteeMember_loop (n_committee n) (n_address n)" using assms(2) by (simp add: member_iff)
  obtain ba where ba: "ba = add_buffered ?fresh [?a]" by blast
  have "isCommitteeMember ba (n_address n)" "HasSignature ba (n_address n)"
    using mem by (simp_all add: ba add_buffered_def approval_for_def AddSignature_def isCommitteeMember_def HasSignature_def NewBlockApproval_def)
  then have dup: "AddSignature ba (n_address n) s = (Some (ErrDuplicateSignature (Address_ToHex (n_address n))), ba)" for s
    by (simp add: AddSignature_def)
  show ?thesis
    using checks mem dup by (simp add: processReceivedBlock_def Let_def n1 ba [symmetric])
qed

theorem early_forged_approval_silences_witness:
  "go_get (n_pendingBlocks (processReceivedBlock demo_env
     (processApproval (demo_node [] ''me'' []) (approval_for demo_proposal (\<lambda>_. []) 1)) demo_proposal)) 5 = None"
proof -
  let ?n = "demo_node [] ''me'' []"
  have acc: "acceptable demo_env ?n demo_proposal" by (rule demo_acceptable) (simp_all add: demo_node_def)
  show ?thesis
    using early_forged_approval_silences [OF acc _ _ refl, of "\<lambda>_. []"]
    by (simp add: demo_node_def demo_committee_def) (simp add: demo_proposal_def NewBlock_def)
qed

section \<open>Malformed blocks\<close>

text \<open>
  A four-byte message stops a node.  The JSON text \<^verbatim>\<open>null\<close> on the topic of block proposals is read
  as a block without a header, which the handler dereferences: the process ends.  The text
  \<^verbatim>\<open>{}\<close> on the topic of block responses does the same to every node whose address is not the
  zero address.  No peer score is involved, since the message is well-formed.
\<close>

theorem null_block_crashes_node:
  "handleBlockProposal e n \<lparr>msg_Data = ''null'', msg_ReceivedFrom = p\<rparr> = None \<and>
   handleBlockResponse e n \<lparr>msg_Data = ''{}'', msg_ReceivedFrom = p\<rparr> = (if n_address n = 0 then Some n else None)"
proof -
  have p: "parse_json ''null'' = Some JNull" "parse_json ''{}'' = Some (JObj [])"
    using parse_print_json [of JNull] parse_print_json [of "JObj []"] by simp_all
  have "json_block (JObj [(''Header'', JObj [])]) \<noteq> None"
    by (simp add: json_block_def json_header_def field_def lower_def json_u64_def json_hash_def json_array_def json_i64_def
        json_address_def json_list_def json_slice_def)
  then have "json_struct_block JNull = Some NilHeader"
    by (simp add: json_struct_block_def members_def field_def)
  moreover have "be_nat (replicate k (char_of (0 :: nat))) = 0" for k by (induction k) (simp_all add: be_nat_Cons)
  then have "json_response (JObj []) = Some \<lparr>bresp_Block = NilBlock, bresp_From = 0\<rparr>"
    by (simp add: json_response_def field_def json_address_def json_array_def address_of_bytes_def)
  ultimately show ?thesis by (auto simp: handleBlockProposal_def handleBlockResponse_def p)
qed

section \<open>The end of an epoch\<close>

text \<open>A selector that an election at some height of this chain made.\<close>

definition selector_ok :: "'s AppNode \<Rightarrow> bool" where
  "selector_ok n \<longleftrightarrow>
     (\<forall>ps. n_proposerSelector n = Some ps \<longrightarrow>
        (\<exists>perm c k. ps = NewProposerSelectorWithRotation perm c (of_nat (270 * k)) EpochLength \<and>
           270 * k \<le> unat (Height (n_bc n))))"

lemma slots_below:
  assumes "unat start + 270 < 2 ^ 64" and "unat start + 270 \<le> unat h"
  shows "ProposerForBlock (NewProposerSelectorWithRotation perm c start EpochLength) h = None"
proof (cases "c = []")
  case True
  then show ?thesis by (simp add: NewProposerSelectorWithRotation_def ProposerForBlock_def)
next
  case False
  let ?limit = "start + EpochLength"
  let ?rot = "foldl (\<lambda>s idx. slot_run blocksPerValidator (c ! idx) ?limit s) ([], start) (perm (length c))"
  have lim: "unat ?limit = unat start + 270" using assms(1) by (simp add: EpochLength_def unat_word_ariths)
  then have "start \<le> ?limit" by (simp add: word_le_nat_alt)
  then have "assigned start ?limit [] ([], start)" by (rule assigned_Nil)
  then obtain vs where "assigned start ?limit vs ?rot" using rotate_assigned by blast
  then obtain vs' where a: "assigned start ?limit vs' (leftover_run c start ?limit ?rot)" using leftover_assigned by blast
  have "\<not> unat h < unat start + length vs'" using a assms(2) lim by (simp add: assigned_def)
  then have "go_get (fst (leftover_run c start ?limit ?rot)) h = None" using a unfolding assigned_def by simp
  moreover have "EpochLength \<noteq> 0" by (simp add: EpochLength_def)
  ultimately show ?thesis
    using False by (simp add: NewProposerSelectorWithRotation_def ProposerForBlock_def Let_def split_beta)
qed

lemma epoch_start:
  "currentHeight div EpochLength * EpochLength = of_nat (270 * (unat currentHeight div 270))"
proof -
  have "unat currentHeight div 270 * 270 \<le> unat currentHeight" by simp
  then have "unat currentHeight div 270 * 270 < 2 ^ 64" using unsigned_less [of currentHeight, where ?'a = nat] by simp
  moreover have "unat (currentHeight div EpochLength) = unat currentHeight div 270"
    by (simp add: EpochLength_def unat_div_distrib)
  ultimately show ?thesis
    by (simp add: word_unat_eq_iff unat_word_ariths EpochLength_def unat_of_nat mult.commute take_bit_nat_eq_self)
qed

lemma selector_ok_Force:
  assumes "selector_ok n" shows "selector_ok (ForceCommitteeAndProposer e n)"
proof -
  have bc: "n_bc (ForceCommitteeAndProposer e n) = n_bc n" by (rule core_bc [OF core_ForceCommittee])
  have "\<exists>perm c k. ps = NewProposerSelectorWithRotation perm c (of_nat (270 * k)) EpochLength \<and> 270 * k \<le> unat (Height (n_bc n))"
    if sel: "n_proposerSelector (ForceCommitteeAndProposer e n) = Some ps" for ps
  proof (cases "n_proposerSelector n = Some ps")
    case True
    then show ?thesis using assms by (simp add: selector_ok_def)
  next
    case False
    let ?k = "unat (Height (n_bc n)) div 270"
    obtain perm c where "ps = NewProposerSelectorWithRotation perm c (Height (n_bc n) div EpochLength * EpochLength) EpochLength"
      using sel False by (auto simp: ForceCommitteeAndProposer_def Let_def split: if_splits sum.splits)
    then show ?thesis by (intro exI [of _ perm] exI [of _ c] exI [of _ ?k]) (simp add: epoch_start)
  qed
  then show ?thesis by (simp add: selector_ok_def bc)
qed

lemma selector_ok_cong:
  "n_proposerSelector n' = n_proposerSelector n \<Longrightarrow> n_bc n' = n_bc n \<Longrightarrow> selector_ok n' = selector_ok n"
  by (simp add: selector_ok_def)

lemma producer_tick_stuck:
  assumes "selector_ok n" and "unat (Height (n_bc n)) mod 270 = 269" and "unat (Height (n_bc n)) + 1 < 2 ^ 64"
  shows "n_bc (producer_tick e n rnd) = n_bc n \<and> selector_ok (producer_tick e n rnd)"
proof -
  define n4 where "n4 = start_round e n rnd"
  have bc4: "n_bc n4 = n_bc n" unfolding n4_def by (rule core_bc [OF core_start_round])
  have ok4: "selector_ok n4"
    unfolding n4_def start_round_def Let_def
    by (rule selector_ok_Force) (use assms(1) in \<open>simp add: UpdateRound_def selector_ok_def\<close>)
  have "ProposerForBlock ps (Height (n_bc n4) + 1) = None" if ps: "n_proposerSelector n4 = Some ps" for ps
  proof -
    let ?h = "unat (Height (n_bc n))"
    obtain perm c k where k: "ps = NewProposerSelectorWithRotation perm c (of_nat (270 * k)) EpochLength" "270 * k \<le> ?h"
      using ok4 ps bc4 by (auto simp: selector_ok_def)
    have h: "unat (Height (n_bc n) + 1) = ?h + 1" using assms(3) by (simp add: unat_word_ariths)
    have "k \<le> ?h div 270" using k(2) by (simp add: less_eq_div_iff_mult_less_eq mult.commute)
    moreover have "?h = 270 * (?h div 270) + 269" using assms(2) mult_div_mod_eq [of 270 ?h] by simp
    ultimately have "270 * k + 270 \<le> ?h + 1" by linarith
    moreover have u: "unat (of_nat m :: u64) = m" if "m \<le> ?h" for m
      using that unsigned_less [of "Height (n_bc n)", where ?'a = nat] by (simp add: unat_of_nat take_bit_nat_eq_self)
    ultimately show ?thesis
      using slots_below [of "of_nat (270 * k)" "Height (n_bc n) + 1" perm c] assms(3) bc4 h
      unfolding k(1) u [OF k(2)] by simp
  qed
  moreover have "producer_tick e n rnd =
     (case n_proposerSelector n4 of None \<Rightarrow> n4
      | Some ps \<Rightarrow> if n_committee n4 = [] then n4
                   else (case ProposerForBlock ps (Height (n_bc n4) + 1) of None \<Rightarrow> n4
                         | Some proposer \<Rightarrow> if val_Address proposer = n_address n4 then propose_block e n4 proposer else n4))"
    by (simp only: producer_tick_def Let_def n4_def)
  ultimately have "producer_tick e n rnd = n4" by (simp split: option.split)
  then show ?thesis using ok4 bc4 by simp
qed

text \<open>
  C10: Block production stops at the end of an epoch.  Elections take the epoch of the current
  height and assign proposers to that epoch only; when the current height is the last one of its
  epoch (269, 539, and so on), no proposer is assigned to the next height, so that no
  number of ticks of the producer loop, in any environment, ever adds a block.
\<close>

theorem production_halts_at_epoch_end:
  assumes "selector_ok n" and "unat (Height (n_bc n)) mod 270 = 269" and "unat (Height (n_bc n)) + 1 < 2 ^ 64"
  shows "n_bc (foldl (\<lambda>n (e, rnd). producer_tick e n rnd) n ticks) = n_bc n"
proof -
  have "n_bc (foldl (\<lambda>n (e, rnd). producer_tick e n rnd) n ticks) = n_bc n \<and>
      selector_ok (foldl (\<lambda>n (e, rnd). producer_tick e n rnd) n ticks)"
    using assms
  proof (induction ticks arbitrary: n)
    case (Cons x ticks)
    obtain e rnd where x: "x = (e, rnd)" by fastforce
    have "n_bc (producer_tick e n rnd) = n_bc n" "selector_ok (producer_tick e n rnd)"
      using producer_tick_stuck [OF Cons.prems] by auto
    then show ?case using Cons.IH [of "producer_tick e n rnd"] Cons.prems by (simp add: x)
  qed simp
  then show ?thesis by simp
qed

theorem production_halts_at_epoch_end_witness:
  "Height (n_bc (producer_tick demo_env ((demo_node [BlockTopic] ''me'' [])\<lparr>n_bc := demo_chain\<lparr>bc_currentHeight := 269\<rparr>\<rparr>) 1)) = 269"
proof -
  let ?n = "(demo_node [BlockTopic] ''me'' [])\<lparr>n_bc := demo_chain\<lparr>bc_currentHeight := 269\<rparr>\<rparr>"
  have "selector_ok ?n" by (simp add: selector_ok_def demo_node_def)
  then show ?thesis
    using production_halts_at_epoch_end [of ?n "[(demo_env, 1)]"] by (simp add: Height_def)
qed

end
