(* ===== verification/Node_Invariant.thy ===== *)
theory Node_Invariant
  imports Node_Safety
begin

text \<open>
  The data invariant of a node, kept by every input: the peer lists are consistent, the pool is
  keyed by hashes, the account state and its Merkle trie agree, the registry holds only encoded
  validators, and the stores are sound.  It follows which inputs can crash a node at all.

  The handlers are grouped by what they change; the collection \<open>node_ok\<close> rules carry the proofs.
\<close>

definition node_ok :: "('s \<Rightarrow> bool) \<Rightarrow> 's env \<Rightarrow> 's AppNode \<Rightarrow> bool" where
  "node_ok I e n \<longleftrightarrow> bar_ok (n_barNet n) \<and> pool_ok (n_txPool n) \<and> state_ok (e_cr e) (n_state n) \<and>
     reg_ok (e_st e) I (n_vr n) \<and> I (bc_store (n_bc n))"

named_theorems node_okI

section \<open>Updates\<close>

lemma node_ok_frame [simp]:
  "node_ok I e (n\<lparr>n_p2p := p\<rparr>) = node_ok I e n" "node_ok I e (n\<lparr>n_handshakeManager := hm\<rparr>) = node_ok I e n"
  "node_ok I e (n\<lparr>n_inactivityMonitor := im\<rparr>) = node_ok I e n" "node_ok I e (n\<lparr>n_tasks := ts\<rparr>) = node_ok I e n"
  "node_ok I e (n\<lparr>n_pendingBlocks := pb\<rparr>) = node_ok I e n" "node_ok I e (n\<lparr>n_approvalBuffer := ab\<rparr>) = node_ok I e n"
  "node_ok I e (n\<lparr>n_committee := vs\<rparr>) = node_ok I e n" "node_ok I e (n\<lparr>n_proposerSelector := ps\<rparr>) = node_ok I e n"
  "node_ok I e (n\<lparr>n_metrics := mc\<rparr>) = node_ok I e n" "node_ok I e (n\<lparr>n_fastSyncManager := fs\<rparr>) = node_ok I e n"
  "node_ok I e (n\<lparr>n_syncDone := c\<rparr>) = node_ok I e n" "node_ok I e (snd (node_publish e' n t d)) = node_ok I e n"
  by (simp_all add: node_ok_def)

lemma node_ok_bar [node_okI]: "node_ok I e n \<Longrightarrow> bar_ok bn \<Longrightarrow> node_ok I e (n\<lparr>n_barNet := bn\<rparr>)"
  by (simp add: node_ok_def)

lemma node_ok_pool [node_okI]: "node_ok I e n \<Longrightarrow> pool_ok tp \<Longrightarrow> node_ok I e (n\<lparr>n_txPool := tp\<rparr>)"
  by (simp add: node_ok_def)

lemma node_ok_state [node_okI]: "node_ok I e n \<Longrightarrow> state_ok (e_cr e) s \<Longrightarrow> node_ok I e (n\<lparr>n_state := s\<rparr>)"
  by (simp add: node_ok_def)

lemma node_ok_vr [node_okI]: "node_ok I e n \<Longrightarrow> reg_ok (e_st e) I vr \<Longrightarrow> node_ok I e (n\<lparr>n_vr := vr\<rparr>)"
  by (simp add: node_ok_def)

lemma node_ok_bc [node_okI]: "node_ok I e n \<Longrightarrow> I (bc_store bc) \<Longrightarrow> node_ok I e (n\<lparr>n_bc := bc\<rparr>)"
  by (simp add: node_ok_def)

lemma node_okD:
  assumes "node_ok I e n"
  shows "bar_ok (n_barNet n)" "pool_ok (n_txPool n)" "state_ok (e_cr e) (n_state n)" "reg_ok (e_st e) I (n_vr n)"
    "I (bc_store (n_bc n))"
  using assms by (simp_all add: node_ok_def)

section \<open>The peer protocols\<close>

lemma node_ok_penalize [node_okI]: "node_ok I e n \<Longrightarrow> node_ok I e (penalize e' n p i r)"
  by (simp add: penalize_def node_ok_bar bar_ok_UpdatePOM node_okD)

lemma node_ok_step [node_okI]: "node_ok I e n \<Longrightarrow> bar_step cr (n_barNet n) bn \<Longrightarrow> node_ok I e (n\<lparr>n_barNet := bn\<rparr>)"
  by (simp add: node_ok_bar bar_ok_step [of cr "n_barNet n"] node_okD)

lemma node_ok_UpdateRound [simp]: "node_ok I e (UpdateRound e' n r) = node_ok I e n"
  by (simp add: UpdateRound_def)

lemma node_ok_send [simp]:
  "node_ok I e (snd (send_reply e' n t m)) = node_ok I e n" "node_ok I e (snd (SendPing e' n p)) = node_ok I e n"
  by (simp_all add: send_reply_def SendPing_def generateNonce_def Let_def split_beta)

lemma node_ok_handlePing [node_okI]:
  assumes "node_ok I e n" shows "node_ok I e (handlePing e' n m)"
proof -
  have "node_ok I e (n\<lparr>n_barNet := snd (FindNodes (e_cr e') (n_barNet n) (hs_Round m))\<rparr>)"
    by (rule node_ok_step [OF assms step_find])
  then show ?thesis
    using assms by (simp add: handlePing_def split_beta Let_def node_okI option.case_eq_if)
qed

lemma node_ok_handshake [node_okI]:
  assumes "node_ok I e n" shows "node_ok I e (handleHandshakeMessage e' n t msg)"
proof -
  have "node_ok I e (handlePong e' n m)" for m
    using assms node_ok_step [OF assms step_promote]
    by (simp add: handlePong_def split_beta node_ok_penalize)
  moreover have "node_ok I e (handleAck e' n m)" for m
    using assms by (simp add: handleAck_def node_ok_penalize)
  ultimately show ?thesis
    using assms node_ok_handlePing [OF assms]
    by (simp add: handleHandshakeMessage_def node_ok_penalize split: option.split)
qed

lemma node_ok_perform [node_okI]:
  assumes "node_ok I e n" shows "node_ok I e (performHandshakes e' n)"
proof -
  have "node_ok I e (perform_handshakes_loop e' n k infos)" if "node_ok I e n" for n k infos
    using that
  proof (induction e' n k infos rule: perform_handshakes_loop.induct)
    case (2 e' n k info infos)
    have "node_ok I e n1" if "SendPing e' n (pi_ID info) = (r, n1)" for r n1
      using node_ok_send(2) [of I e e' n "pi_ID info"] that 2(4) by simp
    then show ?case
      using 2 by (auto simp: node_ok_penalize split: prod.split option.split)
  qed simp
  with assms show ?thesis by (simp add: performHandshakes_def)
qed

lemma node_ok_records [simp]: "node_ok I e (set_records n rs) = node_ok I e n"
  by (simp add: set_records_def)

lemma node_ok_record [simp]: "node_ok I e (recordInactivity e' n p r w ev) = node_ok I e n"
  by (simp add: recordInactivity_def Let_def)

lemma node_ok_report [simp]: "node_ok I e (report_to e' n p r ev infos) = node_ok I e n"
  by (induction e' n p r ev infos rule: report_to.induct) (simp_all add: Let_def)

lemma node_ok_inactivity [node_okI]:
  assumes "node_ok I e n" shows "node_ok I e (handleInactivityMessage e' n t msg)"
proof -
  have "node_ok I e (markPeerAsInactive e' n p)" if "node_ok I e n" for n p
    using node_ok_step [OF that step_demote]
    by (simp add: markPeerAsInactive_def broadcastInactivityReport_def split: option.split)
  then have "node_ok I e (handleMarkInactive e' n m)" for m
    using assms by (simp add: handleMarkInactive_def Let_def node_ok_penalize)
  then show ?thesis
    using assms by (simp add: handleInactivityMessage_def handleInactivityReport_def node_ok_penalize split: option.split)
qed

lemma node_ok_check [simp]: "node_ok I e (checkForInactivity e' n) = node_ok I e n"
proof -
  have "node_ok I e (foldl (\<lambda>n info. if pi_ID info = p2p_ID (n_p2p n) then n
          else if isPeerInactive n (pi_ID info) then reportInactivity e' n (pi_ID info) r ev else n) n infos) = node_ok I e n"
    for r ev infos
    by (induction infos arbitrary: n) (simp_all add: reportInactivity_def)
  then show ?thesis by (simp add: checkForInactivity_def)
qed

lemma node_ok_push [node_okI]:
  assumes "node_ok I e n" shows "node_ok I e (handleOptimisticPushMessage e' n t msg)"
proof -
  have "node_ok I e (handlePushRequest e' n m)" for m
    using assms by (simp add: handlePushRequest_def sendPushResponse_def split_beta)
  moreover have "node_ok I e (handlePushResponse n m)" "node_ok I e (handleBlockData n m)" for m
    using assms by (simp_all add: handlePushResponse_def handleBlockData_def processReceivedBlockData_def
        processReceivedBlockHeaders_def)
  ultimately show ?thesis
    using assms by (simp add: handleOptimisticPushMessage_def node_ok_penalize split: option.split)
qed

section \<open>Transactions, registration and elections\<close>

lemma check_sender_state: "state_ok cr s \<Longrightarrow> snd (check_sender cr s tx pk) = s"
  by (simp add: check_sender_def GetAccount_ok Let_def)

lemma Pool_Add_state:
  assumes "state_ok cr s" shows "snd (snd (Pool_AddTransaction cr tp tx pk s)) = s"
proof -
  obtain err where "check_sender cr s tx pk = (err, s)" using check_sender_state [OF assms, of tx pk] by (metis prod.collapse)
  then show ?thesis by (simp add: Pool_AddTransaction_def split: option.split)
qed

lemma node_ok_handleTransaction [node_okI]:
  assumes "node_ok I e n" shows "node_ok I e (handleTransaction e n msg)"
proof -
  have "node_ok I e (n\<lparr>n_txPool := tp, n_state := s\<rparr>)"
    if "Pool_AddTransaction (e_cr e) (n_txPool n) tx pk (n_state n) = (err, tp, s)" for tx pk err tp s
    using that assms pool_ok_Add [OF node_okD(2) [OF assms], of "e_cr e" tx pk "n_state n"]
      Pool_Add_state [OF node_okD(3) [OF assms], of "n_txPool n" tx pk]
    by (auto intro!: node_okI dest: node_okD)
  then show ?thesis
    using assms by (auto simp: handleTransaction_def node_ok_penalize split: sum.split option.split prod.split)
qed

lemma node_ok_ForceCommittee [simp]: "node_ok I e (ForceCommitteeAndProposer e' n) = node_ok I e n"
  by (simp add: ForceCommitteeAndProposer_def Let_def split: sum.split)

lemma fund_account_ok:
  assumes "node_ok I e n" obtains n' where "fund_account e n a = Some n'" "node_ok I e n'"
    "n_vr n' = n_vr n" "n_state n' = (if acc_Balance (acct (n_state n) a) = 0
       then PutAccount (e_cr e) (n_state n) ((acct (n_state n) a)\<lparr>acc_Balance := 1000\<rparr>) else n_state n)"
proof -
  let ?acc = "acct (n_state n) a"
  let ?n' = "if acc_Balance ?acc = 0 then n\<lparr>n_state := PutAccount (e_cr e) (n_state n) (?acc\<lparr>acc_Balance := 1000\<rparr>)\<rparr> else n"
  have "fund_account e n a = Some ?n'" "node_ok I e ?n'"
    using assms node_okD(3) [OF assms] by (simp_all add: fund_account_def GetAccount_ok node_ok_state state_ok_PutAccount)
  then show ?thesis by (rule that) simp_all
qed

lemma handleRegistration_ok:
  assumes "reliable_store (e_st e) I" "node_ok I e n"
  obtains n' where "handleValidatorRegistration e n msg = Some n'" "node_ok I e n'"
proof (cases "Option.bind (parse_json (msg_Data msg)) json_registration")
  case None
  then show ?thesis using assms that [of n] by (simp add: handleValidatorRegistration_def)
next
  case (Some r)
  obtain vr where vr: "RegisterValidator (e_st e) (n_vr n) (Some (new_validator (vreg_Address r) (vreg_Stake r))) = (None, vr)"
    "reg_ok (e_st e) I vr"
    by (rule reliable_store.RegisterValidator_ok [OF assms(1) node_okD(4) [OF assms(2)]])
  have "node_ok I e (ForceCommitteeAndProposer e (n\<lparr>n_vr := vr\<rparr>))" using assms(2) vr(2) by (simp add: node_ok_vr)
  then obtain n' where "fund_account e (ForceCommitteeAndProposer e (n\<lparr>n_vr := vr\<rparr>)) (vreg_Address r) = Some n'" "node_ok I e n'"
    by (rule fund_account_ok)
  then show ?thesis using that Some vr(1) by (simp add: handleValidatorRegistration_def)
qed

lemma node_ok_BroadcastTransaction [simp]: "node_ok I e (snd (BroadcastTransaction e' n tx)) = node_ok I e n"
  by (simp add: BroadcastTransaction_def split_beta)

lemma fund_validators_ok:
  assumes "node_ok I e n" obtains n' where "fund_validators e n vs = Some n'" "node_ok I e n'"
  using assms
proof (induction vs arbitrary: n thesis)
  case (Cons v vs)
  obtain n1 where n1: "fund_account e n (val_Address v) = Some n1" "node_ok I e n1"
    by (rule fund_account_ok [OF Cons.prems(2)])
  from n1(1) Cons.prems(1) show ?case by (auto intro: Cons.IH [OF _ n1(2)])
qed simp

lemma node_ok_addTest [simp]: "node_ok I e (addTestTransactions e' n) = node_ok I e n"
proof -
  have "node_ok I e (foldl (\<lambda>n (a, k). snd (BroadcastTransaction e' n (test_tx e' n r a k ty))) n xs) = node_ok I e n" for r ty xs
    by (induction xs arbitrary: n) (simp_all add: split_beta)
  then show ?thesis by (simp add: addTestTransactions_def Let_def split: sum.split option.split)
qed

lemma initialize_ok:
  assumes "node_ok I e n" obtains n' where "initialize_accounts e n = Some n'" "node_ok I e n'"
proof (cases "GetAllValidators (e_st e) (n_vr n)")
  case (Inl _)
  then show ?thesis using assms that by (simp add: initialize_accounts_def)
next
  case (Inr vs)
  obtain n1 where "fund_validators e n vs = Some n1" "node_ok I e n1" by (rule fund_validators_ok [OF assms])
  then show ?thesis using Inr that by (simp add: initialize_accounts_def)
qed

section \<open>Blocks\<close>

lemma node_ok_broadcastApproval [simp]: "node_ok I e (broadcastApproval e' n b) = node_ok I e n"
  by (simp add: broadcastApproval_def)

lemma node_ok_after_vote [simp]: "node_ok I e (after_vote e' n b ba) = node_ok I e n"
  by (simp add: after_vote_def)

lemma node_ok_processReceivedBlock [simp]: "node_ok I e (processReceivedBlock e' n b) = node_ok I e n"
  by (simp add: processReceivedBlock_def Let_def split_beta option.case_eq_if)

lemma node_ok_processApproval [simp]: "node_ok I e (processApproval n a) = node_ok I e n"
  by (simp add: processApproval_def Let_def split_beta split: option.split)

lemma node_ok_watch [simp]: "node_ok I e (snd (watch_tick n b)) = node_ok I e n" "node_ok I e (watch_timeout n b) = node_ok I e n"
  by (simp_all add: watch_tick_def watch_timeout_def split: option.split)

lemma node_ok_drop_task [simp]: "node_ok I e (drop_task i n) = node_ok I e n"
  by (simp add: drop_task_def)

text \<open>Adding and applying a block, as production and finalization both do.\<close>

lemma node_ok_add:
  assumes "reliable_store (e_st e) I" "node_ok I e n" "AddBlock (e_st e) (n_bc n) b = (err, bc)"
  shows "node_ok I e (n\<lparr>n_bc := bc\<rparr>)"
proof -
  obtain s where "AddBlock (e_st e) (n_bc n) b = (None, (n_bc n)\<lparr>bc_store := s, bc_tip := blk_Hash b,
      bc_height := blk_Number b, bc_currentHeight := blk_Number b\<rparr>)" "I s"
    by (rule reliable_store.AddBlock_ok [OF assms(1) node_okD(5) [OF assms(2)]])
  then show ?thesis using assms(2,3) by (auto intro!: node_ok_bc)
qed

lemma node_ok_apply:
  assumes "reliable_store (e_st e) I" "node_ok I e n"
    and "ApplyBlockWithRegistry (e_cr e) (e_st e) b (n_state n) (n_vr n) = (err, s, vr)"
  shows "node_ok I e (n\<lparr>n_state := s, n_vr := vr\<rparr>)"
proof -
  have "state_ok (e_cr e) s \<and> reg_ok (e_st e) I vr"
    using reliable_store.apply_with_registry_ok [OF assms(1) node_okD(3,4) [OF assms(2)]] assms(3)
    unfolding ApplyBlockWithRegistry_def by blast
  then show ?thesis using assms(2) by (simp add: node_ok_state node_ok_vr)
qed

lemma pool_ok_Remove_all: "pool_ok tp \<Longrightarrow> pool_ok (foldl RemoveTransaction tp hs)"
  by (induction hs arbitrary: tp) (simp_all add: pool_ok_Remove)

lemma node_ok_add_apply:
  assumes "reliable_store (e_st e) I" "node_ok I e n" "AddBlock (e_st e) (n_bc n) b = (err, bc)"
    and "ApplyBlockWithRegistry (e_cr e) (e_st e) b (n_state n) (n_vr n) = (err', s, vr)"
  shows "node_ok I e (n\<lparr>n_bc := bc, n_state := s, n_vr := vr\<rparr>)"
    "node_ok I e (n\<lparr>n_bc := bc, n_state := s, n_vr := vr, n_txPool := foldl RemoveTransaction (n_txPool n) hs\<rparr>)"
proof -
  have "node_ok I e (n\<lparr>n_bc := bc\<rparr>)" by (rule node_ok_add [OF assms(1-3)])
  then show 1: "node_ok I e (n\<lparr>n_bc := bc, n_state := s, n_vr := vr\<rparr>)"
    using node_ok_apply [OF assms(1), of "n\<lparr>n_bc := bc\<rparr>" b err' s vr] assms(4) by simp
  show "node_ok I e (n\<lparr>n_bc := bc, n_state := s, n_vr := vr, n_txPool := foldl RemoveTransaction (n_txPool n) hs\<rparr>)"
    using node_ok_pool [OF 1 pool_ok_Remove_all [OF node_okD(2) [OF assms(2)]]] by simp
qed

lemma node_ok_finalize:
  assumes "reliable_store (e_st e) I" "node_ok I e n"
  shows "node_ok I e (finalizeApprovedBlock e n b)"
proof (cases "go_get (n_pendingBlocks n) (blk_Hash b) = None")
  case False
  define n1 where "n1 = n\<lparr>n_pendingBlocks := go_delete (n_pendingBlocks n) (blk_Hash b)\<rparr>"
  have ok: "node_ok I e n1" using assms(2) by (simp add: n1_def)
  obtain err bc where add: "AddBlock (e_st e) (n_bc n1) b = (err, bc)" by fastforce
  obtain err' s vr where app: "ApplyBlockWithRegistry (e_cr e) (e_st e) b (n_state n1) (n_vr n1) = (err', s, vr)"
    using prod_cases3 by blast
  note 1 = node_ok_add [OF assms(1) ok add] and 2 = node_ok_add_apply [OF assms(1) ok add app]
  have "finalizeApprovedBlock e n b =
     (if err \<noteq> None then n1\<lparr>n_bc := bc\<rparr>
      else if err' \<noteq> None \<or> blk_FromNil b \<noteq> None then n1\<lparr>n_bc := bc, n_state := s, n_vr := vr\<rparr>
      else (n1\<lparr>n_bc := bc, n_state := s, n_vr := vr,
              n_txPool := foldl RemoveTransaction (n_txPool n1) (map tx_Hash (blk_Transactions b))\<rparr>)
           \<lparr>n_metrics := RecordFinalityTime (RecordBlockProduction (e_now e) (n_metrics n1)) 250000000\<rparr>)"
    using False add app by (cases err; cases err') (auto simp: finalizeApprovedBlock_def n1_def Let_def)
  then show ?thesis using 1 2(1) 2(2) [of "map tx_Hash (blk_Transactions b)"] by (simp only: node_ok_frame split: if_split) simp
qed (use assms(2) in \<open>simp add: finalizeApprovedBlock_def\<close>)

lemma node_ok_propose:
  assumes "reliable_store (e_st e) I" "node_ok I e n"
  shows "node_ok I e (propose_block e n proposer)"
proof -
  let ?txs = "tb_Transactions (CreateOptimizedBatch (\<lambda>_. now64 e) (\<lambda>_. now64 e) (n_txPool n) (n_state n))"
  show ?thesis
  proof (cases "CreateBlock (e_cr e) (e_st e) (now64 e) (n_bc n) ?txs proposer")
    case (Inl _)
    then show ?thesis using assms(2) by (simp add: propose_block_def Let_def)
  next
    case (Inr b0)
    let ?b = "Block_Sign (e_cr e) b0 (n_privKey n)"
    obtain err bc where add: "AddBlock (e_st e) (n_bc n) ?b = (err, bc)" by fastforce
    obtain err' s vr where app: "ApplyBlockWithRegistry (e_cr e) (e_st e) ?b (n_state n) (n_vr n) = (err', s, vr)"
      using prod_cases3 by blast
    note 1 = node_ok_add [OF assms add] and 2 = node_ok_add_apply [OF assms add app]
    have "propose_block e n proposer =
       (if err \<noteq> None then n\<lparr>n_bc := bc\<rparr>
        else if err' \<noteq> None then n\<lparr>n_bc := bc, n_state := s, n_vr := vr\<rparr>
        else snd (node_publish e
          ((n\<lparr>n_bc := bc, n_state := s, n_vr := vr, n_txPool := foldl RemoveTransaction (n_txPool n) (map tx_Hash ?txs)\<rparr>)
           \<lparr>n_metrics := foldl (\<lambda>mc _. RecordTransaction (e_now e) mc) (RecordBlockProduction (e_now e) (n_metrics n)) ?txs\<rparr>)
          BlockTopic (Block_Encode ?b)))"
      using Inr add app by (cases err; cases err') (simp_all add: propose_block_def Let_def)
    then show ?thesis using 1 2(1) 2(2) [of "map tx_Hash ?txs"] by (simp only: node_ok_frame split: if_split) simp
  qed
qed

lemma node_ok_start_round:
  assumes "node_ok I e n" shows "node_ok I e (start_round e n rnd)"
proof -
  let ?n = "UpdateRound e n rnd"
  have 1: "node_ok I e (?n\<lparr>n_barNet := snd (FindNodes (e_cr e) (n_barNet ?n) rnd)\<rparr>)"
    by (rule node_ok_step [OF _ step_find]) (simp add: assms)
  then show ?thesis
    using node_ok_step [OF 1 step_cleanup] by (simp add: start_round_def Let_def)
qed

lemma node_ok_producer:
  assumes "reliable_store (e_st e) I" "node_ok I e n"
  shows "node_ok I e (producer_tick e n rnd)"
  using node_ok_start_round [OF assms(2), of rnd] node_ok_propose [OF assms(1)]
  by (simp add: producer_tick_def Let_def split: option.split)

lemma node_ok_run_task:
  assumes "reliable_store (e_st e) I" "node_ok I e n"
  shows "node_ok I e (run_task e n i timeout)"
proof -
  have "node_ok I e (fastsync_syncLoop (drop_task i n))"
    using assms(2) by (simp add: fastsync_syncLoop_def Let_def)
  moreover have "node_ok I e (snd (watch_tick n b))" for b using assms(2) by simp
  ultimately show ?thesis
    using assms(2) node_ok_finalize [OF assms(1), of "drop_task i n"]
    by (simp add: run_task_def split_beta split: task.split)
qed

lemma node_ok_sync [simp]: "node_ok I e (performBlockSync e' n) = node_ok I e n"
proof -
  have "node_ok I e (foldl (\<lambda>n h. case GetBlockByHeight (e_st e') (n_bc n) h of Inl _ \<Rightarrow> RequestBlock e' n h | Inr _ \<Rightarrow> n) n hs)
      = node_ok I e n" for hs
    by (induction hs arbitrary: n) (simp_all add: RequestBlock_def split: sum.split)
  then show ?thesis by (simp add: performBlockSync_def Let_def)
qed

section \<open>Crashes\<close>

text \<open>A handler's outcome: it crashes exactly in the case \<open>bad\<close>, and otherwise keeps the invariant.\<close>

definition outcome_ok :: "('s \<Rightarrow> bool) \<Rightarrow> 's env \<Rightarrow> bool \<Rightarrow> 's AppNode option \<Rightarrow> bool" where
  "outcome_ok I e bad r \<longleftrightarrow> (case r of Some n' \<Rightarrow> node_ok I e n' \<and> \<not> bad | None \<Rightarrow> bad)"

lemma outcome_ok_simps [simp]:
  "outcome_ok I e bad None \<longleftrightarrow> bad" "outcome_ok I e bad (Some n) \<longleftrightarrow> node_ok I e n \<and> \<not> bad"
  by (simp_all add: outcome_ok_def)

text \<open>The messages that make a handler dereference a nil block or header.\<close>

definition null_block :: "address \<Rightarrow> string \<Rightarrow> bytes \<Rightarrow> bool" where
  "null_block self topic dat \<longleftrightarrow>
     (topic = BlockTopic \<and> Option.bind (parse_json dat) json_struct_block \<in> {Some NilBlock, Some NilHeader}) \<or>
     (topic = BlockResponseTopic \<and>
        (\<exists>r. Option.bind (parse_json dat) json_response = Some r \<and> bresp_From r \<noteq> self \<and>
             bresp_Block r \<in> {NilBlock, NilHeader}))"

lemma null_block_topics:
  "topic \<noteq> BlockTopic \<Longrightarrow> topic \<noteq> BlockResponseTopic \<Longrightarrow> \<not> null_block self topic dat"
  by (simp add: null_block_def)

lemma handleBlockProposal_ok:
  assumes "node_ok I e n"
  shows "outcome_ok I e (null_block (n_address n) BlockTopic (msg_Data msg)) (handleBlockProposal e n msg)"
  using assms
  by (auto simp: handleBlockProposal_def null_block_def topic_defs node_ok_penalize split: option.split wire_block.split)

lemma handleBlockResponse_ok:
  assumes "node_ok I e n"
  shows "outcome_ok I e (null_block (n_address n) BlockResponseTopic (msg_Data msg)) (handleBlockResponse e n msg)"
  using assms
  by (auto simp: handleBlockResponse_def null_block_def topic_defs split: option.split wire_block.split)

lemma handleNetworkMessage_ok:
  assumes "reliable_store (e_st e) I" "node_ok I e n"
  shows "outcome_ok I e (null_block (n_address n) topic (msg_Data msg)) (handleNetworkMessage e n topic msg)"
proof -
  have "node_ok I e (handleApproval e n msg)"
    using assms(2) by (simp add: handleApproval_def node_ok_penalize split: option.split)
  moreover have "node_ok I e (handleBlockRequest e n msg)"
    using assms(2) by (simp add: handleBlockRequest_def split: option.split sum.split)
  moreover obtain n' where "handleValidatorRegistration e n msg = Some n'" "node_ok I e n'"
    by (rule handleRegistration_ok [OF assms])
  ultimately show ?thesis
    using handleBlockProposal_ok [OF assms(2), of msg] handleBlockResponse_ok [OF assms(2), of msg]
      node_ok_handleTransaction [OF assms(2), of msg] assms(2) null_block_topics [of topic]
    by (simp add: handleNetworkMessage_def null_block_def topic_defs)
qed

text \<open>
  An input that brings such a message to the node's own handler, or runs the finalization of a pending block that has a nil
  transaction, with no error before it.
\<close>

fun crashing :: "'s env \<Rightarrow> 's AppNode \<Rightarrow> input \<Rightarrow> bool" where
  "crashing e n (Receive topic NodeHandler msg) \<longleftrightarrow>
     (topic, NodeHandler) \<in> set (p2p_subs (n_p2p n)) \<and> msg_ReceivedFrom msg \<noteq> p2p_ID (n_p2p n) \<and>
     null_block (n_address n) topic (msg_Data msg)"
| "crashing e n (RunTask i timeout) \<longleftrightarrow> i < length (n_tasks n) \<and>
     (case n_tasks n ! i of
        FinalizeBlock b \<Rightarrow>
          go_get (n_pendingBlocks n) (blk_Hash b) \<noteq> None \<and> None \<in> set (tx_pointers b) \<and>
          fst (ApplyBlockWithRegistry (e_cr e) (e_st e) b (n_state n) (n_vr n)) = None
      | _ \<Rightarrow> False)"
| "crashing e n _ \<longleftrightarrow> False"

lemma task_panics_crashing:
  assumes "reliable_store (e_st e) I" "node_ok I e n"
  shows "task_panics e n i = crashing e n (RunTask i timeout)"
proof -
  have "fst (AddBlock (e_st e) (n_bc n) b) = None" for b
    by (rule reliable_store.AddBlock_ok [OF assms(1) node_okD(5) [OF assms(2)], of b]) simp
  then show ?thesis by (auto simp: task_panics_def finalize_panics_def nil_pointer_iff split: task.splits)
qed

lemma receive_ok:
  assumes "reliable_store (e_st e) I" "node_ok I e n"
  shows "outcome_ok I e (crashing e n (Receive topic h msg)) (receive e n topic h msg)"
proof (cases "(topic, h) \<in> set (p2p_subs (n_p2p n)) \<and> msg_ReceivedFrom msg \<noteq> p2p_ID (n_p2p n)")
  case False
  then have "receive e n topic h msg = Some n" by (auto simp: receive_def handleSubscription_def)
  moreover have "\<not> crashing e n (Receive topic h msg)" using False by (cases h) auto
  ultimately show ?thesis using assms(2) by simp
next
  case True
  define n1 where "n1 = n\<lparr>n_p2p := UpdateBandwidthIn (n_p2p n) (of_nat (length (msg_Data msg)))\<rparr>"
  have ok: "node_ok I e n1" and addr: "n_address n1 = n_address n" using assms(2) by (simp_all add: n1_def)
  have "receive e n topic h msg = dispatch e n1 topic h msg"
    using True by (simp add: receive_def handleSubscription_def n1_def)
  then show ?thesis
    using True handleNetworkMessage_ok [OF assms(1) ok, of topic msg] ok addr
    by (cases h) (simp_all add: node_okI)
qed

lemma node_input_ok:
  assumes "reliable_store (e_st e) I" "node_ok I e n"
  shows "outcome_ok I e (crashing e n inp) (node_input e inp n)"
proof (cases inp)
  case (Receive topic h msg)
  then show ?thesis using receive_ok [OF assms] by simp
next
  case (PeerConnected p a)
  then show ?thesis using node_ok_step [OF assms(2) step_add] by simp
next
  case (RunTask i timeout)
  then show ?thesis using node_ok_run_task [OF assms] task_panics_crashing [OF assms] by simp
next
  case InitializeAccounts
  obtain n' where "initialize_accounts e n = Some n'" "node_ok I e n'" by (rule initialize_ok [OF assms(2)])
  then show ?thesis using InitializeAccounts by simp
next
  case RegistrationTick
  then show ?thesis using assms(2) by (simp add: sendValidatorRegistration_def split: sum.split option.split)
qed (use assms(2) node_ok_producer [OF assms] node_ok_perform [OF assms(2)] in simp_all)

section \<open>New nodes\<close>

context reliable_store
begin

lemma addBlock_inv:
  assumes "inv (bc_store bc)" "addBlock st bc b = (err, bc')" shows "inv (bc_store bc')"
proof -
  obtain s where "AddBlock st bc b = (None, bc\<lparr>bc_store := s, bc_tip := blk_Hash b, bc_height := blk_Number b,
      bc_currentHeight := blk_Number b\<rparr>)" "inv s" by (rule AddBlock_ok [OF assms(1)])
  then show ?thesis using assms(2) by (auto simp: AddBlock_def)
qed

lemma fresh_chain_inv:
  assumes "inv (bc_store bc)" "fresh_chain st bc g = Inr bc'" shows "inv (bc_store bc')"
proof -
  obtain e1 s1 where p1: "st_Put st (bc_store bc) tipKey (hash_bytes (blk_Hash g)) = (e1, s1)" by fastforce
  obtain e2 s2 where p2: "st_Put st s1 heightKey (marshal_u64 0) = (e2, s2)" by fastforce
  have "inv s1" using inv_put [OF assms(1)] p1 by (metis snd_conv)
  then have i2: "inv s2" using inv_put p2 by (metis snd_conv)
  obtain bc1 where bc1: "addBlock st bc1 g = (None, bc')" "bc_store bc1 = s2"
    using assms(2) p1 p2 by (auto simp: fresh_chain_def Let_def split: option.splits prod.splits)
  show ?thesis using addBlock_inv [OF _ bc1(1)] i2 bc1(2) by simp
qed

lemma NewBlockchain_inv:
  assumes "inv s" "NewBlockchain cr st s = Inr bc" shows "inv (bc_store bc)"
  using assms
  by (auto simp: NewBlockchain_def Let_def split: sum.splits if_splits option.splits intro: fresh_chain_inv [rotated])

lemma clear_register:
  assumes "inv vs"
  obtains vr vr' where "ClearAllValidators st (NewValidatorRegistry vs b) = (None, vr)"
    "RegisterValidator st vr (Some v) = (None, vr')" "reg_ok st inv vr'" "reg_view st vr' = [val_Address v \<mapsto> v]"
proof -
  have "inv (vr_store (NewValidatorRegistry vs b))" using assms by (simp add: NewValidatorRegistry_def)
  then obtain vr where vr: "ClearAllValidators st (NewValidatorRegistry vs b) = (None, vr)" "reg_ok st inv vr"
    "\<And>k. store_view st (vr_store vr) k =
       (if has_prefix k validator_prefix then None else store_view st (vr_store (NewValidatorRegistry vs b)) k)"
    by (rule ClearAllValidators_ok) (rule that)
  have "reg_view st vr = Map.empty" by (simp add: reg_view_def vr(3) fun_eq_iff)
  moreover obtain vr' where "RegisterValidator st vr (Some v) = (None, vr')" "reg_ok st inv vr'"
    "reg_view st vr' = (reg_view st vr)(val_Address v \<mapsto> v)"
    by (rule RegisterValidator_ok [OF vr(2)])
  ultimately show ?thesis using vr(1) that by simp
qed

end

text \<open>What a node starts with, on sound stores.\<close>

lemma new_node:
  assumes "reliable_store (e_st e) I" "I cs" "I vs" "NewBlockchain (e_cr e) (e_st e) cs = Inr bc"
  obtains n where "NewAppNodeWithStores e (Some p) seed sk cs vs = Inr n" "node_ok I e n" "n_bc n = bc"
    "n_address n = pubKeyToAddress (e_cr e) (pub_key (e_cr e) sk)"
    "n_state n = PutAccount (e_cr e) NewState \<lparr>acc_Address = n_address n, acc_Balance = 1000, acc_Nonce = 0\<rparr>"
    "reg_view (e_st e) (n_vr n) = [n_address n \<mapsto> new_validator (n_address n) 100]"
    "n_pendingBlocks n = []" "n_tasks n = []" "n_committee n = []" "n_proposerSelector n = None"
proof -
  let ?a = "pubKeyToAddress (e_cr e) (pub_key (e_cr e) sk)"
  obtain vr vr' where vr: "ClearAllValidators (e_st e) (NewValidatorRegistry vs ''validators'') = (None, vr)"
    "RegisterValidator (e_st e) vr (Some (new_validator ?a 100)) = (None, vr')" "reg_ok (e_st e) I vr'"
    "reg_view (e_st e) vr' = [val_Address (new_validator ?a 100) \<mapsto> new_validator ?a 100]"
    by (rule reliable_store.clear_register [OF assms(1,3)])
  have bar: "bar_ok (SetOnPeerStatusChange (NewBARNetwork seed None))"
    by (rule bar_ok_step [OF step_callback bar_ok_New])
  have inv: "I (bc_store bc)" by (rule reliable_store.NewBlockchain_inv [OF assms(1,2,4)])
  show ?thesis
    using vr(3,4) bar inv
    by (intro that, simp add: NewAppNodeWithStores_def assms(4) vr(1,2) Let_def)
      (simp_all add: node_ok_def pool_ok_New state_ok_New state_ok_PutAccount new_validator_def)
qed

section \<open>Runs\<close>

text \<open>A run of a node: its start and its inputs, with the same cryptography and stores and any clock and network.\<close>

inductive node_run :: "'s env \<Rightarrow> 's AppNode \<Rightarrow> 's AppNode \<Rightarrow> bool" for e n0 where
  run_new: "node_run e n0 n0"
| run_start: "node_run e n0 n \<Longrightarrow> e_cr e' = e_cr e \<Longrightarrow> e_st e' = e_st e \<Longrightarrow> Start e' n = Some n' \<Longrightarrow> node_run e n0 n'"
| run_input: "node_run e n0 n \<Longrightarrow> e_cr e' = e_cr e \<Longrightarrow> e_st e' = e_st e \<Longrightarrow> node_input e' inp n = Some n' \<Longrightarrow>
    node_run e n0 n'"

lemma node_ok_Start: "Start e' n = Some n' \<Longrightarrow> node_ok I e n \<Longrightarrow> node_ok I e n'"
  by (auto simp: Start_def Handshake_Start_def Push_Start_def Inactivity_Start_def FastSync_Start_def bind_eq_Some_conv)

lemma node_run_ok:
  assumes "node_run e n0 n" "reliable_store (e_st e) I" "node_ok I e n0"
  shows "node_ok I e n"
  using assms
proof (induction rule: node_run.induct)
  case (run_input n e' inp n')
  have same: "node_ok I e' m = node_ok I e m" for m using run_input.hyps(2,3) by (simp add: node_ok_def)
  have "outcome_ok I e' (crashing e' n inp) (node_input e' inp n)"
    using node_input_ok [of e' I n inp] run_input by (simp add: same)
  then show ?case using run_input.hyps(4) by (simp add: same)
qed (auto intro: node_ok_Start)

section \<open>Properties\<close>

text \<open>
  C3: A node created on sound stores keeps its data consistent for as long as it runs, whatever
  messages, ticks and goroutines it handles: peers are in one list only, the pool maps hashes to
  their transactions, the Merkle trie agrees with the accounts, the registry holds
  validators only.  And, one handler or goroutine running at a time, it crashes in exactly two cases: on a
  message on the block or block-response topic whose block or header is \<^verbatim>\<open>null\<close>, and
  when it finalizes a pending block with a \<^verbatim>\<open>null\<close> transaction and no transaction before that one
  gives an error.
\<close>

theorem node_keeps_invariant:
  assumes "reliable_store (e_st e) I" "I chainStore" "I validatorStore"
    and "NewAppNodeWithStores e p2p seed privKey chainStore validatorStore = Inr n0" and "node_run e n0 n"
  shows "bar_ok (n_barNet n) \<and> pool_ok (n_txPool n) \<and> state_ok (e_cr e) (n_state n) \<and> reg_ok (e_st e) I (n_vr n) \<and>
    (node_input e inp n = None \<longleftrightarrow> crashing e n inp)"
proof -
  obtain bc p where bc: "NewBlockchain (e_cr e) (e_st e) chainStore = Inr bc" and p: "p2p = Some p"
    using assms(4) by (auto simp: NewAppNodeWithStores_def split: sum.splits prod.splits option.splits)
  obtain m where "NewAppNodeWithStores e p2p seed privKey chainStore validatorStore = Inr m" "node_ok I e m"
    unfolding p by (rule new_node [OF assms(1-3) bc])
  then have "node_ok I e n" using node_run_ok [OF assms(5,1)] assms(4) by simp
  then show ?thesis
    using node_input_ok [OF assms(1), of n inp] by (cases "node_input e inp n") (simp_all add: node_ok_def)
qed

definition demo_p2p :: P2PNode where
  "demo_p2p = n_p2p (demo_node [] ''me'' [])"

lemma demo_new_node:
  obtains n where "NewAppNodeWithStores demo_env (Some demo_p2p) [] ''key'' NewMemoryStore NewMemoryStore = Inr n"
    "node_ok MemoryStore_wf demo_env n"
proof -
  have "reliable_store (e_st demo_env) MemoryStore_wf" using memory_store.reliable_store_axioms by simp
  moreover have "MemoryStore_wf NewMemoryStore" by (simp add: MemoryStore_wf_def NewMemoryStore_def)
  moreover have "NewBlockchain (e_cr demo_env) (e_st demo_env) NewMemoryStore = Inr demo_chain" using demo_chain_facts(1) by simp
  ultimately show ?thesis using new_node that by metis
qed

theorem node_keeps_invariant_witness:
  "\<exists>n. NewAppNodeWithStores demo_env (Some demo_p2p) [] ''key'' NewMemoryStore NewMemoryStore = Inr n \<and>
     reg_ok MemoryStore_ops MemoryStore_wf (n_vr n) \<and> node_input demo_env HandshakeTick n \<noteq> None"
proof -
  have r: "reliable_store (e_st demo_env) MemoryStore_wf" using memory_store.reliable_store_axioms by simp
  have w: "MemoryStore_wf NewMemoryStore" by (simp add: MemoryStore_wf_def NewMemoryStore_def)
  obtain n where n: "NewAppNodeWithStores demo_env (Some demo_p2p) [] ''key'' NewMemoryStore NewMemoryStore = Inr n"
    by (rule demo_new_node)
  show ?thesis
    using node_keeps_invariant [OF r w w n run_new, of HandshakeTick] n by auto
qed

text \<open>
  C19: A restart forgets the ledger.  Opening a node on the store of a well-formed chain recovers the
  height, the tip and the blocks, but not the accounts and validators: the only funded
  account is the node's own, with 1000, and the only validator is the node itself, whatever the
  blocks of the chain say.
\<close>

theorem restart_forgets_ledger:
  assumes "reliable_store (e_st e) I" "chain_ok (e_cr e) (e_st e) I bc" "I validatorStore"
    and "NewAppNodeWithStores e p2p seed privKey (bc_store bc) validatorStore = Inr n"
  shows "Height (n_bc n) = Height bc \<and> bc_tip (n_bc n) = bc_tip bc \<and>
    GetBlockByHeight (e_st e) (n_bc n) h = GetBlockByHeight (e_st e) bc h \<and>
    total_supply (n_state n) = 1000 \<and> acc_Balance (acct (n_state n) (n_address n)) = 1000 \<and>
    GetAllValidators (e_st e) (n_vr n) = Inr [new_validator (n_address n) 100]"
proof -
  have new: "NewBlockchain (e_cr e) (e_st e) (bc_store bc) = Inr (bc\<lparr>bc_height := 0\<rparr>)" by (rule restart_ok [OF assms(2)])
  have I: "I (bc_store bc)" using assms(2) by (simp add: chain_ok_def)
  obtain p where p: "p2p = Some p"
    using assms(4) new by (auto simp: NewAppNodeWithStores_def split: prod.splits option.splits)
  obtain m where m: "NewAppNodeWithStores e p2p seed privKey (bc_store bc) validatorStore = Inr m" "node_ok I e m"
    "n_bc m = bc\<lparr>bc_height := 0\<rparr>"
    "n_state m = PutAccount (e_cr e) NewState \<lparr>acc_Address = n_address m, acc_Balance = 1000, acc_Nonce = 0\<rparr>"
    "reg_view (e_st e) (n_vr m) = [n_address m \<mapsto> new_validator (n_address m) 100]"
    unfolding p by (rule new_node [OF assms(1) I assms(3) new])
  have nm: "m = n" using m(1) assms(4) by simp
  have reg: "reg_ok (e_st e) I (n_vr n)" using node_okD(4) [OF m(2)] by (simp add: nm)
  obtain vs where vs: "GetAllValidators (e_st e) (n_vr n) = Inr vs" "distinct (map val_Address vs)"
    "set vs = ran (reg_view (e_st e) (n_vr n))"
    by (rule reliable_store.GetAllValidators_ok [OF assms(1) reg])
  have "set vs = {new_validator (n_address n) 100}" using vs(3) m(5) by (simp add: nm ran_def)
  then have "vs = [new_validator (n_address n) 100]"
    using vs(2) by (cases vs rule: list.exhaust; cases "tl vs") (auto simp: distinct_map)
  moreover have "total_supply (n_state n) = 1000"
    using total_supply_Put [OF state_ok_New, of "e_cr e" "\<lparr>acc_Address = n_address n, acc_Balance = 1000, acc_Nonce = 0\<rparr>"] m(4)
    by (simp add: nm total_supply_def new_account_def)
  ultimately show ?thesis
    using m(3,4) vs(1) by (simp add: nm Height_def GetBlockByHeight_def)
qed

theorem restart_forgets_ledger_witness:
  "\<exists>n. NewAppNodeWithStores demo_env (Some demo_p2p) [] ''key'' (bc_store demo_chain) NewMemoryStore = Inr n \<and>
     Height (n_bc n) = Height demo_chain \<and> total_supply (n_state n) = 1000"
proof -
  have r: "reliable_store (e_st demo_env) MemoryStore_wf" using memory_store.reliable_store_axioms by simp
  have w: "MemoryStore_wf NewMemoryStore" by (simp add: MemoryStore_wf_def NewMemoryStore_def)
  have c: "chain_ok (e_cr demo_env) (e_st demo_env) MemoryStore_wf demo_chain" using demo_chain_facts(2) by simp
  have I: "MemoryStore_wf (bc_store demo_chain)" using c by (simp add: chain_ok_def)
  obtain n where n: "NewAppNodeWithStores demo_env (Some demo_p2p) [] ''key'' (bc_store demo_chain) NewMemoryStore = Inr n"
    by (rule new_node [OF r I w restart_ok [OF c]])
  show ?thesis using restart_forgets_ledger [OF r c w n] n by auto
qed

end
