(* ===== verification/Consensus_Round.thy ===== *)
theory Consensus_Round
  imports Node_Behaviour Node_Invariant
begin

text \<open>
  One round of consensus among honest nodes, from the proposer's tick to the finalized block of a
  follower.  The proposer adds its block at once and publishes it; a follower that receives it votes
  and publishes its vote; when it has heard enough votes it finalizes the block.  The proposer itself
  never votes.
\<close>

section \<open>Applying a block on two nodes\<close>

text \<open>Nodes that agree on accounts and registry agree on them after a block, however their tries and stores differ.\<close>

context reliable_store
begin

lemma apply_agrees:
  "state_ok cr s \<Longrightarrow> state_ok cr s2 \<Longrightarrow> acct s2 = acct s \<Longrightarrow> reg_ok st inv vr \<Longrightarrow> reg_ok st inv vr2 \<Longrightarrow>
     reg_view st vr2 = reg_view st vr \<Longrightarrow> apply_with_registry cr st txs s vr = (None, s', vr') \<Longrightarrow>
     \<exists>s2' vr2'. apply_with_registry cr st txs s2 vr2 = (None, s2', vr2') \<and> acct s2' = acct s' \<and>
       reg_view st vr2' = reg_view st vr'"
proof (induction txs arbitrary: s s2 vr vr2)
  case (Cons tx txs)
  obtain e1 vr1 where r: "registry_effect st tx vr = (e1, vr1)" by fastforce
  obtain e2 s1 where a: "ApplyTransaction cr s tx = (e2, s1)" by fastforce
  have none: "e1 = None" "e2 = None" and rest: "apply_with_registry cr st txs s1 vr1 = (None, s', vr')"
    using Cons.prems(7) by (auto simp: r a split: option.splits)
  obtain L where L: "ledger_step (acct s) tx = Inr L"
    using ApplyTransaction_refines [OF Cons.prems(1), of tx] a none by (cases "ledger_step (acct s) tx") auto
  have s1: "acct s1 = L" "state_ok cr s1"
    using ApplyTransaction_refines [OF Cons.prems(1), of tx] L a by auto
  obtain s3 where s3: "ApplyTransaction cr s2 tx = (None, s3)" "acct s3 = L" "state_ok cr s3"
    using ApplyTransaction_refines [OF Cons.prems(2), of tx] L Cons.prems(3) by auto
  note eff = registry_effect_ok [OF Cons.prems(4), of tx] and eff2 = registry_effect_ok [OF Cons.prems(5), of tx]
  have "\<not> (tx_Type tx = ''delegate'' \<and> reg_view st vr (tx_To tx) = None)"
    using eff(1) r none by (auto split: if_splits)
  then obtain vr3 where vr3: "registry_effect st tx vr2 = (None, vr3)" using eff2(1) Cons.prems(6) by auto
  have "reg_ok st inv vr1" "reg_ok st inv vr3" "reg_view st vr3 = reg_view st vr1"
    using eff(2,3) eff2(2,3) r vr3 Cons.prems(6) by simp_all
  from Cons.IH [OF s1(2) s3(3) _ this rest] show ?case using s1(1) s3(1,2) vr3 by simp
qed simp

end

section \<open>What a follower does\<close>

lemma json_approval_approval [simp]: "json_approval (approval_json a) = Some a"
  by (simp add: json_approval_def approval_json_def field_def lower_def)

text \<open>The vote that node \<open>n\<close> publishes for block \<open>b\<close>.\<close>

definition vote_of :: "'s env \<Rightarrow> 's AppNode \<Rightarrow> Block \<Rightarrow> Approval" where
  "vote_of e n b = approval_for b (\<lambda>_. ecdsa_sign (e_cr e) (n_privKey n) (blk_Hash b)) (n_address n)"

definition vote_data :: "Approval \<Rightarrow> bytes" where
  "vote_data a = print_json (approval_json a)"

lemma handle_vote [simp]: "handleApproval e n \<lparr>msg_Data = vote_data a, msg_ReceivedFrom = peer\<rparr> = processApproval n a"
  by (simp add: handleApproval_def vote_data_def parse_print_json)

lemma broadcastApproval_vote: "broadcastApproval e n b = snd (node_publish e n ApprovalTopic (vote_data (vote_of e n b)))"
  by (simp add: broadcastApproval_def vote_data_def vote_of_def approval_for_def)

lemma vote_of_p2p [simp]: "vote_of e (n\<lparr>n_tasks := ts\<rparr>) b = vote_of e n b"
  "vote_of e (n\<lparr>n_pendingBlocks := pb\<rparr>) b = vote_of e n b" "vote_of e (n\<lparr>n_approvalBuffer := ab\<rparr>) b = vote_of e n b"
  by (simp_all add: vote_of_def)

lemma after_vote_frame [simp]:
  "n_state (after_vote e n b ba) = n_state n" "n_vr (after_vote e n b ba) = n_vr n"
  "p2p_sent (n_p2p (after_vote e n b ba)) = p2p_sent (n_p2p n) @
     (if ApprovalTopic \<in> set (p2p_topics (n_p2p n)) \<and> lp_publish (e_lp e) ApprovalTopic (vote_data (vote_of e n b))
      then [(ApprovalTopic, vote_data (vote_of e n b))] else [])"
  by (simp_all add: after_vote_def broadcastApproval_vote node_publish_sent)

text \<open>A new block: the node's accounts stay, and its vote is the only message.\<close>

lemma receive_votes:
  assumes "acceptable e n b" and "go_get (n_approvalBuffer n) (blk_Hash b) = None"
  shows "n_state (processReceivedBlock e n b) = n_state n" "n_vr (processReceivedBlock e n b) = n_vr n"
    "ApprovalTopic \<in> set (p2p_topics (n_p2p n)) \<Longrightarrow> \<forall>d. lp_publish (e_lp e) ApprovalTopic d \<Longrightarrow>
      p2p_sent (n_p2p (processReceivedBlock e n b)) = p2p_sent (n_p2p n) @ [(ApprovalTopic, vote_data (vote_of e n b))]"
proof -
  let ?h = "blk_Hash b" and ?fresh = "NewBlockApproval b (n_committee n)" and ?sig = "ecdsa_sign (e_cr e) (n_privKey n) (blk_Hash b)"
  have "go_get (n_pendingBlocks n) ?h = None" "\<not> HasBlock (e_st e) (n_bc n) ?h"
    "\<not> Height (n_bc n) + 10 < blk_Number b" "\<not> blk_Number b < Height (n_bc n)"
    using assms(1) by (simp_all add: acceptable_def not_less)
  note checks = this
  have "\<exists>ba. AddSignature ?fresh (n_address n) ?sig = (None, ba)" if "isCommitteeMember_loop (n_committee n) (n_address n)"
    using that by (simp add: AddSignature_def isCommitteeMember_def HasSignature_def NewBlockApproval_def)
  then obtain n0 ba where eq: "processReceivedBlock e n b = after_vote e n0 b ba" "n_state n0 = n_state n" "n_vr n0 = n_vr n"
    "n_p2p n0 = n_p2p n" "vote_of e n0 b = vote_of e n b"
    using checks assms(2) by (cases "isCommitteeMember_loop (n_committee n) (n_address n)") (auto simp: processReceivedBlock_def Let_def)
  show "n_state (processReceivedBlock e n b) = n_state n" "n_vr (processReceivedBlock e n b) = n_vr n"
    by (simp_all add: eq)
  show "p2p_sent (n_p2p (processReceivedBlock e n b)) = p2p_sent (n_p2p n) @ [(ApprovalTopic, vote_data (vote_of e n b))]"
    if "ApprovalTopic \<in> set (p2p_topics (n_p2p n))" "\<forall>d. lp_publish (e_lp e) ApprovalTopic d"
    using that by (simp add: eq)
qed

lemma processApproval_frame [simp]:
  "n_state (processApproval n a) = n_state n" "n_vr (processApproval n a) = n_vr n"
  by (simp_all add: processApproval_def Let_def split: option.split prod.split)

text \<open>The node after the messages with the votes \<open>votes\<close> arrived, each from some peer.\<close>

definition hear :: "'s env \<Rightarrow> 's AppNode \<Rightarrow> (Approval \<times> peerID) list \<Rightarrow> 's AppNode" where
  "hear e n votes = foldl (\<lambda>n (a, peer). handleApproval e n \<lparr>msg_Data = vote_data a, msg_ReceivedFrom = peer\<rparr>) n votes"

lemma hear_frame [simp]: "n_state (hear e n votes) = n_state n" "n_vr (hear e n votes) = n_vr n"
  unfolding hear_def by (induction votes arbitrary: n) (auto simp: split_beta)

text \<open>A list of votes for block \<open>b\<close> by the members \<open>S\<close> of a committee.\<close>

definition votes_by :: "Block \<Rightarrow> address set \<Rightarrow> (Approval \<times> peerID) list \<Rightarrow> bool" where
  "votes_by b S votes \<longleftrightarrow> (\<forall>(a, peer) \<in> set votes. app_BlockHash a = blk_Hash b) \<and> app_Address ` fst ` set votes = S"

lemma approval_as_vote: "app_BlockHash a = blk_Hash b \<Longrightarrow> a = approval_for b (\<lambda>_. app_Signature a) (app_Address a)"
  by (simp add: approval_for_def)

lemma hear_voted:
  assumes "voted n b c S" "votes_by b T votes" "T \<subseteq> committee_addrs c"
  shows "voted (hear e n votes) b c (S \<union> T) \<and> n_bc (hear e n votes) = n_bc n"
  using assms
proof (induction votes arbitrary: n S T)
  case Nil
  then show ?case by (simp add: votes_by_def hear_def)
next
  case (Cons v votes)
  obtain a peer where v: "v = (a, peer)" by fastforce
  let ?T = "app_Address ` fst ` set votes"
  have a: "app_BlockHash a = blk_Hash b" "app_Address a \<in> committee_addrs c" "votes_by b ?T votes" "T = insert (app_Address a) ?T"
    using Cons.prems(2,3) v by (auto simp: votes_by_def)
  have "voted (processApproval n a) b c (insert (app_Address a) S)" "n_bc (processApproval n a) = n_bc n"
    using voted_step [OF Cons.prems(1) a(2), of "\<lambda>_. app_Signature a"] approval_as_vote [OF a(1)] by simp_all
  with Cons.IH [OF _ a(3), of "processApproval n a" "insert (app_Address a) S"] Cons.prems(3) a(4)
  show ?case by (simp add: hear_def v)
qed

lemma voted_approved:
  assumes "voted n b c S"
  shows "2 * length c < 3 * card S \<Longrightarrow> FinalizeBlock b \<in> set (n_tasks n)"
    and "go_get (n_pendingBlocks n) (blk_Hash b) \<noteq> None"
proof -
  obtain ba where "go_get (n_pendingBlocks n) (blk_Hash b) = Some ba" "approval_ok ba" "ba_Committee ba = c" "signers ba = S"
    "IsApproved ba \<longrightarrow> FinalizeBlock b \<in> set (n_tasks n)"
    using assms approval_reach_ok by (auto simp: voted_def)
  then show "2 * length c < 3 * card S \<Longrightarrow> FinalizeBlock b \<in> set (n_tasks n)" "go_get (n_pendingBlocks n) (blk_Hash b) \<noteq> None"
    using IsApproved_iff [of ba] by auto
qed

text \<open>A vote that does not complete a quorum starts no finalization.\<close>

lemma vote_below_quorum:
  assumes "voted n b c S" "app_BlockHash a = blk_Hash b" "app_Address a \<in> committee_addrs c"
    and "\<not> 2 * length c < 3 * card (insert (app_Address a) S)"
  shows "n_tasks (processApproval n a) = n_tasks n"
proof -
  obtain ba where ba: "go_get (n_pendingBlocks n) (blk_Hash b) = Some ba" "approval_ok ba" "ba_Committee ba = c" "signers ba = S"
    using assms(1) approval_reach_ok by (auto simp: voted_def)
  obtain err ba2 where add: "AddSignature ba (app_Address a) (app_Signature a) = (err, ba2)" by fastforce
  have "signers ba2 = insert (app_Address a) S" "approval_ok ba2" "ba_Committee ba2 = c"
    using signers_Add [of ba "app_Address a" "app_Signature a"] approval_ok_Add [OF ba(2), of "app_Address a" "app_Signature a"]
      AddSignature_frame [of ba "app_Address a" "app_Signature a"] add ba(3,4) assms(3) by simp_all
  then have "\<not> IsApproved ba2" using IsApproved_iff [of ba2] assms(4) by simp
  then show ?thesis using ba(1) assms(2) add by (auto simp: processApproval_def Let_def split: option.split)
qed

lemma hear_below_quorum:
  assumes "voted n b c S" "votes_by b T votes" "T \<subseteq> committee_addrs c" "finite S" "\<not> 2 * length c < 3 * card (S \<union> T)"
  shows "n_tasks (hear e n votes) = n_tasks n"
  using assms
proof (induction votes arbitrary: n S T)
  case (Cons v votes)
  obtain a peer where v: "v = (a, peer)" by fastforce
  let ?T = "app_Address ` fst ` set votes" and ?S = "insert (app_Address a) S"
  have a: "app_BlockHash a = blk_Hash b" "app_Address a \<in> committee_addrs c" "votes_by b ?T votes" "T = insert (app_Address a) ?T"
    using Cons.prems(2,3) v by (auto simp: votes_by_def)
  have voted: "voted (processApproval n a) b c ?S"
    using voted_step [OF Cons.prems(1) a(2), of "\<lambda>_. app_Signature a"] approval_as_vote [OF a(1)] by simp
  have "?S \<subseteq> S \<union> T" "finite (S \<union> T)" using a(4) Cons.prems(4) by auto
  then have "card ?S \<le> card (S \<union> T)" by (intro card_mono)
  then have "n_tasks (processApproval n a) = n_tasks n"
    using vote_below_quorum [OF Cons.prems(1) a(1,2)] Cons.prems(5) by linarith
  moreover have "?S \<union> ?T = S \<union> T" using a(4) by auto
  then have "n_tasks (hear e (processApproval n a) votes) = n_tasks (processApproval n a)"
    using Cons.IH [OF voted a(3)] Cons.prems(3-5) a(4) by simp
  ultimately show ?case by (simp add: hear_def v)
qed (simp add: hear_def)

section \<open>What the proposer does\<close>

lemma start_round_frame [simp]:
  "n_state (start_round e n rnd) = n_state n" "n_vr (start_round e n rnd) = n_vr n" "n_p2p (start_round e n rnd) = n_p2p n"
  "n_privKey (start_round e n rnd) = n_privKey n" "n_txPool (start_round e n rnd) = n_txPool n"
  by (simp_all add: start_round_def ForceCommitteeAndProposer_def UpdateRound_def Let_def split: sum.split)

lemma Block_Encode_inject [simp]: "Block_Encode a = Block_Encode b \<longleftrightarrow> a = b"
  by (metis Block_Decode_Encode sum.inject(2))

text \<open>A block that a tick published was added and applied before.\<close>

lemma published_block:
  assumes "p2p_sent (n_p2p (producer_tick e p rnd)) = p2p_sent (n_p2p p) @ [(BlockTopic, Block_Encode b)]"
  obtains bc s vr where "AddBlock (e_st e) (n_bc p) b = (None, bc)"
    "ApplyBlockWithRegistry (e_cr e) (e_st e) b (n_state p) (n_vr p) = (None, s, vr)"
    "n_bc (producer_tick e p rnd) = bc" "n_state (producer_tick e p rnd) = s" "n_vr (producer_tick e p rnd) = vr"
    "n_pendingBlocks (producer_tick e p rnd) = n_pendingBlocks p"
proof -
  define n4 where "n4 = start_round e p rnd"
  have n4: "n_state n4 = n_state p" "n_vr n4 = n_vr p" "n_p2p n4 = n_p2p p" "n_bc n4 = n_bc p" "n_pendingBlocks n4 = n_pendingBlocks p"
    by (simp_all add: n4_def core_bc [OF core_start_round] core_pending [OF core_start_round])
  have "producer_tick e p rnd = n4 \<or> (\<exists>v. producer_tick e p rnd = propose_block e n4 v)"
    by (auto simp: producer_tick_def Let_def n4_def split: option.split)
  then obtain v where v: "producer_tick e p rnd = propose_block e n4 v" using assms n4(3) by auto
  show thesis
    by (rule that) (use assms in \<open>auto simp: v n4 propose_block_def Let_def node_publish_sent split: sum.splits prod.splits option.splits if_splits\<close>)
qed

lemma find_block_some: "i \<in> set is \<Longrightarrow> get i = Inr b \<Longrightarrow> \<exists>b'. find_block get (blk_Hash b) is = Inr b'"
  by (induction "is") (auto split: sum.split)

lemma proposer_has_block:
  assumes "reliable_store (e_st e) I" "node_ok I e p" "blk_Number b \<noteq> 0"
    and "p2p_sent (n_p2p (producer_tick e p rnd)) = p2p_sent (n_p2p p) @ [(BlockTopic, Block_Encode b)]"
  shows "HasBlock (e_st e) (n_bc (producer_tick e p rnd)) (blk_Hash b)"
proof -
  obtain bc where bc: "AddBlock (e_st e) (n_bc p) b = (None, bc)" "n_bc (producer_tick e p rnd) = bc"
    by (rule published_block [OF assms(4)])
  have "I (bc_store (n_bc p))" using assms(2) by (simp add: node_ok_def)
  then obtain s where s: "AddBlock (e_st e) (n_bc p) b = (None, (n_bc p)\<lparr>bc_store := s, bc_tip := blk_Hash b,
      bc_height := blk_Number b, bc_currentHeight := blk_Number b\<rparr>)"
    "store_view (e_st e) s = (store_view (e_st e) (bc_store (n_bc p)))(blockKey (blk_Number b) \<mapsto> Block_Encode b,
       tipKey \<mapsto> hash_bytes (blk_Hash b), heightKey \<mapsto> marshal_u64 (blk_Number b))"
    by (rule reliable_store.AddBlock_ok [OF assms(1)])
  let ?k = "blk_Number b"
  have "store_view (e_st e) (bc_store bc) (blockKey ?k) = Some (Block_Encode b)" "bc_currentHeight bc = ?k"
    using s bc(1) by auto
  then have get: "GetBlockByHeight (e_st e) bc ?k = Inr b"
    using assms(3) by (auto simp: GetBlockByHeight_def store_view_def split: sum.splits)
  have "?k \<in> set (heights bc)"
    using \<open>bc_currentHeight bc = ?k\<close> by (auto simp: heights_def intro!: image_eqI [of _ _ "unat ?k"])
  then have "\<exists>b'. find_block (GetBlockByHeight (e_st e) bc) (blk_Hash b) (heights bc) = Inr b'"
    using get by (rule find_block_some)
  then show ?thesis by (auto simp: HasBlock_def GetBlockByHash_def bc(2))
qed

text \<open>
  A network of four nodes for the examples: the members 1 to 4 of \<open>demo_committee\<close>, of which 1 proposes the
  block after the genesis block.
\<close>

definition round_crypto :: crypto where
  "round_crypto = demo_crypto\<lparr>sha3_256 := \<lambda>_. 5\<rparr>"

definition round_env :: "MemoryStore env" where
  "round_env = demo_env\<lparr>e_cr := round_crypto\<rparr>"

definition round_node :: "string \<Rightarrow> address \<Rightarrow> Validator list \<Rightarrow> MemoryStore AppNode" where
  "round_node topic a c = (demo_node [topic] ''peer'' [])\<lparr>n_address := a, n_state := NewState, n_committee := c\<rparr>"

lemma round_env_simps [simp]:
  "e_cr round_env = round_crypto" "e_st round_env = MemoryStore_ops" "e_lp round_env = demo_libp2p"
  "e_perm round_env k = [0..<k]" "now64 round_env = 7"
  by (simp_all add: round_env_def now64_def)

lemma round_node_simps [simp]:
  "n_bc (round_node t a c) = demo_chain" "n_state (round_node t a c) = NewState" "n_address (round_node t a c) = a"
  "n_committee (round_node t a c) = c" "n_pendingBlocks (round_node t a c) = []" "n_approvalBuffer (round_node t a c) = []"
  "n_vr (round_node t a c) = demo_registry demo_committee" "p2p_topics (n_p2p (round_node t a c)) = [t]"
  "p2p_sent (n_p2p (round_node t a c)) = []" "n_txPool (round_node t a c) = NewTransactionPool"
  "n_proposerSelector (round_node t a c) = None"
  by (simp_all add: round_node_def demo_node_def)

lemma round_node_ok: "node_ok MemoryStore_wf round_env (round_node t a c)"
  using demo_store_ok demo_registry_facts(1)
  by (simp add: node_ok_def bar_ok_New pool_ok_New state_ok_New) (simp add: round_node_def demo_node_def bar_ok_New)

lemma round_election: "SelectCommittee MemoryStore_ops (demo_registry demo_committee) CommitteeSize = Inr demo_committee"
proof -
  let ?vr = "demo_registry demo_committee"
  obtain vs where vs: "GetAllValidators MemoryStore_ops ?vr = Inr vs" "distinct (map val_Address vs)"
    "set vs = ran (reg_view MemoryStore_ops ?vr)"
    by (rule memory_store.GetAllValidators_ok [OF demo_registry_facts(1)])
  have "reg_view MemoryStore_ops ?vr =
      [1 \<mapsto> demo_validator 1 10, 2 \<mapsto> demo_validator 2 10, 3 \<mapsto> demo_validator 3 10, 4 \<mapsto> demo_validator 4 10]"
    by (simp add: demo_registry_facts(2) demo_committee_def fun_eq_iff)
  then have "set vs = set demo_committee" using vs(3) by (auto simp: demo_committee_def)
  moreover have "distinct vs" "distinct demo_committee" using vs(2) by (simp_all add: distinct_map demo_committee_def)
  ultimately have "mset vs = mset demo_committee" by (simp add: set_eq_iff_mset_eq_distinct)
  then have "SelectCommittee MemoryStore_ops ?vr CommitteeSize = Inr (select_members demo_committee CommitteeSize)"
    using select_members_perm [OF _ vs(2)] by (simp add: SelectCommittee_members vs(1))
  also have "select_members demo_committee CommitteeSize = demo_committee" by code_simp
  finally show ?thesis .
qed

lemma round_CreateBlock:
  obtains b where "CreateBlock round_crypto MemoryStore_ops 7 demo_chain [] (demo_validator 1 10) = Inr b"
    "blk_Number b = 1" "blk_Hash b = 5"
proof -
  have hash: "ComputeHash round_crypto h = 5" for h by (simp add: ComputeHash_def round_crypto_def)
  have size: "length (Block_Encode (NewBlock \<lparr>hdr_BlockNumber = 1, hdr_PreviousHash = 126, hdr_Timestamp = 7,
      hdr_Proposer = 1, hdr_Gas = 0, hdr_TransactionRoot = 0, hdr_Hash = 5\<rparr> [])) < 2000"
    by code_simp
  obtain p where p: "GetLastBlock MemoryStore_ops demo_chain = Inr p" "blk_Number p = 0" "blk_Hash p = 126"
    by (rule demo_last)
  then show ?thesis
    using block_size_ok [OF size] that by (simp add: CreateBlock_def Let_def hash computeTransactionRoot_def) (simp add: NewBlock_def)
qed

lemma round_published:
  obtains b where "p2p_sent (n_p2p (producer_tick round_env (round_node BlockTopic 1 c) 1)) = [(BlockTopic, Block_Encode b)]"
    "blk_Number b = 1" "blk_Hash b = 5"
proof -
  let ?p = "round_node BlockTopic 1 c" and ?v = "demo_validator 1 10"
  define ps where "ps = NewProposerSelectorWithRotation (e_perm round_env) demo_committee 0 EpochLength"
  define n4 where "n4 = start_round round_env ?p 1"
  have height: "Height demo_chain = 0" by (rule demo_chain_facts(4))
  have n4: "n_proposerSelector n4 = Some ps" "n_committee n4 = demo_committee" "n_bc n4 = demo_chain"
    by (simp_all add: n4_def start_round_def UpdateRound_def ForceCommitteeAndProposer_def need_re_election_def Let_def height
        round_election ps_def) (simp_all add: demo_committee_def)
  have "unat EpochLength = 270" by (simp add: EpochLength_def)
  then have turn: "ProposerForBlock ps 1 = Some ?v"
    unfolding ps_def by (subst rotation_slots) (simp_all add: demo_committee_def rotation_def)
  have tick: "producer_tick round_env ?p 1 = propose_block round_env n4 ?v"
    using n4 turn height by (simp add: producer_tick_def Let_def n4_def [symmetric]) (simp add: n4_def demo_committee_def)
  obtain b0 where b0: "CreateBlock round_crypto MemoryStore_ops 7 demo_chain [] ?v = Inr b0" "blk_Number b0 = 1" "blk_Hash b0 = 5"
    by (rule round_CreateBlock)
  let ?b = "Block_Sign round_crypto b0 (n_privKey n4)"
  have sign: "blk_Number ?b = 1" "blk_Hash ?b = 5" "blk_Transactions ?b = []"
    using b0 by (auto simp: Block_Sign_def ComputeHash_def round_crypto_def CreateBlock_def NewBlock_def Let_def split: sum.splits if_splits)
  obtain bc where add: "AddBlock MemoryStore_ops demo_chain ?b = (None, bc)" by (rule memory_AddBlock [OF demo_store_ok])
  have batch: "tb_Transactions (CreateOptimizedBatch now now' NewTransactionPool s) = []" for now now' s
    by (simp add: CreateOptimizedBatch_def prioritized_def NewTransactionPool_def sort_slice_def)
  have pool: "n_txPool n4 = NewTransactionPool" "n_p2p n4 = n_p2p ?p" by (simp_all add: n4_def)
  have "p2p_sent (n_p2p (producer_tick round_env ?p 1)) = [(BlockTopic, Block_Encode ?b)]"
    using b0(1) add sign(3) unfolding tick
    by (simp add: propose_block_def Let_def pool n4 batch ApplyBlockWithRegistry_def node_publish_sent) (simp add: demo_libp2p_def)
  then show thesis using that sign by blast
qed

lemma round_acceptable: "blk_Number b = 1 \<Longrightarrow> blk_Hash b = 5 \<Longrightarrow> acceptable round_env (round_node t a c) b"
  using demo_HasBlock [of 5] demo_chain_facts(4) by (simp add: acceptable_def)

definition round_votes :: "Block \<Rightarrow> address list \<Rightarrow> (Approval \<times> peerID) list" where
  "round_votes b as = map (\<lambda>a. (approval_for b (\<lambda>_. ''sig'') a, ''other'')) as"

lemma round_votes_by: "votes_by b (set as) (round_votes b as)"
  by (auto simp: votes_by_def round_votes_def approval_for_def image_image)

section \<open>Properties\<close>

lemma received_voted:
  assumes "acceptable e m b" "go_get (n_approvalBuffer m) (blk_Hash b) = None"
  shows "voted (processReceivedBlock e m b) b (n_committee m) ({n_address m} \<inter> committee_addrs (n_committee m))"
  by (rule receive_fresh_block [OF assms]) (auto simp: voted_def)

lemma handle_proposal [simp]:
  "handleBlockProposal e m \<lparr>msg_Data = Block_Encode b, msg_ReceivedFrom = peer\<rparr> = Some (processReceivedBlock e m b)"
  by (simp add: handleBlockProposal_def Block_Encode_def parse_print_json)

text \<open>
  C4: An honest round ends in agreement.  A tick of the proposer publishes block \<open>b\<close>; a follower with
  the same accounts and validators that does not know \<open>b\<close> yet receives it and publishes its own vote and
  nothing else; then the votes of the members \<open>T\<close> of its committee arrive, in any order, with repetitions, from any
  peers.  If these votes and its own are more than two thirds of the committee, the follower starts
  the finalization of \<open>b\<close>, after which its height, its tip, every account and every validator are
  those of the proposer.
\<close>

theorem honest_round_agrees:
  assumes "reliable_store (e_st e) I" and "e_cr e' = e_cr e" "e_st e' = e_st e"
    and "node_ok I e p" "node_ok I e m"
    and "acct (n_state m) = acct (n_state p)" "reg_view (e_st e) (n_vr m) = reg_view (e_st e) (n_vr p)"
    and "p' = producer_tick e p rnd" "p2p_sent (n_p2p p') = p2p_sent (n_p2p p) @ [(BlockTopic, Block_Encode b)]"
    and "acceptable e' m b" "go_get (n_approvalBuffer m) (blk_Hash b) = None"
    and "n_address m \<in> committee_addrs (n_committee m)"
    and "ApprovalTopic \<in> set (p2p_topics (n_p2p m))" "\<forall>d. lp_publish (e_lp e') ApprovalTopic d"
    and "votes_by b T votes" "T \<subseteq> committee_addrs (n_committee m)"
    and "2 * length (n_committee m) < 3 * card (insert (n_address m) T)"
  shows "\<exists>m1 m2. handleBlockProposal e' m \<lparr>msg_Data = Block_Encode b, msg_ReceivedFrom = peer\<rparr> = Some m1 \<and>
    p2p_sent (n_p2p m1) = p2p_sent (n_p2p m) @ [(ApprovalTopic, vote_data (vote_of e' m b))] \<and>
    FinalizeBlock b \<in> set (n_tasks (hear e' m1 votes)) \<and> finalizeApprovedBlock e' (hear e' m1 votes) b = m2 \<and>
    Height (n_bc m2) = Height (n_bc p') \<and> bc_tip (n_bc m2) = bc_tip (n_bc p') \<and>
    acct (n_state m2) = acct (n_state p') \<and> reg_view (e_st e) (n_vr m2) = reg_view (e_st e) (n_vr p')"
proof -
  let ?m1 = "processReceivedBlock e' m b"
  let ?m = "hear e' ?m1 votes"
  note m1 = receive_votes [OF assms(10,11)]
  have "voted ?m1 b (n_committee m) {n_address m}" using received_voted [OF assms(10,11)] assms(12) by simp
  then have v: "voted ?m b (n_committee m) (insert (n_address m) T)" "n_bc ?m = n_bc ?m1"
    using hear_voted [OF _ assms(15,16), of ?m1 "{n_address m}" e'] by simp_all
  obtain bc s vr where p: "AddBlock (e_st e) (n_bc p) b = (None, bc)"
    "ApplyBlockWithRegistry (e_cr e) (e_st e) b (n_state p) (n_vr p) = (None, s, vr)"
    "n_bc p' = bc" "n_state p' = s" "n_vr p' = vr"
    using published_block [of e p rnd b] assms(8,9) by metis
  have ok: "state_ok (e_cr e) (n_state p)" "state_ok (e_cr e) (n_state m)" "reg_ok (e_st e) I (n_vr p)"
    "reg_ok (e_st e) I (n_vr m)" "I (bc_store (n_bc p))" "I (bc_store (n_bc m))"
    using assms(4,5) by (simp_all add: node_ok_def)
  obtain s2 vr2 where run: "ApplyBlockWithRegistry (e_cr e) (e_st e) b (n_state m) (n_vr m) = (None, s2, vr2)"
    "acct s2 = acct s" "reg_view (e_st e) vr2 = reg_view (e_st e) vr"
    using reliable_store.apply_agrees [OF assms(1) ok(1,2) assms(6) ok(3,4) assms(7) p(2) [unfolded ApplyBlockWithRegistry_def]]
    by (auto simp: ApplyBlockWithRegistry_def)
  obtain t where "AddBlock (e_st e) (n_bc p) b = (None, (n_bc p)\<lparr>bc_store := t, bc_tip := blk_Hash b,
      bc_height := blk_Number b, bc_currentHeight := blk_Number b\<rparr>)"
    by (rule reliable_store.AddBlock_ok [OF assms(1) ok(5)])
  then have top: "Height bc = blk_Number b" "bc_tip bc = blk_Hash b" using p(1) by (auto simp: Height_def)
  obtain t2 where add: "AddBlock (e_st e) (n_bc m) b = (None, (n_bc m)\<lparr>bc_store := t2, bc_tip := blk_Hash b,
      bc_height := blk_Number b, bc_currentHeight := blk_Number b\<rparr>)"
    by (rule reliable_store.AddBlock_ok [OF assms(1) ok(6)])
  have bc: "n_bc ?m = n_bc m" using v(2) receive_fresh_block [OF assms(10,11)] by metis
  have "FinalizeBlock b \<in> set (n_tasks ?m)" using voted_approved(1) [OF v(1) assms(17)] .
  moreover have "p2p_sent (n_p2p ?m1) = p2p_sent (n_p2p m) @ [(ApprovalTopic, vote_data (vote_of e' m b))]"
    by (rule m1(3) [OF assms(13,14)])
  moreover have "n_state (finalizeApprovedBlock e' ?m b) = s2 \<and> n_vr (finalizeApprovedBlock e' ?m b) = vr2 \<and>
      Height (n_bc (finalizeApprovedBlock e' ?m b)) = blk_Number b \<and> bc_tip (n_bc (finalizeApprovedBlock e' ?m b)) = blk_Hash b"
    using voted_approved(2) [OF v(1)] add run(1) assms(2,3) m1(1,2) bc
    by (auto simp: finalizeApprovedBlock_def Let_def Height_def)
  ultimately show ?thesis using p(3-5) top run(2,3) by simp
qed

theorem honest_round_agrees_witness:
  "\<exists>b m2. p2p_sent (n_p2p (producer_tick round_env (round_node BlockTopic 1 demo_committee) 1)) = [(BlockTopic, Block_Encode b)] \<and>
     finalizeApprovedBlock round_env (hear round_env (processReceivedBlock round_env (round_node ApprovalTopic 2 demo_committee) b)
       (round_votes b [3, 4])) b = m2 \<and> bc_tip (n_bc m2) = bc_tip (n_bc (producer_tick round_env (round_node BlockTopic 1 demo_committee) 1))"
proof -
  let ?p = "round_node BlockTopic 1 demo_committee" and ?m = "round_node ApprovalTopic 2 demo_committee"
  obtain b where b: "p2p_sent (n_p2p (producer_tick round_env ?p 1)) = [(BlockTopic, Block_Encode b)]" "blk_Number b = 1" "blk_Hash b = 5"
    by (rule round_published)
  have r: "reliable_store (e_st round_env) MemoryStore_wf" using memory_store.reliable_store_axioms by simp
  have sent: "p2p_sent (n_p2p (producer_tick round_env ?p 1)) = p2p_sent (n_p2p ?p) @ [(BlockTopic, Block_Encode b)]" using b(1) by simp
  have "\<exists>m1 m2. handleBlockProposal round_env ?m \<lparr>msg_Data = Block_Encode b, msg_ReceivedFrom = ''p''\<rparr> = Some m1 \<and>
      finalizeApprovedBlock round_env (hear round_env m1 (round_votes b [3, 4])) b = m2 \<and>
      bc_tip (n_bc m2) = bc_tip (n_bc (producer_tick round_env ?p 1))"
    using honest_round_agrees [OF r refl refl round_node_ok round_node_ok _ _ refl sent round_acceptable [OF b(2,3)] _ _ _ _ round_votes_by,
        of ApprovalTopic 2 demo_committee "[3, 4]" "''p''"]
    by (auto simp: demo_committee_def demo_libp2p_def)
  then show ?thesis using b(1) by auto
qed

text \<open>
  C11: Two or three validators never finalize a block together.  The proposer of a block adds it to its own chain and
  publishes it, but no approval; when its own proposal comes back it ignores it, since it has the block.  In
  a committee of at most three, the other members are not more than two thirds: a follower that
  has received the block and every approval of members other than the proposer starts no finalization, and
  the goroutine that waits for the approval finds none until it gives the block up.
\<close>

theorem small_committee_stalls:
  assumes "reliable_store (e_st e) I" and "node_ok I e p" and "blk_Number b \<noteq> 0"
    and "p' = producer_tick e p rnd" "p2p_sent (n_p2p p') = p2p_sent (n_p2p p) @ [(BlockTopic, Block_Encode b)]"
    and "acceptable e' m b" "go_get (n_approvalBuffer m) (blk_Hash b) = None"
    and "length (n_committee m) \<le> 3" "n_address p \<in> committee_addrs (n_committee m)" "n_address m \<noteq> n_address p"
    and "votes_by b T votes" "T \<subseteq> committee_addrs (n_committee m) - {n_address p}"
  shows "handleBlockProposal e p' \<lparr>msg_Data = Block_Encode b, msg_ReceivedFrom = peer\<rparr> = Some p' \<and>
    n_tasks (hear e' (processReceivedBlock e' m b) votes) = n_tasks m @ [WatchApproval b] \<and>
    watch_tick (hear e' (processReceivedBlock e' m b) votes) b = (True, hear e' (processReceivedBlock e' m b) votes) \<and>
    n_bc (hear e' (processReceivedBlock e' m b) votes) = n_bc m"
proof -
  let ?c = "n_committee m" and ?n = "processReceivedBlock e' m b" and ?q = "n_address p"
  let ?S = "{n_address m} \<inter> committee_addrs ?c"
  have has: "HasBlock (e_st e) (n_bc p') (blk_Hash b)"
    using proposer_has_block [OF assms(1-3), of rnd] assms(4,5) by simp
  have v: "voted ?n b ?c ?S" by (rule received_voted [OF assms(6,7)])
  have few: "\<not> 2 * length ?c < 3 * card X" if "X \<subseteq> ?S \<union> T" for X
  proof -
    have "card X \<le> card (committee_addrs ?c - {?q})"
      by (rule card_mono) (use that assms(10,12) in auto)
    also have "\<dots> < card (committee_addrs ?c)" using assms(9) by (intro psubset_card_mono) auto
    also have "\<dots> \<le> length ?c" using card_length [of "map val_Address ?c"] by simp
    finally show ?thesis using assms(8) by linarith
  qed
  have T: "T \<subseteq> committee_addrs ?c" using assms(12) by blast
  have all: "voted (hear e' ?n votes) b ?c (?S \<union> T)" "n_bc (hear e' ?n votes) = n_bc ?n"
    using hear_voted [OF v assms(11) T] by auto
  have quiet: "n_tasks (hear e' ?n votes) = n_tasks ?n"
    by (rule hear_below_quorum [OF v assms(11) T]) (simp_all add: few)
  obtain ba where ba: "approval_reach b ?c ba" "signers ba = ?S"
    "n_tasks ?n = n_tasks m @ [WatchApproval b] @ (if IsApproved ba then [FinalizeBlock b] else [])" "n_bc ?n = n_bc m"
    by (rule receive_fresh_block [OF assms(6,7)])
  have "\<not> IsApproved ba" using IsApproved_iff [of ba] approval_reach_ok [OF ba(1)] ba(2) few [of ?S] by simp
  moreover have "watch_tick (hear e' ?n votes) b = (True, hear e' ?n votes)"
    using all(1) approval_reach_ok IsApproved_iff few [of "?S \<union> T"] by (fastforce simp: voted_def watch_tick_def)
  moreover have "processReceivedBlock e p' b = p'" using has by (simp add: processReceivedBlock_def Let_def)
  ultimately show ?thesis using quiet ba(3,4) all(2) by simp
qed

theorem small_committee_stalls_witness:
  "\<exists>b. p2p_sent (n_p2p (producer_tick round_env (round_node BlockTopic 1 []) 1)) = [(BlockTopic, Block_Encode b)] \<and>
     FinalizeBlock b \<notin> set (n_tasks (hear round_env
       (processReceivedBlock round_env (round_node ApprovalTopic 2 (take 3 demo_committee)) b) (round_votes b [2, 3])))"
proof -
  let ?p = "round_node BlockTopic 1 []" and ?m = "round_node ApprovalTopic 2 (take 3 demo_committee)"
  obtain b where b: "p2p_sent (n_p2p (producer_tick round_env ?p 1)) = [(BlockTopic, Block_Encode b)]" "blk_Number b = 1" "blk_Hash b = 5"
    by (rule round_published)
  have r: "reliable_store (e_st round_env) MemoryStore_wf" using memory_store.reliable_store_axioms by simp
  have sent: "p2p_sent (n_p2p (producer_tick round_env ?p 1)) = p2p_sent (n_p2p ?p) @ [(BlockTopic, Block_Encode b)]" using b(1) by simp
  have "blk_Number b \<noteq> 0" using b(2) by simp
  then have "n_tasks (hear round_env (processReceivedBlock round_env ?m b) (round_votes b [2, 3])) = n_tasks ?m @ [WatchApproval b]"
    using small_committee_stalls [OF r round_node_ok _ refl sent round_acceptable [OF b(2,3)] _ _ _ _ round_votes_by,
        of ApprovalTopic 2 "take 3 demo_committee" "[2, 3]"]
    by (simp add: demo_committee_def)
  then show ?thesis using b(1) by (intro exI [of _ b]) (simp add: round_node_def demo_node_def)
qed

end
