(* ===== verification/Node_Services.thy ===== *)
theory Node_Services
  imports Node_Invariant
begin

text \<open>
  What the services of a node do for other nodes: block synchronization, the registration of
  validators and the replacement of an inactive committee member.
\<close>

section \<open>Block synchronization\<close>

lemma json_request_id [simp]: "json_request (request_json r) = Some r"
  by (simp add: json_request_def request_json_def field_def lower_def)

lemma json_response_id [simp]:
  "json_response (response_json b a) = Some \<lparr>bresp_Block = WireBlock b, bresp_From = a\<rparr>"
  by (simp add: json_response_def response_json_def field_def lower_def block_json_def)
    (simp flip: block_json_def)

abbreviation block_request :: "address \<Rightarrow> u64 \<Rightarrow> bytes" where
  "block_request a h \<equiv> print_json (request_json \<lparr>breq_Height = h, breq_From = a\<rparr>)"

lemma sync_loop_sent:
  assumes "BlockRequestTopic \<in> set (p2p_topics (n_p2p n))" "\<forall>d. lp_publish (e_lp e) BlockRequestTopic d"
    and "\<forall>h \<in> set hs. Height (n_bc n) < h"
  shows "p2p_sent (n_p2p (foldl (\<lambda>n h. case GetBlockByHeight (e_st e) (n_bc n) h of
             Inl _ \<Rightarrow> RequestBlock e n h | Inr _ \<Rightarrow> n) n hs)) =
    p2p_sent (n_p2p n) @ map (\<lambda>h. (BlockRequestTopic, block_request (n_address n) h)) hs"
  using assms
proof (induction hs arbitrary: n)
  case (Cons h hs)
  have "GetBlockByHeight (e_st e) (n_bc n) h = Inl (ErrHeightTooHigh h (bc_currentHeight (n_bc n)))"
    using Cons.prems(3) by (simp add: GetBlockByHeight_def Height_def)
  then show ?case
    using Cons.IH [of "RequestBlock e n h"] Cons.prems by (simp add: RequestBlock_def node_publish_sent)
qed simp

text \<open>
  C20: Block synchronization.  A synchronizing node asks for exactly the three heights above its own; a
  node that has such a block answers with it; and the answer makes the asking node
  process that block as if it had been proposed to it.
\<close>

theorem block_sync_transfers:
  assumes "BlockRequestTopic \<in> set (p2p_topics (n_p2p n))" "\<forall>d. lp_publish (e_lp e) BlockRequestTopic d"
    and "unat (Height (n_bc n)) + 3 < 2 ^ 64"
    and "BlockResponseTopic \<in> set (p2p_topics (n_p2p m))" "\<forall>d. lp_publish (e_lp e') BlockResponseTopic d"
    and "GetBlockByHeight (e_st e') (n_bc m) h = Inr b" and "n_address m \<noteq> n_address n"
  shows "p2p_sent (n_p2p (performBlockSync e n)) = p2p_sent (n_p2p n) @
      map (\<lambda>k. (BlockRequestTopic, block_request (n_address n) (Height (n_bc n) + k))) [1, 2, 3] \<and>
    (\<exists>answer. p2p_sent (n_p2p (handleBlockRequest e' m \<lparr>msg_Data = block_request (n_address n) h, msg_ReceivedFrom = from\<rparr>)) =
        p2p_sent (n_p2p m) @ [(BlockResponseTopic, answer)] \<and>
      handleBlockResponse e n \<lparr>msg_Data = answer, msg_ReceivedFrom = from'\<rparr> = Some (processReceivedBlock e n b))"
proof
  let ?h = "Height (n_bc n)"
  have "unat (?h + k) = unat ?h + unat k" if "unat k \<le> 3" for k
    using that assms(3) by (simp add: unat_word_ariths)
  from this [of 1] this [of 2] this [of 3]
  have lt: "?h < ?h + 1" "?h < ?h + 2" "?h < ?h + 3" "?h + 1 \<le> ?h + 3"
    by (simp_all add: word_less_nat_alt word_le_nat_alt)
  then show "p2p_sent (n_p2p (performBlockSync e n)) = p2p_sent (n_p2p n) @
      map (\<lambda>k. (BlockRequestTopic, block_request (n_address n) (?h + k))) [1, 2, 3]"
    using sync_loop_sent [OF assms(1,2), of "[?h + 1, ?h + 2, ?h + 3]"] by (simp add: performBlockSync_def Let_def)
  have "p2p_sent (n_p2p (handleBlockRequest e' m \<lparr>msg_Data = block_request (n_address n) h, msg_ReceivedFrom = from\<rparr>)) =
      p2p_sent (n_p2p m) @ [(BlockResponseTopic, print_json (response_json b (n_address m)))]"
    using assms(4-7) by (simp add: handleBlockRequest_def parse_print_json node_publish_sent)
  moreover have "handleBlockResponse e n \<lparr>msg_Data = print_json (response_json b (n_address m)), msg_ReceivedFrom = from'\<rparr> =
      Some (processReceivedBlock e n b)"
    using assms(7) by (simp add: handleBlockResponse_def parse_print_json)
  ultimately show "\<exists>answer. p2p_sent (n_p2p (handleBlockRequest e' m
        \<lparr>msg_Data = block_request (n_address n) h, msg_ReceivedFrom = from\<rparr>)) = p2p_sent (n_p2p m) @ [(BlockResponseTopic, answer)] \<and>
      handleBlockResponse e n \<lparr>msg_Data = answer, msg_ReceivedFrom = from'\<rparr> = Some (processReceivedBlock e n b)"
    by blast
qed

theorem block_sync_transfers_witness:
  "length (p2p_sent (n_p2p (performBlockSync demo_env (demo_node [BlockRequestTopic] ''me'' [])))) = 3"
proof -
  let ?n = "demo_node [BlockRequestTopic] ''me'' []" and ?m = "(demo_node [BlockResponseTopic] ''you'' [])\<lparr>n_address := 2\<rparr>"
  have "GetBlockByHeight (e_st demo_env) (n_bc ?m) 0 = Inr (bc_genesisBlock demo_chain)"
    by (simp add: demo_node_def GetBlockByHeight_def)
  from block_sync_transfers [of ?n demo_env ?m demo_env 0, OF _ _ _ _ _ this] show ?thesis
    using demo_chain_facts(4) by (simp add: demo_node_def demo_libp2p_def)
qed

section \<open>Validator registration\<close>

lemma json_registration_id [simp]: "json_registration (registration_json r) = Some r"
  by (simp add: json_registration_def registration_json_def field_def lower_def)

text \<open>
  C21: Registrations create money.  A registration message is not signed; whoever sends it chooses the address and
  the stake.  A node that receives one registers the address with that stake,
  without taking it from any account, and when the account is empty it is given 1000: the sum of all balances grows by 1000.
\<close>

theorem registration_message_mints:
  assumes "reliable_store (e_st e) I" "node_ok I e n" and "acc_Balance (acct (n_state n) a) = 0"
  shows "\<exists>n'. handleValidatorRegistration e n
      \<lparr>msg_Data = print_json (registration_json \<lparr>vreg_Address = a, vreg_Stake = stake\<rparr>), msg_ReceivedFrom = from\<rparr> = Some n' \<and>
    total_supply (n_state n') = total_supply (n_state n) + 1000 \<and> acc_Balance (acct (n_state n') a) = 1000 \<and>
    GetValidator (e_st e) (n_vr n') a = Inr (Some (new_validator a stake))"
proof -
  let ?v = "new_validator a stake"
  obtain vr where vr: "RegisterValidator (e_st e) (n_vr n) (Some ?v) = (None, vr)" "reg_ok (e_st e) I vr"
    "reg_view (e_st e) vr = (reg_view (e_st e) (n_vr n))(val_Address ?v \<mapsto> ?v)"
    by (rule reliable_store.RegisterValidator_ok [OF assms(1) node_okD(4) [OF assms(2)]])
  let ?n1 = "ForceCommitteeAndProposer e (n\<lparr>n_vr := vr\<rparr>)"
  have ok: "node_ok I e ?n1" using assms(2) vr(2) by (simp add: node_ok_vr)
  have same: "n_state ?n1 = n_state n" "n_vr ?n1 = vr"
    by (simp_all add: ForceCommitteeAndProposer_def Let_def split: sum.split)
  obtain n' where n': "fund_account e ?n1 a = Some n'" "n_vr n' = vr"
    "n_state n' = PutAccount (e_cr e) (n_state n) ((acct (n_state n) a)\<lparr>acc_Balance := 1000\<rparr>)"
    using fund_account_ok [OF ok, of a] assms(3) same by metis
  have addr: "acc_Address (acct (n_state n) a) = a" by (rule GetAccount_ok(2) [OF node_okD(3) [OF assms(2)]])
  have "handleValidatorRegistration e n
      \<lparr>msg_Data = print_json (registration_json \<lparr>vreg_Address = a, vreg_Stake = stake\<rparr>), msg_ReceivedFrom = from\<rparr> = Some n'"
    using n'(1) vr(1) by (simp add: handleValidatorRegistration_def parse_print_json)
  moreover have "total_supply (n_state n') = total_supply (n_state n) + 1000"
    using total_supply_Put [OF node_okD(3) [OF assms(2)], of "(acct (n_state n) a)\<lparr>acc_Balance := 1000\<rparr>"] n'(3) addr assms(3)
    by simp
  moreover have "GetValidator (e_st e) (n_vr n') a = Inr (Some ?v)"
    using reliable_store.GetValidator_view [OF assms(1) vr(2)] vr(3) n'(2) by (simp add: new_validator_def)
  ultimately show ?thesis using n'(3) addr by simp
qed

lemma demo_node_ok: "node_ok MemoryStore_wf demo_env (demo_node ts p seed)"
  using demo_registry_facts(1) demo_chain_facts(2) demo_state_ok
  by (simp add: node_ok_def demo_node_def bar_ok_New pool_ok_New chain_ok_def)

theorem registration_message_mints_witness:
  "\<exists>n'. handleValidatorRegistration demo_env (demo_node [] ''me'' [])
      \<lparr>msg_Data = print_json (registration_json \<lparr>vreg_Address = 9, vreg_Stake = 1000000\<rparr>), msg_ReceivedFrom = ''eve''\<rparr> = Some n' \<and>
    acc_Balance (acct (n_state n') 9) = 1000"
proof -
  have r: "reliable_store (e_st demo_env) MemoryStore_wf" using memory_store.reliable_store_axioms by simp
  have "acc_Balance (acct (n_state (demo_node [] ''me'' [])) 9) = 0"
    by (simp add: demo_node_def acct_demo_state new_account_def)
  from registration_message_mints [OF r demo_node_ok this, of 1000000 "''eve''"] show ?thesis by blast
qed

section \<open>Replacing an inactive member\<close>

lemma candidate_less_iff: "candidate_less v w \<longleftrightarrow> heavier v w"
  by (auto simp: candidate_less_def heavier_def weight_of_def bytes_less_address Let_def)

interpretation candidates: keyed_comparator candidate_less val_Address
  by unfold_locales (auto simp: candidate_less_iff heavier_def)

lemma first_candidate:
  assumes "distinct (map val_Address vs)" "vs \<noteq> []"
  shows "sort_slice candidate_less vs ! 0 \<in> set vs \<and>
    (\<forall>w \<in> set vs. w \<noteq> sort_slice candidate_less vs ! 0 \<longrightarrow> heavier (sort_slice candidate_less vs ! 0) w)"
proof (cases "sort_slice candidate_less vs")
  case Nil
  then show ?thesis using assms(2) by (metis length_0_conv length_sort_slice)
next
  case (Cons v ws)
  have set: "set vs = insert v (set ws)" using set_sort_slice [of candidate_less vs] Cons by simp
  have "heavier v w" if w: "w \<in> set ws" for w
  proof -
    have "\<not> heavier w v" using candidates.sorted_sort_slice [of vs] w by (simp add: Cons candidate_less_iff)
    moreover have "distinct (map val_Address (v # ws))"
      using assms(1) distinct_map_sort_slice [of val_Address candidate_less vs] Cons by simp
    then have "val_Address v \<noteq> val_Address w" using w by auto
    ultimately show ?thesis by (auto simp: heavier_def)
  qed
  then show ?thesis using set Cons by auto
qed

lemma replace_member_absent: "a \<notin> val_Address ` set c \<Longrightarrow> replace_member a v c = c"
  by (induction c) auto

lemma replace_member_length [simp]: "length (replace_member a v c) = length c"
  by (induction c) auto

lemma replace_member_set:
  "distinct (map val_Address c) \<Longrightarrow> a \<in> val_Address ` set c \<Longrightarrow>
     set (replace_member a v c) = insert v {m \<in> set c. val_Address m \<noteq> a}"
proof (induction c)
  case (Cons m c)
  then show ?case by (cases "val_Address m = a") (auto simp: image_iff)
qed simp

lemma replace_member_distinct:
  "distinct (map val_Address c) \<Longrightarrow> val_Address v \<notin> val_Address ` set c \<Longrightarrow> distinct (map val_Address (replace_member a v c))"
proof (induction c)
  case (Cons m c)
  have "val_Address ` set (replace_member a v c) \<subseteq> insert (val_Address v) (val_Address ` set c)"
    by (induction c) auto
  then show ?case using Cons by auto
qed simp

text \<open>The validators that may take the place of \<open>a\<close>.\<close>

definition substitutes :: "'s Storage \<Rightarrow> 's ValidatorRegistry \<Rightarrow> Validator list \<Rightarrow> address \<Rightarrow> Validator set" where
  "substitutes st vr committee a =
     {v \<in> ran (reg_view st vr). val_Participating v \<and> val_Address v \<notin> committee_addrs committee \<and> val_Address v \<noteq> a}"

text \<open>
  C22: Replacing an inactive validator.  With no participating validator outside the committee
  the replacement fails; otherwise exactly the inactive member is replaced, by the
  validator that an election would prefer among those outside, and the committee keeps its size
  and its distinct addresses.
\<close>

theorem replacement_is_heaviest:
  assumes "reliable_store st I" "reg_ok st I vr" "distinct (map val_Address committee)" "a \<in> committee_addrs committee"
  shows "if substitutes st vr committee a = {} then ReplaceInactiveValidator st committee a vr = Inl (ErrNoReplacement a)
    else \<exists>v c. v \<in> substitutes st vr committee a \<and> (\<forall>w \<in> substitutes st vr committee a. w = v \<or> heavier v w) \<and>
      ReplaceInactiveValidator st committee a vr = Inr c \<and> length c = length committee \<and> distinct (map val_Address c) \<and>
      set c = insert v {m \<in> set committee. val_Address m \<noteq> a}"
proof -
  obtain vs where vs: "GetAllValidators st vr = Inr vs" "distinct (map val_Address vs)" "set vs = ran (reg_view st vr)"
    by (rule reliable_store.GetAllValidators_ok [OF assms(1,2)])
  define cs where "cs = filter (\<lambda>v. val_Participating v \<and> \<not> isCommitteeMember_loop committee (val_Address v) \<and>
      val_Address v \<noteq> a) vs"
  have set: "set cs = substitutes st vr committee a" using vs(3) by (auto simp: cs_def substitutes_def member_iff)
  have eq: "ReplaceInactiveValidator st committee a vr = (if cs = [] then Inl (ErrNoReplacement a)
      else Inr (replace_member a (sort_slice candidate_less cs ! 0) committee))"
    by (simp add: ReplaceInactiveValidator_def vs(1) cs_def Let_def)
  show ?thesis
  proof (cases "cs = []")
    case True
    then show ?thesis using set eq by simp
  next
    case False
    let ?v = "sort_slice candidate_less cs ! 0"
    have "distinct (map val_Address cs)" using vs(2) by (simp add: cs_def distinct_map_filter)
    then have v: "?v \<in> set cs" "\<forall>w \<in> set cs. w \<noteq> ?v \<longrightarrow> heavier ?v w" using first_candidate False by blast+
    have out: "val_Address ?v \<notin> val_Address ` set committee" using v(1) by (auto simp: set substitutes_def)
    have mem: "a \<in> val_Address ` set committee" using assms(4) by simp
    have "substitutes st vr committee a \<noteq> {}" using False by (simp flip: set)
    moreover have "\<forall>w \<in> substitutes st vr committee a. w = ?v \<or> heavier ?v w" using v(2) by (auto simp flip: set)
    ultimately show ?thesis
      using v(1) False replace_member_distinct [OF assms(3) out, of a] replace_member_set [OF assms(3,4), of ?v]
      by (simp only: if_False eq set) (intro exI [of _ ?v] exI [of _ "replace_member a ?v committee"], simp)
  qed
qed

theorem replacement_is_heaviest_witness:
  "\<exists>c. ReplaceInactiveValidator MemoryStore_ops [demo_validator 1 10, demo_validator 2 30] 1
      (demo_registry [demo_validator 1 10, demo_validator 2 30, demo_validator 3 20]) = Inr c \<and>
    set c = {demo_validator 3 20, demo_validator 2 30}"
proof -
  let ?c = "[demo_validator 1 10, demo_validator 2 30]" and ?vs = "[demo_validator 1 10, demo_validator 2 30, demo_validator 3 20]"
  have "reg_view MemoryStore_ops (demo_registry ?vs) =
      [1 \<mapsto> demo_validator 1 10, 2 \<mapsto> demo_validator 2 30, 3 \<mapsto> demo_validator 3 20]"
    by (simp add: demo_registry_facts(2) fun_eq_iff)
  then have "substitutes MemoryStore_ops (demo_registry ?vs) ?c 1 = {demo_validator 3 20}"
    by (auto simp: substitutes_def)
  then show ?thesis
    using replacement_is_heaviest [OF memory_store.reliable_store_axioms demo_registry_facts(1), of ?c 1 ?vs]
    by (auto simp: Collect_conv_if disj_imp)
qed

end
