(* ===== verification/Network.thy ===== *)
theory Network
  imports Node_Safety
begin

text \<open>
  A network of nodes that exchange the messages they publish.  A node is \<open>quiet\<close> when its
  peer lists are consistent, its whitelist is empty and the only handshake messages it has published are pings; every step of
  an honest network keeps every node quiet, because pings are answered only for whitelisted
  peers and peers are whitelisted only by answers.
\<close>

section \<open>Quiet nodes\<close>

definition ping_data :: "bytes \<Rightarrow> bool" where
  "ping_data dat \<longleftrightarrow> (\<exists>lp m. dat = marshal_handshake lp m \<and> hs_Type m = ''ping'')"

definition quiet :: "'s AppNode \<Rightarrow> bool" where
  "quiet n \<longleftrightarrow> bar_ok (n_barNet n) \<and> bn_whitelist (n_barNet n) = [] \<and>
     (\<forall>dat. (HandshakeTopic, dat) \<in> set (p2p_sent (n_p2p n)) \<longrightarrow> ping_data dat)"

lemma quiet_frame [simp]:
  "quiet (n\<lparr>n_handshakeManager := hm\<rparr>) = quiet n" "quiet (n\<lparr>n_inactivityMonitor := im\<rparr>) = quiet n"
  "quiet (n\<lparr>n_tasks := ts\<rparr>) = quiet n" "quiet (n\<lparr>n_pendingBlocks := pb\<rparr>) = quiet n"
  "quiet (n\<lparr>n_approvalBuffer := ab\<rparr>) = quiet n" "quiet (n\<lparr>n_committee := vs\<rparr>) = quiet n"
  "quiet (n\<lparr>n_proposerSelector := ps\<rparr>) = quiet n" "quiet (n\<lparr>n_metrics := mc\<rparr>) = quiet n"
  "quiet (n\<lparr>n_fastSyncManager := fs\<rparr>) = quiet n" "quiet (n\<lparr>n_syncDone := c\<rparr>) = quiet n"
  "quiet (n\<lparr>n_bc := bc\<rparr>) = quiet n" "quiet (n\<lparr>n_state := st\<rparr>) = quiet n" "quiet (n\<lparr>n_vr := vr\<rparr>) = quiet n"
  "quiet (n\<lparr>n_txPool := tp\<rparr>) = quiet n"
  by (simp_all add: quiet_def)

lemma quiet_p2p: "p2p_sent p = p2p_sent (n_p2p n) \<Longrightarrow> quiet (n\<lparr>n_p2p := p\<rparr>) = quiet n"
  by (simp add: quiet_def)

lemma quiet_bar:
  "quiet n \<Longrightarrow> bar_step cr (n_barNet n) bn \<Longrightarrow> bn_whitelist bn = [] \<Longrightarrow> quiet (n\<lparr>n_barNet := bn\<rparr>)"
  using bar_ok_step [of cr "n_barNet n" bn] by (simp add: quiet_def)

lemma quiet_publish [simp]: "t \<noteq> HandshakeTopic \<Longrightarrow> quiet (snd (node_publish e n t d)) = quiet n"
  by (simp add: quiet_def node_publish_sent)

lemma quiet_penalize: "quiet n \<Longrightarrow> quiet (penalize e n p i r)"
  by (simp add: quiet_def penalize_def bar_ok_UpdatePOM)

lemma other_topics [simp]:
  "TransactionTopic \<noteq> HandshakeTopic" "BlockTopic \<noteq> HandshakeTopic" "ApprovalTopic \<noteq> HandshakeTopic"
  "BlockRequestTopic \<noteq> HandshakeTopic" "BlockResponseTopic \<noteq> HandshakeTopic" "ValidatorTopic \<noteq> HandshakeTopic"
  "InactivityTopic \<noteq> HandshakeTopic" "OptimisticPushTopic \<noteq> HandshakeTopic"
  by (simp_all add: topic_defs HandshakeTopic_def InactivityTopic_def OptimisticPushTopic_def)

section \<open>The peer protocols\<close>

lemma ping_data_ping: "ping_data (marshal_handshake lp (ping_message e n p nonce))"
proof -
  have "hs_Type (ping_message e n p nonce) = ''ping''" by (simp add: ping_message_def Let_def)
  then show ?thesis unfolding ping_data_def by blast
qed

lemma quiet_SendPing: "quiet n \<Longrightarrow> quiet (snd (SendPing e n p))"
  by (auto simp: quiet_def SendPing_def generateNonce_def Let_def node_publish_sent ping_data_ping)

lemma quiet_perform:
  assumes "quiet n" shows "quiet (performHandshakes e n)"
proof -
  have "quiet (perform_handshakes_loop e n k infos)" if "quiet n" for n k infos
    using that
  proof (induction e n k infos rule: perform_handshakes_loop.induct)
    case (2 e n k info infos)
    have "quiet n1" if "SendPing e n (pi_ID info) = (r, n1)" for r n1
      using quiet_SendPing [of n e "pi_ID info"] that 2(4) by simp
    then show ?case using 2 by (auto simp: quiet_penalize split: prod.split option.split)
  qed simp
  with assms show ?thesis by (simp add: performHandshakes_def)
qed

text \<open>A ping to a node without whitelisted peers is not answered.\<close>

lemma quiet_handlePing:
  assumes "quiet n" shows "quiet (handlePing e n m)"
proof -
  let ?find = "FindNodes (e_cr e) (n_barNet n) (hs_Round m)"
  have f: "?find = (Some [], (n_barNet n)\<lparr>bn_round := hs_Round m\<rparr>)"
    using assms by (simp add: quiet_def FindNodes_empty)
  then have "quiet (n\<lparr>n_barNet := snd ?find\<rparr>)"
    using assms by (intro quiet_bar [OF assms step_find]) (simp add: quiet_def)
  then show ?thesis using assms f by (simp add: handlePing_def quiet_penalize)
qed

lemma quiet_handshake:
  assumes "quiet n" "ping_data (msg_Data msg)" shows "quiet (handleHandshakeMessage e n t msg)"
proof -
  have "hs_Type m = ''ping''" if "unmarshal_handshake (e_lp e) (msg_Data msg) = Some m" for m
    using that assms(2) unmarshal_handshake_type by (fastforce simp: ping_data_def)
  then show ?thesis
    using assms quiet_handlePing [OF assms(1)] by (simp add: handleHandshakeMessage_def split: option.split)
qed

lemma quiet_report [simp]: "quiet (report_to e n p r ev infos) = quiet n"
  by (induction e n p r ev infos rule: report_to.induct) (simp_all add: Let_def)

lemma quiet_inactivity:
  assumes "quiet n" shows "quiet (handleInactivityMessage e n t msg)"
proof -
  have rec: "quiet (recordInactivity e n p r w ev) = quiet n" for n p r w ev
    by (simp add: recordInactivity_def set_records_def Let_def)
  have "quiet (markPeerAsInactive e n p)" if q: "quiet n" for n p
  proof -
    have "bn_whitelist (snd (DemoteToGreylist (n_barNet n) p)) = []"
      using q by (simp add: quiet_def DemoteToGreylist_def demoteToGreylistNoLock_def)
    from quiet_bar [OF q step_demote this] show ?thesis
      by (simp add: markPeerAsInactive_def broadcastInactivityReport_def split: option.split)
  qed
  then have "quiet (handleMarkInactive e n m)" for m
    using assms by (simp add: handleMarkInactive_def Let_def quiet_penalize rec)
  then show ?thesis
    using assms by (simp add: handleInactivityMessage_def handleInactivityReport_def quiet_penalize rec split: option.split)
qed

lemma quiet_check [simp]: "quiet (checkForInactivity e n) = quiet n"
proof -
  have "quiet (foldl (\<lambda>n info. if pi_ID info = p2p_ID (n_p2p n) then n
          else if isPeerInactive n (pi_ID info) then reportInactivity e n (pi_ID info) r ev else n) n infos) = quiet n"
    for r ev infos
    by (induction infos arbitrary: n) (simp_all add: reportInactivity_def)
  then show ?thesis by (simp add: checkForInactivity_def)
qed

lemma quiet_push:
  assumes "quiet n" shows "quiet (handleOptimisticPushMessage e n t msg)"
proof -
  have "quiet (handlePushRequest e n m)" for m
    using assms by (simp add: handlePushRequest_def sendPushResponse_def split_beta)
  moreover have "quiet (handlePushResponse n m)" "quiet (handleBlockData n m)" for m
    using assms by (simp_all add: handlePushResponse_def handleBlockData_def processReceivedBlockData_def
        processReceivedBlockHeaders_def)
  ultimately show ?thesis
    using assms by (simp add: handleOptimisticPushMessage_def quiet_penalize split: option.split)
qed

section \<open>The node's own handlers\<close>

lemma quiet_ForceCommittee [simp]: "quiet (ForceCommitteeAndProposer e n) = quiet n"
  by (simp add: ForceCommitteeAndProposer_def Let_def split: sum.split)

lemma quiet_handleTransaction: "quiet n \<Longrightarrow> quiet (handleTransaction e n msg)"
  by (auto simp: handleTransaction_def quiet_penalize split: sum.split option.split prod.split)

lemma quiet_processReceivedBlock [simp]: "quiet (processReceivedBlock e n b) = quiet n"
  by (simp add: processReceivedBlock_def after_vote_def broadcastApproval_def Let_def split_beta option.case_eq_if)

lemma quiet_processApproval [simp]: "quiet (processApproval n a) = quiet n"
  by (simp add: processApproval_def Let_def split_beta split: option.split)

lemma quiet_fund: "fund_account e n a = Some n' \<Longrightarrow> quiet n' = quiet n"
  by (auto simp: fund_account_def split: sum.splits if_splits)

lemma quiet_fund_all: "fund_validators e n vs = Some n' \<Longrightarrow> quiet n' = quiet n"
  by (induction e n vs rule: fund_validators.induct) (auto simp: quiet_fund split: option.splits)

lemma quiet_addTest [simp]: "quiet (addTestTransactions e n) = quiet n"
proof -
  have bt: "quiet (snd (BroadcastTransaction e n tx)) = quiet n" for n tx
    by (simp add: BroadcastTransaction_def split_beta)
  have "quiet (foldl (\<lambda>n (a, k). snd (BroadcastTransaction e n (test_tx e n r a k ty))) n xs) = quiet n" for r ty xs
    by (induction xs arbitrary: n) (simp_all add: split_beta bt)
  then show ?thesis by (simp add: addTestTransactions_def Let_def bt split: sum.split option.split)
qed

lemma quiet_network:
  assumes "quiet n" "handleNetworkMessage e n t msg = Some n'" shows "quiet n'"
proof -
  have "quiet n'" if "handleValidatorRegistration e n msg = Some n'"
    using that assms(1) by (auto simp: handleValidatorRegistration_def quiet_fund split: option.splits prod.splits)
  moreover have "quiet n'" if "handleBlockProposal e n msg = Some n'"
    using that assms(1) by (auto simp: handleBlockProposal_def quiet_penalize split: option.splits wire_block.splits)
  moreover have "quiet n'" if "handleBlockResponse e n msg = Some n'"
    using that assms(1) by (auto simp: handleBlockResponse_def split: option.splits if_splits wire_block.splits)
  moreover have "quiet (handleApproval e n msg)"
    using assms(1) by (simp add: handleApproval_def quiet_penalize split: option.split)
  moreover have "quiet (handleBlockRequest e n msg)"
    using assms(1) by (simp add: handleBlockRequest_def split: option.split sum.split)
  ultimately show ?thesis
    using assms quiet_handleTransaction [OF assms(1)] by (auto simp: handleNetworkMessage_def split: if_splits)
qed

lemma quiet_receive:
  assumes "quiet n" "receive e n t h msg = Some n'" "t = HandshakeTopic \<longrightarrow> ping_data (msg_Data msg)" shows "quiet n'"
proof (cases "(t, h) \<in> set (p2p_subs (n_p2p n)) \<and> msg_ReceivedFrom msg \<noteq> p2p_ID (n_p2p n)")
  case False
  then have "receive e n t h msg = Some n" by (auto simp: receive_def handleSubscription_def)
  then show ?thesis using assms by simp
next
  case True
  define n1 where "n1 = n\<lparr>n_p2p := UpdateBandwidthIn (n_p2p n) (of_nat (length (msg_Data msg)))\<rparr>"
  have q: "quiet n1" using assms(1) by (simp add: n1_def quiet_p2p UpdateBandwidthIn_def)
  have d: "dispatch e n1 t h msg = Some n'" using True assms(2) by (simp add: receive_def handleSubscription_def n1_def)
  have "quiet (handleHandshakeMessage e n1 t msg)"
  proof (cases "t = HandshakeTopic")
    case True
    then show ?thesis using assms(3) quiet_handshake [OF q] by simp
  next
    case False
    then show ?thesis using q by (simp add: handleHandshakeMessage_def)
  qed
  then show ?thesis
    using d quiet_network [OF q] quiet_push [OF q] quiet_inactivity [OF q] by (cases h) auto
qed

lemma quiet_propose [simp]: "quiet (propose_block e n v) = quiet n"
  by (simp add: propose_block_def Let_def split: sum.split prod.split option.split)

lemma quiet_start_round:
  assumes "quiet n" shows "quiet (start_round e n rnd)"
proof -
  let ?n = "UpdateRound e n rnd"
  let ?n2 = "?n\<lparr>n_barNet := snd (FindNodes (e_cr e) (n_barNet ?n) rnd)\<rparr>"
  have q: "quiet ?n" and w: "bn_whitelist (n_barNet ?n) = []" using assms by (simp_all add: UpdateRound_def quiet_def)
  have q2: "quiet ?n2" by (rule quiet_bar [OF q step_find]) (simp add: FindNodes_frame w)
  have "quiet (?n2\<lparr>n_barNet := CleanupReputationRecords (n_barNet ?n2)\<rparr>)"
    by (rule quiet_bar [OF q2 step_cleanup]) (simp add: FindNodes_frame w CleanupReputationRecords_def)
  with q2 show ?thesis by (simp add: start_round_def Let_def)
qed

lemma quiet_producer: "quiet n \<Longrightarrow> quiet (producer_tick e n rnd)"
  using quiet_start_round [of n e rnd] by (simp add: producer_tick_def Let_def split: option.split)

lemma quiet_finalize [simp]: "quiet (finalizeApprovedBlock e n b) = quiet n"
  by (simp add: finalizeApprovedBlock_def Let_def split: prod.split option.split)

lemma quiet_run_task: "quiet n \<Longrightarrow> quiet (run_task e n i timeout)"
  by (simp add: run_task_def drop_task_def watch_tick_def watch_timeout_def fastsync_syncLoop_def Let_def split_beta
      split: task.split option.split)

lemma quiet_sync [simp]: "quiet (performBlockSync e n) = quiet n"
proof -
  have "quiet (foldl (\<lambda>n h. case GetBlockByHeight (e_st e) (n_bc n) h of Inl _ \<Rightarrow> RequestBlock e n h | Inr _ \<Rightarrow> n) n hs) = quiet n"
    for hs by (induction hs arbitrary: n) (simp_all add: RequestBlock_def split: sum.split)
  then show ?thesis by (simp add: performBlockSync_def Let_def)
qed

lemma quiet_connect: "quiet n \<Longrightarrow> quiet (n\<lparr>n_barNet := AddPeer now (n_barNet n) p a\<rparr>)"
  by (rule quiet_bar [OF _ step_add]) (simp_all add: quiet_def AddPeer_def)

lemma quiet_input:
  assumes "quiet n" "node_input e inp n = Some n'"
    and "\<And>h msg. inp = Receive HandshakeTopic h msg \<Longrightarrow> ping_data (msg_Data msg)"
  shows "quiet n'"
proof (cases inp)
  case (Receive t h msg)
  then show ?thesis using assms quiet_receive [OF assms(1), of e t h msg n'] by auto
next
  case InitializeAccounts
  then show ?thesis
    using assms by (auto simp: initialize_accounts_def quiet_fund_all split: sum.splits)
next
  case RegistrationTick
  then show ?thesis using assms(1,2) by (auto simp: sendValidatorRegistration_def split: sum.splits option.splits)
qed (use assms(1,2) in \<open>auto simp: quiet_producer quiet_perform quiet_connect quiet_run_task split: if_splits\<close>)

lemma sent_Subscribe [simp]: "p2p_sent (Subscribe lp p h) = p2p_sent p"
  by (simp add: Subscribe_def)

lemma sent_RegisterTopic: "RegisterTopic lp p t = Some p' \<Longrightarrow> p2p_sent p' = p2p_sent p"
  by (auto simp: RegisterTopic_def split: if_splits)

lemma sent_register_topics: "register_topics lp p ts = Some p' \<Longrightarrow> p2p_sent p' = p2p_sent p"
  by (induction ts arbitrary: p) (auto split: option.splits dest: sent_RegisterTopic)

lemma quiet_subscribes:
  assumes "map_option (\<lambda>p. n\<lparr>n_p2p := Subscribe lp p h\<rparr>) (RegisterTopic lp (n_p2p n) t) = Some n'"
  shows "quiet n' = quiet n"
  using assms by (auto simp: quiet_p2p dest: sent_RegisterTopic)

lemma quiet_Start:
  assumes "quiet n" "Start e n = Some n'" shows "quiet n'"
proof -
  obtain p n1 n2 n3 where p: "register_topics (e_lp e) (n_p2p n)
            [TransactionTopic, BlockTopic, ApprovalTopic, BlockRequestTopic, BlockResponseTopic, ValidatorTopic] = Some p"
    and n1: "Handshake_Start e (n\<lparr>n_p2p := Subscribe (e_lp e) p NodeHandler, n_syncDone := OpenChan\<rparr>) = Some n1"
    and n2: "Push_Start e n1 = Some n2" and n3: "Inactivity_Start e n2 = Some n3"
    and n': "n' = (if Height (n_bc n3) < 10 then FastSync_Start n3 else n3)"
    using assms(2) by (auto simp: Start_def bind_eq_Some_conv)
  have "quiet (n\<lparr>n_p2p := Subscribe (e_lp e) p NodeHandler, n_syncDone := OpenChan\<rparr>)"
    using assms(1) sent_register_topics [OF p] by (simp add: quiet_p2p)
  then have "quiet n3"
    using quiet_subscribes [OF n1 [unfolded Handshake_Start_def]] quiet_subscribes [OF n2 [unfolded Push_Start_def]]
      quiet_subscribes [OF n3 [unfolded Inactivity_Start_def]] by simp
  then show ?thesis by (simp add: n' FastSync_Start_def)
qed

section \<open>Networks\<close>

text \<open>
  The nodes by an index.  A step starts a node or lets it handle an input; a message that
  arrives was published by a node of the network.  A node that crashes takes no further step.
\<close>

inductive net_step :: "('i \<Rightarrow> 's AppNode) \<Rightarrow> ('i \<Rightarrow> 's AppNode) \<Rightarrow> bool" where
  net_start: "Start e (N i) = Some n' \<Longrightarrow> net_step N (N(i := n'))"
| net_local: "node_input e inp (N i) = Some n' \<Longrightarrow> \<forall>t h msg. inp \<noteq> Receive t h msg \<Longrightarrow> net_step N (N(i := n'))"
| net_deliver: "(t, dat) \<in> set (p2p_sent (n_p2p (N j))) \<Longrightarrow>
    node_input e (Receive t h \<lparr>msg_Data = dat, msg_ReceivedFrom = sender\<rparr>) (N i) = Some n' \<Longrightarrow> net_step N (N(i := n'))"

inductive_cases net_stepE: "net_step N N'"

definition new_peer :: "'s AppNode \<Rightarrow> bool" where
  "new_peer n \<longleftrightarrow> (\<exists>seed. n_barNet n = SetOnPeerStatusChange (NewBARNetwork seed None)) \<and> p2p_sent (n_p2p n) = []"

lemma new_peer_quiet: "new_peer n \<Longrightarrow> quiet n"
  using bar_ok_step [OF step_callback bar_ok_New, where ?cfg1 = None]
  by (auto simp: new_peer_def quiet_def) (simp add: SetOnPeerStatusChange_def NewBARNetwork_def)

lemma quiet_step:
  assumes "net_step N N'" "\<forall>i. quiet (N i)" shows "\<forall>i. quiet (N' i)"
  using assms(1)
proof cases
  case (net_start e i n')
  then show ?thesis using assms(2) quiet_Start [of "N i"] by auto
next
  case (net_local e inp i n')
  then show ?thesis using assms(2) quiet_input [of "N i" e inp n'] by auto
next
  case (net_deliver t dat j e h sender i n')
  have "ping_data dat" if "t = HandshakeTopic" using that net_deliver(2) assms(2) by (auto simp: quiet_def)
  then show ?thesis using net_deliver assms(2) quiet_input [OF _ net_deliver(3)] by auto
qed

text \<open>
  C8: No peer is ever whitelisted.  In a network of nodes that run this program and start as
  new nodes, every whitelist stays empty in every run: a node answers a ping only when the sender
  is among the peers it selects, it selects from its whitelist, and it whitelists a
  peer only on such an answer.  So \<^verbatim>\<open>FindNodes\<close> never selects a peer, and no request for an optimistic push is served.
\<close>

theorem whitelists_stay_empty:
  assumes "\<forall>i. new_peer (N0 i)" "net_step\<^sup>*\<^sup>* N0 N"
  shows "GetWhitelist (n_barNet (N i)) = [] \<and> fst (FindNodes cr (n_barNet (N i)) rnd) = Some [] \<and>
    handlePushRequest e (N i) request = N i"
proof -
  have "\<forall>i. quiet (N i)"
    using assms(2,1)
  proof (induction rule: rtranclp_induct)
    case base
    then show ?case by (simp add: new_peer_quiet)
  qed (auto dest: quiet_step)
  then have w: "bn_whitelist (n_barNet (N i)) = []" "bar_ok (n_barNet (N i))" by (simp_all add: quiet_def)
  then have "fst (GetPeerStatus (n_barNet (N i)) p) \<noteq> PeerStatusWhitelist" for p
    by (auto simp: GetPeerStatus_def bar_ok_def dest: list_ok_get split: option.splits)
  then show ?thesis
    using w by (auto simp: GetWhitelist_def FindNodes_empty handlePushRequest_def split_beta)
qed

theorem whitelists_stay_empty_witness:
  "\<exists>N. net_step (\<lambda>i :: nat. (demo_node [] ''me'' [])\<lparr>n_barNet := SetOnPeerStatusChange (NewBARNetwork [] None)\<rparr>) N \<and>
     GetGreylist (n_barNet (N 0)) \<noteq> [] \<and> GetWhitelist (n_barNet (N 0)) = []"
proof -
  let ?n = "(demo_node [] ''me'' [])\<lparr>n_barNet := SetOnPeerStatusChange (NewBARNetwork [] None)\<rparr>"
  let ?n' = "?n\<lparr>n_barNet := AddPeer 7 (n_barNet ?n) ''peer'' ''addr''\<rparr>"
  let ?N = "\<lambda>i :: nat. ?n"
  have new: "\<forall>i. new_peer (?N i)" by (auto simp: new_peer_def demo_node_def)
  have "node_input demo_env (PeerConnected ''peer'' ''addr'') (?N 0) = Some ?n'" by simp
  then have step: "net_step ?N (?N(0 := ?n'))" by (rule net_local) simp
  have "GetGreylist (n_barNet ?n') \<noteq> []"
    by (simp add: AddPeer_def isPeerInAnyList_def SetOnPeerStatusChange_def NewBARNetwork_def GetGreylist_def)
  moreover have "GetWhitelist (n_barNet ((?N(0 := ?n')) 0)) = []"
    using whitelists_stay_empty [OF new r_into_rtranclp [of net_step, OF step], of 0] by blast
  ultimately show ?thesis using step by (intro exI [of _ "?N(0 := ?n')"]) simp
qed

end
