(* ===== verification/Fork_Choice.thy ===== *)
theory Fork_Choice
  imports Committee
begin

text \<open>
  \<^verbatim>\<open>fork_choice.go\<close>: the latest vote of every validator and the choice of the block hash with the
  greatest total weight.  The order in which Go iterates over \<open>weightMap\<close> is the argument
  \<open>order\<close>, a permutation of the entries that may differ on every run.
\<close>

section \<open>Operations\<close>

record ParticipationTracker =
  pt_votes :: "(address, hash) gomap"

definition NewParticipationTracker :: ParticipationTracker where
  "NewParticipationTracker = \<lparr>pt_votes = []\<rparr>"

definition RecordVote :: "ParticipationTracker \<Rightarrow> hash \<Rightarrow> Validator \<Rightarrow> ParticipationTracker" where
  "RecordVote pt blockHash validator =
     pt\<lparr>pt_votes := go_set (pt_votes pt) (val_Address validator) blockHash\<rparr>"

definition LatestVote :: "ParticipationTracker \<Rightarrow> address \<Rightarrow> hash option" where
  "LatestVote pt validator = go_get (pt_votes pt) validator"

text \<open>Reading a missing key of a Go map gives the zero value.\<close>

definition weight_at :: "(hash, u64) gomap \<Rightarrow> hash \<Rightarrow> u64" where
  "weight_at m h = (case go_get m h of None \<Rightarrow> 0 | Some w \<Rightarrow> w)"

fun tally_votes :: "ParticipationTracker \<Rightarrow> (hash, u64) gomap \<Rightarrow> Validator list \<Rightarrow> (hash, u64) gomap" where
  "tally_votes pt weightMap [] = weightMap"
| "tally_votes pt weightMap (v # vs) =
     (case LatestVote pt (val_Address v) of
        None \<Rightarrow> tally_votes pt weightMap vs
      | Some vote \<Rightarrow>
          tally_votes pt
            (go_set weightMap vote (weight_at weightMap vote + weight_of v)) vs)"

fun heaviest :: "hash \<times> u64 \<Rightarrow> (hash \<times> u64) list \<Rightarrow> hash \<times> u64" where
  "heaviest (maxHash, maxWeight) [] = (maxHash, maxWeight)"
| "heaviest (maxHash, maxWeight) ((h, w) # rest) =
     (if maxWeight < w then heaviest (h, w) rest else heaviest (maxHash, maxWeight) rest)"

definition SelectHead ::
  "'s Storage \<Rightarrow> ((hash \<times> u64) list \<Rightarrow> (hash \<times> u64) list) \<Rightarrow> ParticipationTracker \<Rightarrow> 's ValidatorRegistry \<Rightarrow>
   gerror + hash" where
  "SelectHead st order pt vr =
     (case GetAllValidators st vr of
        Inl err \<Rightarrow> Inl err
      | Inr validators \<Rightarrow> Inr (fst (heaviest (0, 0) (order (tally_votes pt [] validators)))))"

section \<open>Votes\<close>

lemma LatestVote_RecordVote [simp]:
  "LatestVote (RecordVote pt h v) a = (if a = val_Address v then Some h else LatestVote pt a)"
  by (simp add: LatestVote_def RecordVote_def)

text \<open>The weight behind a hash, in 64-bit arithmetic.\<close>

definition votes_for :: "ParticipationTracker \<Rightarrow> Validator list \<Rightarrow> hash \<Rightarrow> u64" where
  "votes_for pt vs h = sum_list (map weight_of (filter (\<lambda>v. LatestVote pt (val_Address v) = Some h) vs))"

lemma tally_votes_wf: "go_wf m \<Longrightarrow> go_wf (tally_votes pt m vs)"
  by (induction vs arbitrary: m) (auto split: option.split)

lemma weight_at_set [simp]: "weight_at (go_set m k w) h = (if h = k then w else weight_at m h)"
  by (simp add: weight_at_def)

lemma weight_at_Nil [simp]: "weight_at [] h = 0"
  by (simp add: weight_at_def)

lemma tally_votes_get: "weight_at (tally_votes pt m vs) h = weight_at m h + votes_for pt vs h"
proof (induction vs arbitrary: m)
  case (Cons v vs)
  then show ?case by (cases "LatestVote pt (val_Address v)") (simp_all add: votes_for_def add.assoc)
qed (simp add: votes_for_def)

lemma tally_votes_mem:
  assumes "(h, w) \<in> set (tally_votes pt [] vs)" shows "w = votes_for pt vs h"
proof -
  have "go_get (tally_votes pt [] vs) h = Some w"
    using assms go_wf_mem [OF tally_votes_wf [OF go_wf_Nil]] by blast
  then show ?thesis using tally_votes_get [of pt "[]" vs h] by (simp add: weight_at_def)
qed

lemma tally_votes_cover:
  assumes "votes_for pt vs h \<noteq> 0" shows "(h, votes_for pt vs h) \<in> set (tally_votes pt [] vs)"
proof (cases "go_get (tally_votes pt [] vs) h")
  case None
  then show ?thesis using assms tally_votes_get [of pt "[]" vs h] by (simp add: weight_at_def)
next
  case (Some w)
  then show ?thesis
    using tally_votes_get [of pt "[]" vs h] map_of_SomeD [OF Some] by (simp add: weight_at_def)
qed

text \<open>The scan returns an entry of greatest weight, or its starting value if nothing exceeds it.\<close>

lemma heaviest_greatest:
  "(heaviest (mh, mw) xs = (mh, mw) \<or> heaviest (mh, mw) xs \<in> set xs) \<and>
   mw \<le> snd (heaviest (mh, mw) xs) \<and> (\<forall>(h, w) \<in> set xs. w \<le> snd (heaviest (mh, mw) xs))"
proof (induction xs arbitrary: mh mw)
  case (Cons p xs)
  obtain h w where p: "p = (h, w)" by (cases p)
  show ?case
  proof (cases "mw < w")
    case True
    then show ?thesis using Cons.IH [of h w] by (auto simp: p)
  next
    case False
    then show ?thesis using Cons.IH [of mh mw] by (auto simp: p)
  qed
qed simp

lemma heaviest_weight_zero: "snd (heaviest (mh, mw) xs) = mw \<Longrightarrow> heaviest (mh, mw) xs = (mh, mw)"
proof (induction xs arbitrary: mh mw)
  case (Cons p xs)
  obtain h w where p: "p = (h, w)" by (cases p)
  have "\<not> mw < w"
    using Cons.prems heaviest_greatest [of mh mw "p # xs"] by (auto simp: p)
  then show ?case using Cons by (simp add: p)
qed simp

lemma head_greatest:
  assumes "mset (order (tally_votes pt [] vs)) = mset (tally_votes pt [] vs)"
  defines "h \<equiv> fst (heaviest (0, 0) (order (tally_votes pt [] vs)))"
  shows "votes_for pt vs h' \<le> votes_for pt vs h \<and> (votes_for pt vs h = 0 \<longrightarrow> h = 0)"
proof -
  let ?t = "tally_votes pt [] vs" and ?r = "heaviest (0, 0) (order (tally_votes pt [] vs))"
  have set: "set (order ?t) = set ?t" using assms(1) by (metis set_mset_mset)
  have g: "?r = (0, 0) \<or> ?r \<in> set ?t" "\<forall>(x, w) \<in> set ?t. w \<le> snd ?r"
    using heaviest_greatest [of 0 0 "order ?t"] set by auto
  have "votes_for pt vs x \<le> snd ?r" for x
    using tally_votes_cover [of pt vs x] g(2) by (cases "votes_for pt vs x = 0") auto
  moreover have "snd ?r = votes_for pt vs h \<or> ?r = (0, 0)"
    using g(1) tally_votes_mem [of "fst ?r" "snd ?r" pt vs] by (auto simp: h_def)
  moreover have "votes_for pt vs h = 0 \<longrightarrow> h = 0"
  proof
    assume z: "votes_for pt vs h = 0"
    show "h = 0"
    proof (cases "?r = (0, 0)")
      case True
      then show ?thesis by (simp add: h_def)
    next
      case False
      then have "snd ?r = 0" using calculation z by auto
      moreover have "snd ?r \<noteq> 0 \<or> ?r = (0, 0)"
        using heaviest_weight_zero [of 0 0 "order ?t"] by blast
      ultimately show ?thesis using False by simp
    qed
  qed
  ultimately show ?thesis by (metis snd_conv word_le_0_iff word_zero_le)
qed

lemma heaviest_start: "\<forall>(h, w) \<in> set xs. w \<le> mw \<Longrightarrow> heaviest (mh, mw) xs = (mh, mw)"
  by (induction xs) auto

definition vote_weight :: "'s Storage \<Rightarrow> 's ValidatorRegistry \<Rightarrow> ParticipationTracker \<Rightarrow> hash \<Rightarrow> u64" where
  "vote_weight st vr pt h =
     (\<Sum>v \<in> {v \<in> ran (reg_view st vr). LatestVote pt (val_Address v) = Some h}. weight_of v)"

lemma vote_weight_list:
  assumes "distinct (map val_Address vs)" "set vs = ran (reg_view st vr)"
  shows "votes_for pt vs h = vote_weight st vr pt h"
proof -
  have "distinct (filter (\<lambda>v. LatestVote pt (val_Address v) = Some h) vs)"
    using assms(1) by (simp add: distinct_map)
  then show ?thesis
    by (simp add: votes_for_def vote_weight_def assms(2) [symmetric] sum_list_distinct_conv_sum_set)
qed

section \<open>Properties\<close>

text \<open>
  C23: The head has the greatest weight of votes.  Whatever order the tally is iterated in, the
  hash \<^verbatim>\<open>SelectHead\<close> returns has at least as much weight (the 64-bit sum over the registered
  validators whose latest vote it is) as any other hash, and it is the zero hash when no hash
  has any weight.
\<close>

theorem head_has_greatest_weight:
  assumes "reliable_store st I" "reg_ok st I vr" and "\<forall>m. mset (order m) = mset m"
  shows "\<exists>h. SelectHead st order pt vr = Inr h \<and>
    (\<forall>h'. vote_weight st vr pt h' \<le> vote_weight st vr pt h) \<and> (vote_weight st vr pt h = 0 \<longrightarrow> h = 0)"
proof -
  obtain vs where vs: "GetAllValidators st vr = Inr vs" "distinct (map val_Address vs)" "set vs = ran (reg_view st vr)"
    using reliable_store.GetAllValidators_ok [OF assms(1,2)] .
  show ?thesis
    using head_greatest [of order pt vs] assms(3)
    by (simp add: SelectHead_def vs(1) vote_weight_list [OF vs(2,3)])
qed

definition demo_votes :: ParticipationTracker where
  "demo_votes = RecordVote (RecordVote NewParticipationTracker 7 (demo_validator 1 10)) 9 (demo_validator 2 30)"

lemma demo_vote_weight:
  "vote_weight MemoryStore_ops (demo_registry [demo_validator 1 x, demo_validator 2 y]) demo_votes h =
     (if h = 7 then x else if h = 9 then y else 0)"
proof -
  have view: "reg_view MemoryStore_ops (demo_registry [demo_validator 1 x, demo_validator 2 y]) =
      [1 \<mapsto> demo_validator 1 x, 2 \<mapsto> demo_validator 2 y]"
    by (simp add: demo_registry_facts(2) fun_eq_iff)
  then have ran: "ran (reg_view MemoryStore_ops (demo_registry [demo_validator 1 x, demo_validator 2 y])) =
      {demo_validator 1 x, demo_validator 2 y}" by (auto simp: view)
  have "{v \<in> {demo_validator 1 x, demo_validator 2 y}. LatestVote demo_votes (val_Address v) = Some h} =
      (if h = 7 then {demo_validator 1 x} else if h = 9 then {demo_validator 2 y} else {})"
    by (auto simp: demo_votes_def)
  then show ?thesis by (simp add: vote_weight_def ran weight_of_def)
qed

theorem head_has_greatest_weight_witness:
  "SelectHead MemoryStore_ops rev demo_votes (demo_registry [demo_validator 1 10, demo_validator 2 30]) = Inr 9"
proof -
  let ?vr = "demo_registry [demo_validator 1 10, demo_validator 2 30]"
  obtain h where h: "SelectHead MemoryStore_ops rev demo_votes ?vr = Inr h"
    "\<And>h'. vote_weight MemoryStore_ops ?vr demo_votes h' \<le> vote_weight MemoryStore_ops ?vr demo_votes h"
    using head_has_greatest_weight [OF memory_store.reliable_store_axioms
        demo_registry_facts(1) [of "[demo_validator 1 10, demo_validator 2 30]"], where order = rev and pt = demo_votes]
    by auto
  then have "(30 :: u64) \<le> (if h = 7 then 10 else if h = 9 then 30 else 0)"
    using h(2) [of 9] by (simp add: demo_vote_weight)
  then have "h = 9" by (auto simp: word_le_nat_alt split: if_splits)
  with h(1) show ?thesis by simp
qed

text \<open>
  A tie is resolved by Go's map iteration order.  Every hash of greatest nonzero weight is
  returned under some iteration order, so nodes holding the same votes and the same registry
  may select different heads.
\<close>

theorem head_tie_depends_on_iteration_order:
  assumes "reliable_store st I" "reg_ok st I vr" and "vote_weight st vr pt h \<noteq> 0"
    and "\<forall>h'. vote_weight st vr pt h' \<le> vote_weight st vr pt h"
  shows "\<exists>order. (\<forall>m. mset (order m) = mset m) \<and> SelectHead st order pt vr = Inr h"
proof -
  obtain vs where vs: "GetAllValidators st vr = Inr vs" "distinct (map val_Address vs)" "set vs = ran (reg_view st vr)"
    using reliable_store.GetAllValidators_ok [OF assms(1,2)] .
  let ?e = "(h, votes_for pt vs h)"
  let ?order = "\<lambda>m. if ?e \<in> set m then ?e # remove1 ?e m else m"
  note eq = vote_weight_list [OF vs(2,3)]
  have mem: "?e \<in> set (tally_votes pt [] vs)" using assms(3) by (intro tally_votes_cover) (simp add: eq)
  have "\<forall>(x, w) \<in> set (remove1 ?e (tally_votes pt [] vs)). w \<le> votes_for pt vs h"
    using assms(4) tally_votes_mem [of _ _ pt vs] notin_set_remove1 by (fastforce simp: eq)
  then have "heaviest ?e (remove1 ?e (tally_votes pt [] vs)) = ?e" by (rule heaviest_start)
  moreover have "0 < votes_for pt vs h" using assms(3) by (simp add: eq word_neq_0_conv)
  ultimately have "SelectHead st ?order pt vr = Inr h" using mem by (simp add: SelectHead_def vs(1))
  then show ?thesis by (intro exI [of _ ?order]) simp
qed

theorem head_tie_depends_on_iteration_order_witness:
  "(\<exists>order. (\<forall>m. mset (order m) = mset m) \<and>
      SelectHead MemoryStore_ops order demo_votes (demo_registry [demo_validator 1 10, demo_validator 2 10]) = Inr 7) \<and>
   (\<exists>order. (\<forall>m. mset (order m) = mset m) \<and>
      SelectHead MemoryStore_ops order demo_votes (demo_registry [demo_validator 1 10, demo_validator 2 10]) = Inr 9)"
  by (intro conjI head_tie_depends_on_iteration_order [OF memory_store.reliable_store_axioms demo_registry_facts(1)])
    (simp_all add: demo_vote_weight)

end
