(* ===== verification/Countdown.thy ===== *)
theory Countdown
  imports Prelude
begin

text \<open>
  Loops that count an unsigned height down, as the block explorers of \<^verbatim>\<open>api.go\<close> and \<^verbatim>\<open>cli.go\<close> have them:
  \<^verbatim>\<open>for h := top; h >= low && go; h--\<close>.  The locale states what such a loop with fuel is; it ends when \<open>low\<close> is positive and need not end
  when \<open>low\<close> is 0, because an unsigned number is always at least 0.
\<close>

lemma unat_pred: "0 < h \<Longrightarrow> unat (h - 1) = unat h - 1" for h :: u64
  by (simp add: unat_minus_one word_neq_0_conv)

lemma above_hundred:
  fixes h :: u64
  assumes "\<not> h \<le> 100"
  shows "unat (h - 100) = unat h - 100" "0 < h - 100" "100 < h"
proof -
  show u: "unat (h - 100) = unat h - 100"
    using assms by (simp add: unat_sub word_le_nat_alt)
  show "0 < h - 100" using assms u by (simp add: word_less_nat_alt word_le_nat_alt)
  show "100 < h" using assms by simp
qed

lemma below_hundred_wraps:
  fixes h :: u64
  assumes "h < 100"
  shows "h < h - 100"
proof -
  have "unat (h - 100) = unat h + 2 ^ 64 - 100"
    using assms by (simp add: unat_sub_if_size word_size word_less_nat_alt word_le_nat_alt)
  then show ?thesis using assms by (simp add: word_less_nat_alt)
qed

locale countdown =
  fixes run :: "nat \<Rightarrow> u64 \<Rightarrow> 's \<Rightarrow> 'r option" and low :: u64 and go :: "'s \<Rightarrow> bool"
    and body :: "u64 \<Rightarrow> 's \<Rightarrow> 's" and result :: "'s \<Rightarrow> 'r"
  assumes no_fuel: "run 0 h s = None"
    and step: "run (Suc fuel) h s = (if low \<le> h \<and> go s then run fuel (h - 1) (body h s) else Some (result s))"
begin

lemma ends:
  assumes "0 < low" "unat h < unat low + fuel"
  shows "\<exists>r. run (Suc fuel) h s = Some r"
  using assms(2)
proof (induction fuel arbitrary: h s)
  case 0
  then have "\<not> low \<le> h" by (simp add: word_le_nat_alt)
  then show ?case by (simp add: step)
next
  case (Suc fuel)
  have "unat (h - 1) < unat low + fuel" if "low \<le> h"
    using Suc.prems that assms(1) unat_pred [of h] by (simp add: word_le_nat_alt word_less_nat_alt)
  then show ?case using Suc.IH [of "h - 1"] step [of "Suc fuel" h s] by auto
qed

lemma stuck:
  assumes "low = 0" and "P s" and "\<And>s. P s \<Longrightarrow> go s" and "\<And>h s. P s \<Longrightarrow> P (body h s)"
  shows "run fuel h s = None"
  using assms(2) by (induction fuel arbitrary: h s) (simp_all add: no_fuel step assms(1,3,4))

text \<open>The window of the last 100 blocks: a positive lower end, at most 101 heights.\<close>

lemma window_ends:
  assumes "\<not> h \<le> 100" and "low = h - 100"
  shows "\<exists>r. run 102 h s = Some r"
proof -
  have "unat h < unat low + 101" using above_hundred(1) [OF assms(1)] assms by (simp add: word_le_nat_alt)
  with ends [of h 101 s] above_hundred(2) [OF assms(1)] assms(2) show ?thesis by (simp add: eval_nat_numeral)
qed

end

end
