(* ===== verification/Api.thy ===== *)
theory Api
  imports Node_Invariant Lifecycle Countdown "HOL-Library.List_Lexorder" "HOL-Library.Char_ord"
begin

text \<open>
  \<^verbatim>\<open>api.go\<close>: the HTTP endpoints.  A request is its method, path, query and body; a handler returns
  the \<^verbatim>\<open>APIResponse\<close> it writes, and the node when it changes it; \<open>writeJSON\<close> turns a response into
  status and body, and \<open>serve\<close> is the routing of \<^verbatim>\<open>Start\<close>.  What the handlers ask of the
  operating system, of libp2p's host and of Go's runtime (open connections, memory, formatted
  times, numbers and error texts, the conversion of floating-point numbers that do not fit) is the
  record \<open>host\<close>.  The listening socket is not modelled, nor the redirection of paths that are not
  in clean form.
\<close>

section \<open>Requests and responses\<close>

text \<open>
  The members of the body of a request for a transaction, decoded, with Go's zero values for those that are
  missing or of another type.  The numbers are floating-point numbers.
\<close>

record create_body =
  cb_to :: string
  cb_value :: float64
  cb_fee :: float64
  cb_type :: string

record host =
  host_peers :: "(peerID \<times> string option) list"
  host_listen_port :: int
  host_alloc :: u64
  host_goroutines :: int
  host_timestamp :: string
  host_no_time :: string
  host_float_text :: "rat \<Rightarrow> string"
  host_create_body :: "bytes \<Rightarrow> create_body option"
  host_error_text :: "gerror \<Rightarrow> string"
  host_float_overflow :: "float64 \<Rightarrow> u64"

record request =
  rq_Method :: string
  rq_Path :: string
  rq_Query :: "string \<Rightarrow> string"
  rq_Body :: bytes

text \<open>The Go values that responses carry; \<open>DStruct\<close> is a struct (or slice of structs) with its JSON form.\<close>

datatype api_data =
    DInt int | DBool bool | DText string | DMetric metric | DMetrics "(string \<times> metric) list" | DStruct json
  | DList "api_data list" | DMap "(string \<times> api_data) list"

record APIResponse =
  ar_Success :: bool
  ar_Data :: "api_data option"
  ar_Error :: string
  ar_Code :: int
  ar_Message :: string

definition ok_response :: "api_data \<Rightarrow> APIResponse" where
  "ok_response d = \<lparr>ar_Success = True, ar_Data = Some d, ar_Error = [], ar_Code = 0, ar_Message = []\<rparr>"

definition error_response :: "string \<Rightarrow> int \<Rightarrow> APIResponse" where
  "error_response err code = \<lparr>ar_Success = False, ar_Data = None, ar_Error = err, ar_Code = code, ar_Message = []\<rparr>"

definition du64 :: "u64 \<Rightarrow> api_data" where "du64 w = DInt (uint w)"

definition daddr :: "address \<Rightarrow> api_data" where "daddr a = DText (Address_ToHex a)"

definition dhash :: "hash \<Rightarrow> api_data" where "dhash h = DText (Hash_ToHex h)"

text \<open>\<^verbatim>\<open>strconv.Atoi\<close> and \<^verbatim>\<open>strconv.ParseUint(s, 10, 64)\<close>.\<close>

definition ParseUint :: "string \<Rightarrow> u64 option" where
  "ParseUint s = (if s \<noteq> [] \<and> list_all is_digit s \<and> read_nat s < 2 ^ 64 then Some (of_nat (read_nat s)) else None)"

definition Atoi :: "string \<Rightarrow> int option" where
  "Atoi s =
     (let (neg, ds) = (case s of c # r \<Rightarrow> if c = CHR ''-'' then (True, r) else if c = CHR ''+'' then (False, r) else (False, s)
                       | [] \<Rightarrow> (False, []));
          v = (if neg then - int (read_nat ds) else int (read_nat ds))
      in if ds \<noteq> [] \<and> list_all is_digit ds \<and> - (2 ^ 63) \<le> v \<and> v < 2 ^ 63 then Some v else None)"

section \<open>Status endpoints\<close>

definition handleHealth :: "'s env \<Rightarrow> 's AppNode \<Rightarrow> APIResponse" where
  "handleHealth e n = ok_response (DMap [(''node_id'', daddr (n_address n)), (''status'', DText ''healthy''),
     (''timestamp'', DInt (e_now e div 1000000000))])"

definition handleStatus :: "'s env \<Rightarrow> host \<Rightarrow> 's AppNode \<Rightarrow> APIResponse" where
  "handleStatus e hv n =
     (let validator = (case GetValidator (e_st e) (n_vr n) (n_address n) of Inr (Some v) \<Rightarrow> Some v | _ \<Rightarrow> None)
      in ok_response (DMap
           [(''node_id'', daddr (n_address n)), (''blockchain_height'', du64 (Height (n_bc n))),
            (''is_validator'', DBool (validator \<noteq> None)),
            (''participating'', DBool (case validator of Some v \<Rightarrow> val_Participating v | None \<Rightarrow> False)),
            (''stake'', du64 (case validator of Some v \<Rightarrow> val_Stake v | None \<Rightarrow> 0)),
            (''delegated_stake'', du64 (case validator of Some v \<Rightarrow> val_DelegatedStake v | None \<Rightarrow> 0)),
            (''connected_peers'', DInt (int (length (host_peers hv)))),
            (''transaction_pool'', DInt (int (Pool_Size (n_txPool n))))]))"

text \<open>On an error the validators are the nil slice.\<close>

definition validators_or_nil :: "'s env \<Rightarrow> 's AppNode \<Rightarrow> Validator list" where
  "validators_or_nil e n = (case GetAllValidators (e_st e) (n_vr n) of Inl _ \<Rightarrow> [] | Inr vs \<Rightarrow> vs)"

definition metric_field :: "(string \<times> metric) list \<Rightarrow> string \<Rightarrow> api_data" where
  "metric_field ms k = (case map_of ms k of Some m \<Rightarrow> DMetric m | None \<Rightarrow> DStruct JNull)"

definition update_network :: "host \<Rightarrow> 's AppNode \<Rightarrow> 's AppNode" where
  "update_network hv n =
     (case GetBandwidthStats (n_p2p n) of
        (bandwidthIn, bandwidthOut) \<Rightarrow>
          n\<lparr>n_metrics := UpdateNetworkMetrics (n_metrics n) (int (length (host_peers hv))) bandwidthIn bandwidthOut\<rparr>)"

definition handleNetwork :: "'s env \<Rightarrow> host \<Rightarrow> 's AppNode \<Rightarrow> APIResponse \<times> 's AppNode" where
  "handleNetwork e hv n =
     (let n1 = update_network hv n;
          validators = validators_or_nil e n1;
          (bandwidthIn, bandwidthOut) = GetBandwidthStats (n_p2p n)
      in (ok_response (DMap
            [(''connected_peers'', metric_field (GetNetworkMetrics (n_metrics n1)) ''connected_peers''),
             (''total_validators'', DInt (int (length validators))),
             (''active_validators'', DInt (int (length (filter val_Participating validators)))),
             (''current_height'', du64 (Height (n_bc n1))), (''transaction_pool'', DInt (int (Pool_Size (n_txPool n1)))),
             (''average_block_time'', metric_field (GetConsensusMetrics (n_metrics n1)) ''block_time''),
             (''transaction_tps'', metric_field (GetPerformanceMetrics (n_metrics n1)) ''transaction_tps''),
             (''bandwidth_in'', du64 bandwidthIn), (''bandwidth_out'', du64 bandwidthOut)]), n1))"

definition handleValidators :: "'s env \<Rightarrow> 's AppNode \<Rightarrow> APIResponse" where
  "handleValidators e n =
     (case GetAllValidators (e_st e) (n_vr n) of
        Inl _ \<Rightarrow> error_response ''Failed to get validators'' 500
      | Inr validators \<Rightarrow>
          ok_response (DList (map (\<lambda>v. DMap
            [(''address'', daddr (val_Address v)), (''stake'', du64 (val_Stake v)),
             (''delegated_stake'', du64 (val_DelegatedStake v)),
             (''compute_reputation'', du64 (val_ComputeReputation v)),
             (''participating'', DBool (val_Participating v))]) validators)))"

definition handlePeers :: "'s env \<Rightarrow> host \<Rightarrow> 's AppNode \<Rightarrow> APIResponse" where
  "handlePeers e hv n =
     ok_response (DMap
       [(''peers'', DList (map (\<lambda>(peer, addr). DMap ((''id'', DText (lp_peer_encode (e_lp e) peer)) #
            (case addr of Some a \<Rightarrow> [(''address'', DText a), (''connected'', DBool True)]
             | None \<Rightarrow> [(''connected'', DBool False)]))) (host_peers hv))),
        (''total_peers'', DInt (int (length (host_peers hv)))), (''node_id'', daddr (n_address n)),
        (''listen_addr'', DText (GetListenAddr (n_p2p n))), (''listen_port'', DInt (host_listen_port hv))])"

definition handleMetrics :: "'s env \<Rightarrow> host \<Rightarrow> 's AppNode \<Rightarrow> APIResponse \<times> 's AppNode" where
  "handleMetrics e hv n =
     (let n1 = n\<lparr>n_metrics := UpdatePerformanceMetrics (e_now e) (host_alloc hv) (host_goroutines hv) (n_metrics n)\<rparr>;
          n2 = update_network hv n1;
          validators = validators_or_nil e n2;
          activeValidators = length (filter val_Participating validators);
          approvalRate = (if n_committee n2 \<noteq> []
                          then f64_div (f64_of_int (int activeValidators)) (f64_of_int (int (length (n_committee n2))))
                          else Fin 0);
          mc = UpdateStorageMetrics
                 (UpdateConsensusMetrics (n_metrics n2) (Height (n_bc n2)) (int (length (n_committee n2))) approvalRate)
                 (GetDatabaseSize (e_st e) (n_bc n2)) (of_nat (Pool_Size (n_txPool n2))) (Height (n_bc n2) + 1)
                 (int (length validators))
      in (ok_response (DMetrics (GetMetrics (host_timestamp hv) mc)), n2\<lparr>n_metrics := mc\<rparr>))"

section \<open>Blocks and transactions\<close>

definition tx_summary :: "Transaction \<Rightarrow> (string \<times> api_data) list" where
  "tx_summary tx =
     [(''hash'', dhash (tx_Hash tx)), (''from'', daddr (tx_From tx)), (''to'', daddr (tx_To tx)),
      (''value'', du64 (tx_Value tx)), (''fee'', du64 (tx_Fee tx)), (''nonce'', du64 (tx_Nonce tx)),
      (''type'', DText (tx_Type tx))]"

definition tx_details :: "Transaction \<Rightarrow> (string \<times> api_data) list" where
  "tx_details tx = tx_summary tx @ [(''timestamp'', DInt (sint (tx_Timestamp tx)))]"

definition count_types :: "Transaction list \<Rightarrow> (string, int) gomap" where
  "count_types txs =
     foldl (\<lambda>m tx. go_set m (tx_Type tx) ((case go_get m (tx_Type tx) of Some k \<Rightarrow> k | None \<Rightarrow> 0) + 1)) [] txs"

definition calculateTotalValue :: "Transaction list \<Rightarrow> u64" where
  "calculateTotalValue txs = foldl (\<lambda>t tx. t + tx_Value tx) 0 txs"

definition calculateTotalFees :: "Transaction list \<Rightarrow> u64" where
  "calculateTotalFees txs = foldl (\<lambda>t tx. t + tx_Fee tx) 0 txs"

definition block_summary :: "Block \<Rightarrow> api_data" where
  "block_summary b = DMap
     [(''height'', du64 (blk_Number b)), (''hash'', dhash (blk_Hash b)),
      (''previous_hash'', dhash (hdr_PreviousHash (blk_Header b))), (''proposer'', daddr (hdr_Proposer (blk_Header b))),
      (''timestamp'', DInt (sint (hdr_Timestamp (blk_Header b)))),
      (''transaction_count'', DInt (int (length (blk_Transactions b)))),
      (''total_value'', du64 (calculateTotalValue (blk_Transactions b))),
      (''total_fees'', du64 (calculateTotalFees (blk_Transactions b))),
      (''transaction_types'', DMap (map (\<lambda>(t, k). (t, DInt k)) (count_types (blk_Transactions b)))),
      (''transactions'', DList (map (\<lambda>tx. DMap (tx_summary tx)) (blk_Transactions b)))]"

text \<open>The loop of \<^verbatim>\<open>handleBlocks\<close>, over the heights from \<open>i - 1\<close> down to 0.\<close>

fun recent_blocks :: "(u64 \<Rightarrow> gerror + Block) \<Rightarrow> nat \<Rightarrow> nat \<Rightarrow> Block list \<Rightarrow> Block list" where
  "recent_blocks get limit 0 bs = bs"
| "recent_blocks get limit (Suc i) bs =
     (if length bs < limit
      then recent_blocks get limit i (case get (of_nat i) of Inl _ \<Rightarrow> bs | Inr b \<Rightarrow> bs @ [b])
      else bs)"

definition blocks_limit :: "string \<Rightarrow> nat" where
  "blocks_limit limitStr =
     (if limitStr = [] then 10
      else (case Atoi limitStr of Some parsed \<Rightarrow> if 0 < parsed then nat (min parsed 100) else 10 | None \<Rightarrow> 10))"

definition handleBlocks :: "'s env \<Rightarrow> 's AppNode \<Rightarrow> request \<Rightarrow> APIResponse" where
  "handleBlocks e n r =
     (let currentHeight = Height (n_bc n);
          blocks = recent_blocks (GetBlockByHeight (e_st e) (n_bc n)) (blocks_limit (rq_Query r ''limit''))
            (nat (sint (ucast currentHeight :: i64) + 1)) []
      in ok_response (DMap [(''blocks'', DList (map block_summary blocks)), (''total_blocks'', DInt (int (length blocks))),
           (''current_height'', du64 currentHeight)]))"

definition handleTransactionPool :: "'s AppNode \<Rightarrow> APIResponse" where
  "handleTransactionPool n =
     (let transactions = GetTransactions (n_txPool n)
      in ok_response (DMap
           [(''pool_size'', DInt (int (Pool_Size (n_txPool n)))),
            (''transactions'', DList (map (\<lambda>tx. DMap (tx_details tx)) transactions)),
            (''total_value'', du64 (calculateTotalValue transactions)),
            (''total_fees'', du64 (calculateTotalFees transactions)), (''node_address'', daddr (n_address n))]))"

text \<open>
  The loops of \<^verbatim>\<open>handleTransactionHistory\<close>.  The inner one takes a block's transactions into the pair of
  the remaining offset and the collected transactions; the outer one counts the unsigned
  height down, and is given fuel because it need not end.  The sum of limit and offset is a
  signed 64-bit number, negative when it overflows.
\<close>

fun collect :: "address option \<Rightarrow> nat \<Rightarrow> u64 \<Rightarrow> Transaction list \<Rightarrow> nat \<times> (Transaction \<times> u64) list \<Rightarrow> nat \<times> (Transaction \<times> u64) list" where
  "collect target limit h [] s = s"
| "collect target limit h (tx # txs) (offset, acc) =
     (if (case target of Some a \<Rightarrow> tx_From tx \<noteq> a \<and> tx_To tx \<noteq> a | None \<Rightarrow> False) then collect target limit h txs (offset, acc)
      else if 0 < offset then collect target limit h txs (offset - 1, acc)
      else if limit \<le> length acc then (offset, acc)
      else collect target limit h txs (offset, acc @ [(tx, h)]))"

fun history_loop :: "nat \<Rightarrow> (u64 \<Rightarrow> gerror + Block) \<Rightarrow> address option \<Rightarrow> nat \<Rightarrow> u64 \<Rightarrow> u64 \<Rightarrow>
    nat \<times> (Transaction \<times> u64) list \<Rightarrow> (Transaction \<times> u64) list option" where
  "history_loop 0 get target limit startHeight h s = None"
| "history_loop (Suc fuel) get target limit startHeight h (offset, acc) =
     (if startHeight \<le> h \<and> limit + offset < 2 ^ 63 \<and> length acc < limit + offset then
        history_loop fuel get target limit startHeight (h - 1)
          (case get h of Inl _ \<Rightarrow> (offset, acc) | Inr b \<Rightarrow> collect target limit h (blk_Transactions b) (offset, acc))
      else Some acc)"

definition history_limit :: "string \<Rightarrow> nat" where
  "history_limit limitStr = (case Atoi limitStr of Some l \<Rightarrow> if 0 < l \<and> l \<le> 1000 then nat l else 50 | None \<Rightarrow> 50)"

definition history_offset :: "string \<Rightarrow> nat" where
  "history_offset offsetStr = (case Atoi offsetStr of Some k \<Rightarrow> if 0 \<le> k then nat k else 0 | None \<Rightarrow> 0)"

text \<open>\<open>None\<close>: the loop did not end within the fuel.\<close>

definition handleTransactionHistory :: "nat \<Rightarrow> 's env \<Rightarrow> 's AppNode \<Rightarrow> request \<Rightarrow> APIResponse option" where
  "handleTransactionHistory fuel e n r =
     (let addr = rq_Query r ''address'';
          limit = history_limit (rq_Query r ''limit'');
          offset = history_offset (rq_Query r ''offset'')
      in case (if addr = [] then Inr None else map_sum id Some (HexToAddress addr)) of
           Inl _ \<Rightarrow> Some (error_response ''Invalid address format'' 400)
         | Inr target \<Rightarrow>
             let currentHeight = Height (n_bc n);
                 startHeight = (if 100 < currentHeight then currentHeight - 100 else 0)
             in map_option (\<lambda>transactions. ok_response (DMap
                  [(''transactions'', if transactions = [] then DStruct JNull else
                      DList (map (\<lambda>(tx, h). DMap (tx_details tx @
                        [(''block'', du64 h), (''confirmed'', DBool True)])) transactions)),
                   (''total'', DInt (int (length transactions))), (''limit'', DInt (int limit)), (''address'', DText addr)]))
                (history_loop fuel (GetBlockByHeight (e_st e) (n_bc n)) target limit startHeight currentHeight (offset, [])))"

section \<open>Creating transactions\<close>

text \<open>The conversion \<^verbatim>\<open>uint64(f)\<close> truncates; what it gives out of range depends on the machine.\<close>

definition u64_of_float :: "host \<Rightarrow> float64 \<Rightarrow> u64" where
  "u64_of_float hv f =
     (case f of Fin x \<Rightarrow> if 0 \<le> x \<and> x < 2 ^ 64 then of_int (floor x) else host_float_overflow hv f
      | _ \<Rightarrow> host_float_overflow hv f)"

definition positive_float :: "float64 \<Rightarrow> bool" where
  "positive_float f = (case f of Fin x \<Rightarrow> 0 < x | PInf \<Rightarrow> True | NInf \<Rightarrow> False | NaN \<Rightarrow> True)"

definition api_types :: "string list" where
  "api_types = [''transfer'', ''stake'', ''unstake'', ''delegate'', ''register_validator'']"

definition insufficient_text :: "u64 \<Rightarrow> u64 \<Rightarrow> u64 \<Rightarrow> u64 \<Rightarrow> string" where
  "insufficient_text required amount fee available =
     ''Insufficient balance. Required: '' @ print_int (uint required) @ '' (amount: '' @ print_int (uint amount) @
     '' + fee: '' @ print_int (uint fee) @ ''), Available: '' @ print_int (uint available)"

definition api_transaction :: "'s env \<Rightarrow> 's AppNode \<Rightarrow> address \<Rightarrow> u64 \<Rightarrow> u64 \<Rightarrow> u64 \<Rightarrow> string \<Rightarrow> Transaction" where
  "api_transaction e n to amount fee nonce type =
     Transaction_Sign (e_cr e)
       \<lparr>tx_From = n_address n, tx_To = to, tx_Value = amount, tx_Nonce = nonce, tx_Fee = fee, tx_Timestamp = now64 e,
        tx_Type = type, tx_Signature = [], tx_Hash = 0, tx_Used = False\<rparr> (n_privKey n)"

text \<open>After the checks: sign, add to the pool, broadcast the encoded transaction, record it.\<close>

definition submit_transaction ::
  "'s env \<Rightarrow> host \<Rightarrow> 's AppNode \<Rightarrow> Transaction \<Rightarrow> Account \<Rightarrow> u64 \<Rightarrow> APIResponse \<times> 's AppNode" where
  "submit_transaction e hv n tx sender totalRequired =
     (case Pool_AddTransaction (e_cr e) (n_txPool n) tx (pub_key (e_cr e) (n_privKey n)) (n_state n) of
        (Some err, tp, state) \<Rightarrow>
          (error_response (''Failed to add transaction to pool: '' @ host_error_text hv err) 500,
           n\<lparr>n_txPool := tp, n_state := state\<rparr>)
      | (None, tp, state) \<Rightarrow>
          let n1 = snd (node_publish e (n\<lparr>n_txPool := tp, n_state := state\<rparr>) TransactionTopic (Transaction_Encode tx));
              n2 = n1\<lparr>n_metrics := RecordTransaction (e_now e) (n_metrics n1)\<rparr>
          in ((ok_response (DMap
                 [(''transaction'', DMap (tx_details tx)),
                  (''summary'', DMap
                     [(''total_cost'', du64 totalRequired), (''balance_before'', du64 (acc_Balance sender)),
                      (''balance_after'', du64 (acc_Balance sender - totalRequired)),
                      (''pool_size'', DInt (int (Pool_Size (n_txPool n2))))]),
                  (''status'', DText ''broadcasted'')]))
                \<lparr>ar_Message := ''Transaction created and broadcast successfully''\<rparr>, n2))"

definition handleCreateTransaction ::
  "'s env \<Rightarrow> host \<Rightarrow> 's AppNode \<Rightarrow> string \<Rightarrow> create_body option \<Rightarrow> APIResponse \<times> 's AppNode" where
  "handleCreateTransaction e hv n method body =
     (if method \<noteq> ''POST'' then (error_response ''Method not allowed'' 405, n)
      else
        (case body of
           None \<Rightarrow> (error_response ''Invalid request body'' 400, n)
         | Some b \<Rightarrow>
             if cb_to b = [] then (error_response ''Missing 'to' address'' 400, n)
             else if \<not> positive_float (cb_value b) then (error_response ''Value must be greater than 0'' 400, n)
             else
               (let feeF = (if positive_float (cb_fee b) then cb_fee b else Fin 1);
                    amount = u64_of_float hv (cb_value b); fee = u64_of_float hv feeF
                in case HexToAddress (cb_to b) of
                     Inl err \<Rightarrow> (error_response (''Invalid recipient address: '' @ host_error_text hv err) 400, n)
                   | Inr toAddr \<Rightarrow>
                       if toAddr = n_address n then (error_response ''Cannot send to yourself'' 400, n)
                       else
                         (case GetAccount (n_state n) (n_address n) of
                            Inl _ \<Rightarrow> (error_response ''Sender account not found'' 404, n)
                          | Inr sender \<Rightarrow>
                              let totalRequired = amount + fee;
                                  txType = (if cb_type b = [] then ''transfer'' else cb_type b)
                              in if acc_Balance sender < totalRequired
                                 then (error_response (insufficient_text totalRequired amount fee (acc_Balance sender)) 400, n)
                                 else if txType \<notin> set api_types
                                 then (error_response (''Invalid transaction type. Must be one of: transfer, stake, '' @
                                         ''unstake, delegate, register_validator'') 400, n)
                                 else submit_transaction e hv n
                                        (api_transaction e n toAddr amount fee (acc_Nonce sender + 1) txType)
                                        sender totalRequired))))"

section \<open>Accounts, blocks and transactions by name\<close>

definition has_suffix :: "string \<Rightarrow> string \<Rightarrow> bool" where
  "has_suffix s x \<longleftrightarrow> length x < length s \<and> drop (length s - length x) s = x"

definition handleAccount :: "'s AppNode \<Rightarrow> request \<Rightarrow> APIResponse" where
  "handleAccount n r =
     (let path = rq_Path r;
          addrStr0 = drop (length ''/accounts/'') path;
          addrStr = (if has_suffix addrStr0 ''/balance'' then take (length addrStr0 - 8) addrStr0 else addrStr0)
      in case HexToAddress addrStr of
           Inl _ \<Rightarrow> error_response ''Invalid address'' 400
         | Inr addr \<Rightarrow>
             (case GetAccount (n_state n) addr of
                Inl _ \<Rightarrow> error_response ''Account not found'' 404
              | Inr account \<Rightarrow>
                  if has_suffix path ''/balance''
                  then ok_response (DMap [(''address'', daddr addr), (''balance'', du64 (acc_Balance account))])
                  else ok_response (DMap [(''address'', daddr addr), (''balance'', du64 (acc_Balance account)),
                         (''nonce'', du64 (acc_Nonce account))])))"

definition handleBlockByHeight :: "'s env \<Rightarrow> 's AppNode \<Rightarrow> request \<Rightarrow> APIResponse" where
  "handleBlockByHeight e n r =
     (if rq_Method r \<noteq> ''GET'' then error_response ''Method not allowed'' 405
      else if \<not> has_prefix (rq_Path r) ''/blocks/'' then error_response ''Invalid path'' 400
      else
        (case ParseUint (drop (length ''/blocks/'') (rq_Path r)) of
           None \<Rightarrow> error_response ''Invalid block height'' 400
         | Some height \<Rightarrow>
             (case GetBlockByHeight (e_st e) (n_bc n) height of
                Inl _ \<Rightarrow> error_response ''Block not found'' 404
              | Inr block \<Rightarrow> ok_response (DStruct (block_json block)))))"

definition handleTransactionByHash :: "'s env \<Rightarrow> 's AppNode \<Rightarrow> request \<Rightarrow> APIResponse" where
  "handleTransactionByHash e n r =
     (if rq_Method r \<noteq> ''GET'' then error_response ''Method not allowed'' 405
      else
        (case (if has_prefix (rq_Path r) ''/api/v1/transactions/'' then Some (drop (length ''/api/v1/transactions/'') (rq_Path r))
               else if has_prefix (rq_Path r) ''/transactions/'' then Some (drop (length ''/transactions/'') (rq_Path r))
               else None) of
           None \<Rightarrow> error_response ''Invalid path'' 400
         | Some txHashStr \<Rightarrow>
             if length txHashStr \<noteq> 64 then error_response ''Invalid transaction hash length'' 400
             else
               (case hex_decode txHashStr of
                  None \<Rightarrow> error_response ''Invalid transaction hash format'' 400
                | Some txHashBytes \<Rightarrow>
                    let txHash = hash_of_bytes txHashBytes
                    in (case GetTransactionByHash (e_st e) (n_bc n) txHash of
                          Inl _ \<Rightarrow> error_response ''Transaction not found'' 404
                        | Inr (tx, blockHeight) \<Rightarrow>
                            ok_response (DMap (tx_details tx @
                              [(''block_height'', du64 blockHeight),
                               (''in_pool'', DBool (list_ex (\<lambda>p. tx_Hash p = txHash) (GetTransactions (n_txPool n)))),
                               (''confirmed'', DBool True)]))))))"

section \<open>Snapshots, statistics, shutdown\<close>

text \<open>\<^verbatim>\<open>json.NewDecoder(body).Decode\<close> reads the first value of the body and leaves the rest.\<close>

definition decode_first :: "bytes \<Rightarrow> json option" where
  "decode_first s = map_option fst (parse_value (Suc (length s)) s)"

text \<open>A slice of pointers to accounts; \<open>None\<close> is a nil pointer, the decoding of \<^verbatim>\<open>null\<close>.\<close>

definition json_accounts :: "json \<Rightarrow> Account option list option" where
  "json_accounts v = json_list (\<lambda>j. if j = JNull then Some None else map_option Some (json_account j)) v"

text \<open>
  Importing decoded accounts: the accounts up to the first nil pointer are stored, a nil pointer panics.
  The first component says whether the import came to its end.
\<close>

definition import_decoded :: "crypto \<Rightarrow> State \<Rightarrow> Account option list \<Rightarrow> bool \<times> State" where
  "import_decoded cr s accounts =
     (None \<notin> set accounts, ImportSnapshot cr s (map the (takeWhile (\<lambda>a. a \<noteq> None) accounts)))"

text \<open>
  What a client gets: a response, a bare status, or, when the handler panicked, a closed
  connection (the server recovers from panics of a handler).
\<close>

datatype api_reply = Reply APIResponse | Bare int | Aborted

definition handleStateSnapshot :: "'s env \<Rightarrow> 's AppNode \<Rightarrow> request \<Rightarrow> api_reply \<times> 's AppNode" where
  "handleStateSnapshot e n r =
     (if rq_Method r = ''GET'' then
        (case ExportSnapshot (n_state n) of
           Inl _ \<Rightarrow> (Reply (error_response ''Failed to export snapshot'' 500), n)
         | Inr accounts \<Rightarrow> (Reply (ok_response (DStruct (list_json account_json accounts))), n))
      else if rq_Method r = ''POST'' then
        (case Option.bind (decode_first (rq_Body r)) json_accounts of
           None \<Rightarrow> (Reply (error_response ''Invalid snapshot data'' 400), n)
         | Some accounts \<Rightarrow>
             (case import_decoded (e_cr e) (n_state n) accounts of
                (done, state) \<Rightarrow>
                  (if done
                   then Reply \<lparr>ar_Success = True, ar_Data = None, ar_Error = [], ar_Code = 0,
                               ar_Message = ''Snapshot imported successfully''\<rparr>
                   else Aborted, n\<lparr>n_state := state\<rparr>)))
      else (Bare 405, n))"

definition handleBatchStats :: "'s AppNode \<Rightarrow> APIResponse" where
  "handleBatchStats n =
     (let s = GetBatchStatistics (n_txPool n)
      in ok_response (DMap
           [(''total_transactions'', DInt (int (stat_total_transactions s))),
            (''valid_transactions'', DInt (int (stat_valid_transactions s))),
            (''used_transactions'', DInt (int (stat_used_transactions s))),
            (''total_fees'', du64 (stat_total_fees s)), (''average_fee'', DMetric (MFloat (stat_average_fee s))),
            (''max_batch_size'', DInt (stat_max_batch_size s)), (''max_batch_fee'', du64 (stat_max_batch_fee s))]))"

section \<open>Endpoints outside the API prefix\<close>

definition handleLegacyHealth :: "host \<Rightarrow> (string \<times> api_data) list" where
  "handleLegacyHealth hv = [(''status'', DText ''healthy''), (''time'', DText (host_timestamp hv))]"

definition handleLegacyMetrics :: "host \<Rightarrow> 's AppNode \<Rightarrow> (string \<times> api_data) list" where
  "handleLegacyMetrics hv n =
     [(''block_height'', du64 (Height (n_bc n))), (''peer_count'', DInt (int (length (host_peers hv)))),
      (''uptime'', DText (host_no_time hv))]"

text \<open>The fields of the struct \<^verbatim>\<open>ShutdownStatus\<close>, the second a map.\<close>

definition handleShutdownStatus :: "'w GracefulShutdown \<Rightarrow> (string \<times> api_data) list" where
  "handleShutdownStatus gs =
     (case Status gs of st \<Rightarrow>
        [(''Reason'', DText (ss_Reason st)),
         (''Components'', DMap (map (\<lambda>(c, s). (c, DText s)) (ss_Components st)))])"

text \<open>The shutdown that a POST starts after a delay; the first component says whether the request was accepted.\<close>

definition handleShutdown :: "'w GracefulShutdown \<Rightarrow> request \<Rightarrow> 'w \<Rightarrow> bool \<times> 'w GracefulShutdown \<times> 'w" where
  "handleShutdown gs r w =
     (if rq_Method r \<noteq> ''POST'' then (False, gs, w) else (True, Shutdown gs ''API request'' w))"

definition handleNodeInfo :: "host \<Rightarrow> 's AppNode \<Rightarrow> (string \<times> api_data) list" where
  "handleNodeInfo hv n =
     [(''address'', daddr (n_address n)), (''port'', DInt (host_listen_port hv)),
      (''peers'', DInt (int (length (host_peers hv))))]"

section \<open>Encoding\<close>

text \<open>
  \<^verbatim>\<open>encoding/json\<close> on the values of responses: maps are written with sorted keys, and infinite or
  undefined numbers are an error (\<open>None\<close>).
\<close>

definition object_text :: "(string \<times> string option) list \<Rightarrow> string option" where
  "object_text kvs =
     (if None \<in> snd ` set kvs then None
      else Some (CHR ''{'' # commas (map (\<lambda>(k, s). print_string k @ CHR '':'' # the s) kvs) @ ''}''))"

definition array_text :: "string option list \<Rightarrow> string option" where
  "array_text vs = (if None \<in> set vs then None else Some (CHR ''['' # commas (map the vs) @ '']''))"

definition float_text :: "host \<Rightarrow> float64 \<Rightarrow> string option" where
  "float_text hv f = (case f of Fin x \<Rightarrow> Some (host_float_text hv x) | _ \<Rightarrow> None)"

primrec metric_text :: "host \<Rightarrow> metric \<Rightarrow> string option" where
  "metric_text hv (MInt i) = Some (print_int i)"
| "metric_text hv (MFloat f) = float_text hv f"
| "metric_text hv (MBool b) = Some (print_json (JBool b))"
| "metric_text hv (MText s) = Some (print_string s)"
| "metric_text hv (MMap kvs) = object_text (sort_key fst (map (map_prod id (metric_text hv)) kvs))"

primrec api_text :: "host \<Rightarrow> api_data \<Rightarrow> string option" where
  "api_text hv (DInt i) = Some (print_int i)"
| "api_text hv (DBool b) = Some (print_json (JBool b))"
| "api_text hv (DText s) = Some (print_string s)"
| "api_text hv (DMetric m) = metric_text hv m"
| "api_text hv (DMetrics ms) = metric_text hv (MMap ms)"
| "api_text hv (DStruct v) = Some (print_json v)"
| "api_text hv (DList ds) = array_text (map (api_text hv) ds)"
| "api_text hv (DMap kvs) = object_text (sort_key fst (map (map_prod id (api_text hv)) kvs))"

record http_response =
  hr_Status :: int
  hr_Body :: bytes

text \<open>An encoding error is ignored and leaves the body empty.\<close>

definition encode_body :: "string option \<Rightarrow> bytes" where
  "encode_body s = (case s of Some s \<Rightarrow> s @ [CHR 0x0A] | None \<Rightarrow> [])"

definition response_text :: "host \<Rightarrow> APIResponse \<Rightarrow> string option" where
  "response_text hv resp = object_text
     ([(''success'', Some (print_json (JBool (ar_Success resp))))] @
      (case ar_Data resp of None \<Rightarrow> [] | Some d \<Rightarrow> [(''data'', api_text hv d)]) @
      (if ar_Error resp = [] then [] else [(''error'', Some (print_string (ar_Error resp)))]) @
      (if ar_Code resp = 0 then [] else [(''code'', Some (print_int (ar_Code resp)))]) @
      (if ar_Message resp = [] then [] else [(''message'', Some (print_string (ar_Message resp)))]))"

definition writeJSON :: "host \<Rightarrow> APIResponse \<Rightarrow> http_response" where
  "writeJSON hv response =
     \<lparr>hr_Status = (if ar_Code response \<noteq> 0 then ar_Code response else 200),
      hr_Body = encode_body (response_text hv response)\<rparr>"

definition write_map :: "host \<Rightarrow> (string \<times> api_data) list \<Rightarrow> http_response" where
  "write_map hv kvs = \<lparr>hr_Status = 200, hr_Body = encode_body (api_text hv (DMap kvs))\<rparr>"

definition not_found :: http_response where
  "not_found = \<lparr>hr_Status = 404, hr_Body = ''404 page not found'' @ [CHR 0x0A]\<rparr>"

section \<open>Routes\<close>

text \<open>
  The patterns registered under \<^verbatim>\<open>/api/v1\<close>: exact paths, the subtree of transactions, and the
  dynamic handler for every other path.
\<close>

datatype endpoint =
    Health | NodeStatus | NetworkInfo | Validators | Blocks | PoolContents | History | CreateTransaction | Peers | MetricsInfo
  | BatchStats | StateSnapshot | TransactionByHash | AccountInfo | BlockByHeight | NotFound

definition exact_routes :: "(string \<times> endpoint) list" where
  "exact_routes =
     [(''/health'', Health), (''/status'', NodeStatus), (''/network'', NetworkInfo), (''/validators'', Validators),
      (''/blocks'', Blocks), (''/transactions/pool'', PoolContents), (''/transactions/history'', History),
      (''/transactions'', CreateTransaction), (''/peers'', Peers), (''/metrics'', MetricsInfo),
      (''/batch-stats'', BatchStats), (''/state/snapshot'', StateSnapshot)]"

definition handleDynamic :: "string \<Rightarrow> endpoint" where
  "handleDynamic path =
     (if has_prefix path ''/accounts/'' then AccountInfo
      else if has_prefix path ''/blocks/'' then BlockByHeight
      else NotFound)"

definition api_route :: "string \<Rightarrow> endpoint" where
  "api_route path =
     (case map_of exact_routes path of
        Some ep \<Rightarrow> ep
      | None \<Rightarrow> if has_prefix path ''/transactions/'' then TransactionByHash else handleDynamic path)"

text \<open>
  The handlers behind the routes, on a path without the prefix \<^verbatim>\<open>/api/v1\<close>.  \<open>None\<close>: the
  history loop did not end within the fuel.
\<close>

definition serve_v1 :: "nat \<Rightarrow> 's env \<Rightarrow> host \<Rightarrow> 's AppNode \<Rightarrow> request \<Rightarrow> (api_reply \<times> 's AppNode) option" where
  "serve_v1 fuel e hv n r =
     (case api_route (rq_Path r) of
        Health \<Rightarrow> Some (Reply (handleHealth e n), n)
      | NodeStatus \<Rightarrow> Some (Reply (handleStatus e hv n), n)
      | NetworkInfo \<Rightarrow> Some (apfst Reply (handleNetwork e hv n))
      | Validators \<Rightarrow> Some (Reply (handleValidators e n), n)
      | Blocks \<Rightarrow> Some (Reply (handleBlocks e n r), n)
      | PoolContents \<Rightarrow> Some (Reply (handleTransactionPool n), n)
      | History \<Rightarrow> map_option (\<lambda>resp. (Reply resp, n)) (handleTransactionHistory fuel e n r)
      | CreateTransaction \<Rightarrow> Some (apfst Reply (handleCreateTransaction e hv n (rq_Method r) (host_create_body hv (rq_Body r))))
      | Peers \<Rightarrow> Some (Reply (handlePeers e hv n), n)
      | MetricsInfo \<Rightarrow> Some (apfst Reply (handleMetrics e hv n))
      | BatchStats \<Rightarrow> Some (Reply (handleBatchStats n), n)
      | StateSnapshot \<Rightarrow> Some (handleStateSnapshot e n r)
      | TransactionByHash \<Rightarrow> Some (Reply (handleTransactionByHash e n r), n)
      | AccountInfo \<Rightarrow> Some (Reply (handleAccount n r), n)
      | BlockByHeight \<Rightarrow> Some (Reply (handleBlockByHeight e n r), n)
      | NotFound \<Rightarrow> Some (Bare 404, n))"

definition write_reply :: "host \<Rightarrow> api_reply \<Rightarrow> http_response option" where
  "write_reply hv rep =
     (case rep of
        Reply resp \<Rightarrow> Some (writeJSON hv resp)
      | Bare code \<Rightarrow> Some (if code = 404 then not_found else \<lparr>hr_Status = code, hr_Body = []\<rparr>)
      | Aborted \<Rightarrow> None)"

text \<open>
  The server: the routes of \<^verbatim>\<open>Start\<close> on a request in clean form.  The hooks of the shutdown act on the
  node, which is \<open>None\<close> after a panic outside a handler.  The response is \<open>None\<close> when the
  connection is closed without one.
\<close>

definition serve ::
  "nat \<Rightarrow> 's env \<Rightarrow> host \<Rightarrow> 's AppNode option GracefulShutdown \<Rightarrow> 's AppNode \<Rightarrow> request \<Rightarrow>
   (http_response option \<times> 's AppNode option \<times> 's AppNode option GracefulShutdown) option" where
  "serve fuel e hv gs n r =
     (if rq_Path r = ''/health'' then Some (Some (write_map hv (handleLegacyHealth hv)), Some n, gs)
      else if has_prefix (rq_Path r) ''/api/v1/'' then
        map_option (\<lambda>(rep, n'). (write_reply hv rep, Some n', gs))
          (serve_v1 fuel e hv n (r\<lparr>rq_Path := drop (length ''/api/v1'') (rq_Path r)\<rparr>))
      else if rq_Path r = ''/metrics'' then Some (Some (write_map hv (handleLegacyMetrics hv n)), Some n, gs)
      else if rq_Path r = ''/shutdown/status'' then
        Some (Some \<lparr>hr_Status = 200, hr_Body = encode_body (object_text
          (map (map_prod id (api_text hv)) (handleShutdownStatus gs)))\<rparr>, Some n, gs)
      else if rq_Path r = ''/shutdown'' then
        (case handleShutdown gs r (Some n) of
           (accepted, gs', n') \<Rightarrow>
             Some (Some (if accepted then write_map hv [(''message'', DText ''Shutdown initiated'')]
                         else \<lparr>hr_Status = 405, hr_Body = ''Method not allowed'' @ [CHR 0x0A]\<rparr>), n', gs'))
      else if rq_Path r = ''/node/info'' then Some (Some (write_map hv (handleNodeInfo hv n)), Some n, gs)
      else Some (Some not_found, Some n, gs))"

section \<open>Accepting a signed transfer\<close>

lemma Pool_accepts_signed:
  assumes "ecdsa_ok cr" "state_ok cr s" and "tx_Type t = ''transfer''" and "\<not> in_pool tp (tx_Hash (Transaction_Sign cr t sk))"
    and "a = pubKeyToAddress cr (pub_key cr sk)" "tx_Nonce t = acc_Nonce (acct s a) + 1"
    and "\<not> acc_Balance (acct s a) < tx_Value t + tx_Fee t"
  shows "Pool_AddTransaction cr tp (Transaction_Sign cr t sk) (pub_key cr sk) s =
    (None, put_tx tp (Transaction_Sign cr t sk), s)"
proof -
  have "check_sender cr s (Transaction_Sign cr t sk) (pub_key cr sk) = (None, s)"
    using assms(2,5-7) by (simp add: check_sender_def GetAccount_ok Let_def)
  then show ?thesis using assms(3,4) Verify_Sign [OF assms(1)] by (simp add: Pool_AddTransaction_def)
qed

section \<open>The history loop\<close>

text \<open>Transactions that the address filter lets through.\<close>

definition matches :: "address option \<Rightarrow> Transaction \<Rightarrow> bool" where
  "matches target tx \<longleftrightarrow> (case target of Some a \<Rightarrow> tx_From tx = a \<or> tx_To tx = a | None \<Rightarrow> True)"

lemma collect_none: "\<forall>tx \<in> set txs. \<not> matches target tx \<Longrightarrow> collect target limit h txs s = s"
  by (induction target limit h txs s rule: collect.induct) (auto simp: matches_def split: option.splits)

lemma Address_ToHex_nonempty: "Address_ToHex a \<noteq> []"
proof
  assume "Address_ToHex a = []"
  then show False using HexToAddress_ToHex [of a] by (simp add: HexToAddress_def)
qed

interpretation api_history: countdown "\<lambda>fuel h s. history_loop fuel get target limit startHeight h s" startHeight
  "\<lambda>(offset, acc). limit + offset < 2 ^ 63 \<and> length acc < limit + offset"
  "\<lambda>h (offset, acc). case get h of Inl _ \<Rightarrow> (offset, acc) | Inr b \<Rightarrow> collect target limit h (blk_Transactions b) (offset, acc)" snd
  for get target limit startHeight
  by unfold_locales (auto split: if_splits)

lemma history_loop_stuck:
  assumes "\<forall>h b. get h = Inr b \<longrightarrow> (\<forall>tx \<in> set (blk_Transactions b). \<not> matches target tx)" and "length acc < limit + offset"
    and "limit + offset < 2 ^ 63"
  shows "history_loop fuel get target limit 0 h (offset, acc) = None"
  by (rule api_history.stuck [where P = "\<lambda>s. s = (offset, acc)"])
    (use assms in \<open>auto simp: collect_none split: sum.split\<close>)

section \<open>Properties\<close>

text \<open>
  C32: The history endpoint of a young chain does not answer.  Heights are counted down as unsigned
  numbers until they fall below the start height; with at most 100 blocks the start height is 0 and the
  condition always holds, so that a request for an address (or any request, before the first
  transaction) that has no transaction in the chain runs for ever.  With more than 100 blocks every request is answered, after at most 102 iterations.
\<close>

theorem history_request_diverges:
  assumes "rq_Query r ''address'' = Address_ToHex a"
    and "\<forall>h b. GetBlockByHeight (e_st e) (n_bc n) h = Inr b \<longrightarrow> (\<forall>tx \<in> set (blk_Transactions b). tx_From tx \<noteq> a \<and> tx_To tx \<noteq> a)"
    and "history_limit (rq_Query r ''limit'') + history_offset (rq_Query r ''offset'') < 2 ^ 63"
  shows "if Height (n_bc n) \<le> 100 then handleTransactionHistory fuel e n r = None
    else handleTransactionHistory 102 e n r \<noteq> None"
proof -
  let ?get = "GetBlockByHeight (e_st e) (n_bc n)" and ?limit = "history_limit (rq_Query r ''limit'')"
    and ?offset = "history_offset (rq_Query r ''offset'')"
  note ne = Address_ToHex_nonempty [of a]
  have lim: "0 < ?limit" by (simp add: history_limit_def split: option.split)
  show ?thesis
  proof (cases "Height (n_bc n) \<le> 100")
    case True
    have "history_loop fuel ?get (Some a) ?limit 0 (Height (n_bc n)) (?offset, []) = None"
      by (rule history_loop_stuck) (use assms(2,3) lim in \<open>auto simp: matches_def\<close>)
    then show ?thesis
      using True assms(1) ne by (simp add: handleTransactionHistory_def Let_def HexToAddress_ToHex not_less [symmetric])
  next
    case False
    obtain ts where "history_loop 102 ?get (Some a) ?limit (Height (n_bc n) - 100) (Height (n_bc n)) (?offset, []) = Some ts"
      using api_history.window_ends [OF False refl] by blast
    then show ?thesis
      using False above_hundred(3) [OF False] assms(1) ne
      by (simp add: handleTransactionHistory_def Let_def HexToAddress_ToHex del: history_loop.simps)
  qed
qed

theorem history_request_diverges_witness:
  "\<forall>fuel. handleTransactionHistory fuel demo_env (demo_node [] ''me'' [])
     \<lparr>rq_Method = ''GET'', rq_Path = ''/transactions/history'', rq_Query = (\<lambda>k. if k = ''address'' then Address_ToHex 5 else []),
      rq_Body = []\<rparr> = None"
proof
  fix fuel
  let ?n = "demo_node [] ''me'' []"
  have "blk_Transactions b = []" if "GetBlockByHeight MemoryStore_ops demo_chain h = Inr b" for h b
  proof -
    have "bc_genesisBlock demo_chain = createGenesisBlock demo_crypto" "bc_currentHeight demo_chain = 0"
      using demo_chain_facts(2,4) by (simp_all add: chain_ok_def Height_def)
    then have "b = createGenesisBlock demo_crypto" using that by (auto simp: GetBlockByHeight_def word_neq_0_conv split: if_splits)
    then show ?thesis by (simp add: createGenesisBlock_def NewBlock_def Let_def)
  qed
  moreover have "Height (n_bc ?n) \<le> 100" using demo_chain_facts(4) by (simp add: demo_node_def)
  moreover have "n_bc ?n = demo_chain" by (simp add: demo_node_def)
  moreover have "history_limit [] + history_offset [] < 2 ^ 63" by (simp add: history_limit_def history_offset_def Atoi_def)
  ultimately show "handleTransactionHistory fuel demo_env ?n
     \<lparr>rq_Method = ''GET'', rq_Path = ''/transactions/history'', rq_Query = (\<lambda>k. if k = ''address'' then Address_ToHex 5 else []),
      rq_Body = []\<rparr> = None"
    using history_request_diverges [of "\<lparr>rq_Method = ''GET'', rq_Path = ''/transactions/history'',
        rq_Query = (\<lambda>k. if k = ''address'' then Address_ToHex 5 else []), rq_Body = []\<rparr>" 5 demo_env ?n fuel] by auto
qed

text \<open>What other nodes read from a bare transaction: a message without transaction and key.\<close>

lemma bare_transaction_decodes:
  "NetworkTransaction_Decode (Transaction_Encode tx) = Inr \<lparr>ntx_Tx = None, ntx_PubKey = None\<rparr>"
proof -
  have "json_network_transaction (transaction_json t) = Some \<lparr>ntx_Tx = None, ntx_PubKey = None\<rparr>" for t
    by (simp add: json_network_transaction_def transaction_json_def field_def lower_def)
  then show ?thesis by (simp add: NetworkTransaction_Decode_def Transaction_Encode_def parse_print_json)
qed

lemma submit_ok:
  assumes "submit_transaction e hv n tx sender req = (resp, n')" "ar_Success resp"
  obtains tp s where "Pool_AddTransaction (e_cr e) (n_txPool n) tx (pub_key (e_cr e) (n_privKey n)) (n_state n) = (None, tp, s)"
    "n_txPool n' = tp" "p2p_sent (n_p2p n') = p2p_sent (n_p2p (snd (node_publish e n TransactionTopic (Transaction_Encode tx))))"
  using assms
  by (auto simp: submit_transaction_def Let_def error_response_def node_publish_sent split: prod.splits option.splits)

lemma create_ok:
  assumes "handleCreateTransaction e hv n m body = (resp, n')" "ar_Success resp"
  obtains tx sender req where "submit_transaction e hv n tx sender req = (resp, n')"
    "tx_From tx = n_address n" "tx_To tx \<noteq> n_address n" "tx_Nonce tx = acc_Nonce sender + 1"
    "GetAccount (n_state n) (n_address n) = Inr sender" "tx_Value tx + tx_Fee tx \<le> acc_Balance sender"
proof -
  obtain b where b: "body = Some b" "m = ''POST''"
    using assms by (auto simp: handleCreateTransaction_def error_response_def split: if_splits option.splits)
  obtain toAddr sender where "HexToAddress (cb_to b) = Inr toAddr" "GetAccount (n_state n) (n_address n) = Inr sender"
    using assms b by (auto simp: handleCreateTransaction_def error_response_def Let_def split: if_splits sum.splits)
  note found = this
  define amount fee type where "amount = u64_of_float hv (cb_value b)"
    and "fee = u64_of_float hv (if positive_float (cb_fee b) then cb_fee b else Fin 1)"
    and "type = (if cb_type b = [] then ''transfer'' else cb_type b)"
  note defs = amount_def [symmetric] fee_def [symmetric] type_def [symmetric]
  let ?tx = "api_transaction e n toAddr amount fee (acc_Nonce sender + 1) type"
  have "submit_transaction e hv n ?tx sender (amount + fee) = (resp, n')" "toAddr \<noteq> n_address n"
    "\<not> acc_Balance sender < amount + fee"
    using assms b found unfolding handleCreateTransaction_def Let_def
    by (simp_all add: error_response_def defs split: if_splits) auto
  then show ?thesis
    using found by (intro that [of ?tx sender "amount + fee"]) (simp_all add: api_transaction_def)
qed

text \<open>
  C31: A transaction created over HTTP stays on its node.  The endpoint answers ``broadcasted'',
  puts the transaction into its own pool and publishes the bare transaction; the nodes that receive it
  expect a transaction together with the sender's key, find neither, and raise the score of the peer it came from.
\<close>

theorem api_transaction_not_received:
  assumes "handleCreateTransaction e hv n method body = (resp, n')" and "ar_Success resp"
    and "TransactionTopic \<in> set (p2p_topics (n_p2p n))" and "\<forall>d. lp_publish (e_lp e) TransactionTopic d"
  shows "\<exists>tx. in_pool (n_txPool n') (tx_Hash tx) \<and> tx_From tx = n_address n \<and>
    p2p_sent (n_p2p n') = p2p_sent (n_p2p n) @ [(TransactionTopic, Transaction_Encode tx)] \<and>
    (\<forall>e' m peer. handleTransaction e' m \<lparr>msg_Data = Transaction_Encode tx, msg_ReceivedFrom = peer\<rparr> =
       penalize e' m peer 1 ''nil transaction in message'')"
proof -
  obtain tx sender req where tx: "submit_transaction e hv n tx sender req = (resp, n')" "tx_From tx = n_address n"
    by (rule create_ok [OF assms(1,2)])
  obtain tp s where "Pool_AddTransaction (e_cr e) (n_txPool n) tx (pub_key (e_cr e) (n_privKey n)) (n_state n) = (None, tp, s)"
    "n_txPool n' = tp" "p2p_sent (n_p2p n') = p2p_sent (n_p2p (snd (node_publish e n TransactionTopic (Transaction_Encode tx))))"
    by (rule submit_ok [OF tx(1) assms(2)])
  moreover from this(1) have "in_pool tp (tx_Hash tx)"
    by (auto simp: Pool_AddTransaction_def in_pool_def put_tx_def split: if_splits prod.splits option.splits)
  ultimately show ?thesis
    using tx(2) assms(3,4)
    by (intro exI [of _ tx]) (simp add: node_publish_sent handleTransaction_def bare_transaction_decodes)
qed

definition demo_host :: host where
  "demo_host = \<lparr>host_peers = [], host_listen_port = 8080, host_alloc = 0, host_goroutines = 1, host_timestamp = [],
     host_no_time = [],
     host_float_text = (\<lambda>_. ''0''), host_create_body = (\<lambda>_. None), host_error_text = (\<lambda>_. []), host_float_overflow = (\<lambda>_. 0)\<rparr>"

text \<open>A node whose address is that of its key, with a funded account.\<close>

definition funded_node :: "string list \<Rightarrow> MemoryStore AppNode" where
  "funded_node topics = (demo_node topics ''me'' [])
     \<lparr>n_address := pubKeyToAddress demo_crypto (pub_key demo_crypto ''key''), n_state := key_state 100\<rparr>"

lemma funded_node_simps [simp]:
  "n_address (funded_node ts) = pubKeyToAddress demo_crypto (pub_key demo_crypto ''key'')" "n_state (funded_node ts) = key_state 100"
  "n_txPool (funded_node ts) = NewTransactionPool" "n_privKey (funded_node ts) = ''key''"
  "p2p_topics (n_p2p (funded_node ts)) = ts" "p2p_sent (n_p2p (funded_node ts)) = []"
  by (simp_all add: funded_node_def demo_node_def)

theorem api_transaction_not_received_witness:
  "\<exists>resp n' dat. handleCreateTransaction demo_env demo_host (funded_node [TransactionTopic]) ''POST''
      (Some \<lparr>cb_to = Address_ToHex (n_address (funded_node []) + 1), cb_value = Fin 10, cb_fee = Fin 1, cb_type = []\<rparr>) = (resp, n') \<and>
    ar_Success resp \<and> p2p_sent (n_p2p n') = [(TransactionTopic, dat)]"
proof -
  let ?n = "funded_node [TransactionTopic]"
  let ?b = "\<lparr>cb_to = Address_ToHex (n_address (funded_node []) + 1), cb_value = Fin 10, cb_fee = Fin 1, cb_type = []\<rparr>"
  let ?t = "\<lparr>tx_From = n_address ?n, tx_To = n_address ?n + 1, tx_Value = 10, tx_Nonce = 1, tx_Fee = 1, tx_Timestamp = now64 demo_env,
        tx_Type = ''transfer'', tx_Signature = [], tx_Hash = 0, tx_Used = False\<rparr>"
  let ?tx = "Transaction_Sign demo_crypto ?t ''key''"
  have acc: "GetAccount (key_state 100) (n_address ?n) = Inr \<lparr>acc_Address = n_address ?n, acc_Balance = 100, acc_Nonce = 0\<rparr>"
    using GetAccount_ok(1) [OF key_state_ok] acct_key_state by simp
  have add: "Pool_AddTransaction demo_crypto NewTransactionPool ?tx (pub_key demo_crypto ''key'') (key_state 100) =
      (None, put_tx NewTransactionPool ?tx, key_state 100)"
    by (rule Pool_accepts_signed [OF ecdsa_ok_demo key_state_ok _ _ refl]) (simp_all add: in_pool_def NewTransactionPool_def acct_key_state)
  obtain resp n' where r: "handleCreateTransaction demo_env demo_host ?n ''POST'' (Some ?b) = (resp, n')" by fastforce
  moreover have "fst (handleCreateTransaction demo_env demo_host ?n ''POST'' (Some ?b)) =
      fst (submit_transaction demo_env demo_host ?n ?tx \<lparr>acc_Address = n_address ?n, acc_Balance = 100, acc_Nonce = 0\<rparr> 11)"
    using acc by (simp add: handleCreateTransaction_def positive_float_def u64_of_float_def HexToAddress_ToHex api_types_def
        api_transaction_def Let_def Address_ToHex_nonempty)
  then have "ar_Success resp" using r add by (simp add: submit_transaction_def Let_def ok_response_def)
  ultimately show ?thesis
    using api_transaction_not_received [OF r] by (auto simp: demo_libp2p_def)
qed

section \<open>Reading and overwriting\<close>

text \<open>Metrics apart, a handler that is not given a POST request leaves its node as it is.\<close>

lemma update_network_metrics: "\<exists>mc. update_network hv n = n\<lparr>n_metrics := mc\<rparr>"
  by (auto simp: update_network_def split: prod.split)

lemma handleNetwork_metrics: "\<exists>mc. snd (handleNetwork e hv n) = n\<lparr>n_metrics := mc\<rparr>"
  using update_network_metrics [of hv n] by (auto simp: handleNetwork_def Let_def split: prod.split)

lemma handleMetrics_metrics: "\<exists>mc. snd (handleMetrics e hv n) = n\<lparr>n_metrics := mc\<rparr>"
  using update_network_metrics [of hv "n\<lparr>n_metrics := UpdatePerformanceMetrics (e_now e) (host_alloc hv) (host_goroutines hv) (n_metrics n)\<rparr>"]
  by (auto simp: handleMetrics_def Let_def)

lemma AppNode_metrics_id [simp]: "\<exists>mc. n = n\<lparr>n_metrics := mc\<rparr>"
  by (rule exI [of _ "n_metrics n"]) simp

lemma serve_v1_reads:
  assumes "serve_v1 fuel e hv n r = Some (rep, n')" "rq_Method r \<noteq> ''POST''"
  shows "\<exists>mc. n' = n\<lparr>n_metrics := mc\<rparr>"
  using assms handleNetwork_metrics [of e hv n] handleMetrics_metrics [of e hv n]
  by (auto simp: serve_v1_def handleStateSnapshot_def handleCreateTransaction_def apfst_def map_prod_def
      split: endpoint.splits if_splits sum.splits prod.splits)

text \<open>
  Only POST requests act.  Whatever path a request has, when its method is not POST the
  server leaves chain, accounts, pool, registry, peers and pending blocks of its node as they are: it updates metrics at most,
  runs no shutdown hook and does not crash.
\<close>

theorem read_requests_change_metrics_only:
  assumes "serve fuel e hv gs n r = Some (resp, n', gs')" and "rq_Method r \<noteq> ''POST''"
  shows "(\<exists>mc. n' = Some (n\<lparr>n_metrics := mc\<rparr>)) \<and> gs' = gs"
  using assms serve_v1_reads [of fuel e hv n "r\<lparr>rq_Path := drop (length ''/api/v1'') (rq_Path r)\<rparr>"]
  by (auto simp: serve_def handleShutdown_def split: if_splits)

theorem read_requests_change_metrics_only_witness:
  "\<exists>resp mc. serve 0 demo_env demo_host NewGracefulShutdown (demo_node [] ''me'' [])
     \<lparr>rq_Method = ''GET'', rq_Path = ''/api/v1/network'', rq_Query = (\<lambda>_. []), rq_Body = []\<rparr> =
       Some (resp, Some ((demo_node [] ''me'' [])\<lparr>n_metrics := mc\<rparr>), NewGracefulShutdown)"
proof -
  let ?r = "\<lparr>rq_Method = ''GET'', rq_Path = ''/api/v1/network'', rq_Query = (\<lambda>_. []), rq_Body = []\<rparr>"
  obtain resp n' gs' where "serve 0 demo_env demo_host NewGracefulShutdown (demo_node [] ''me'' []) ?r = Some (resp, n', gs')"
    by (auto simp: serve_def serve_v1_def api_route_def exact_routes_def has_prefix_def split_beta)
  with read_requests_change_metrics_only [OF this] show ?thesis by auto
qed

lemma acct_ImportSnapshot:
  "distinct (map acc_Address accs) \<Longrightarrow>
   acct (ImportSnapshot cr s accs) a = (case find (\<lambda>acc. acc_Address acc = a) accs of Some acc \<Rightarrow> acc | None \<Rightarrow> acct s a)"
proof (induction accs arbitrary: s)
  case (Cons acc accs)
  have "find (\<lambda>acc. acc_Address acc = a) accs = None" if "acc_Address acc = a"
    unfolding find_None_iff using Cons.prems that by (auto simp: image_iff)
  with Cons show ?case by (auto simp: ImportSnapshot_def split: option.split)
qed (simp add: ImportSnapshot_def)

lemma acct_ImportSnapshot_mem:
  assumes "distinct (map acc_Address accs)" "acc \<in> set accs"
  shows "acct (ImportSnapshot cr s accs) (acc_Address acc) = acc"
proof -
  have "find (\<lambda>x. acc_Address x = acc_Address acc) accs \<noteq> None" using assms(2) by (auto simp: find_None_iff)
  then obtain b where "find (\<lambda>x. acc_Address x = acc_Address acc) accs = Some b" by auto
  moreover from this have "b \<in> set accs" "acc_Address b = acc_Address acc" by (auto simp: find_Some_iff)
  then have "b = acc" using assms by (simp add: distinct_map inj_on_def)
  ultimately show ?thesis using acct_ImportSnapshot [OF assms(1)] by simp
qed

lemma acct_ImportSnapshot_other:
  assumes "distinct (map acc_Address accs)" "a \<notin> acc_Address ` set accs"
  shows "acct (ImportSnapshot cr s accs) a = acct s a"
proof -
  have "find (\<lambda>acc. acc_Address acc = a) accs = None" using assms(2) by (auto simp: find_None_iff)
  then show ?thesis using acct_ImportSnapshot [OF assms(1)] by simp
qed

lemma decode_first_print [simp]: "(r \<noteq> [] \<Longrightarrow> \<not> is_digit (List.hd r)) \<Longrightarrow> decode_first (print_json v @ r) = Some v"
  using reads_backD [OF reads_back_all, of v "Suc (length (print_json v @ r))" r] by (simp add: decode_first_def)

lemma json_accounts_list: "json_accounts (list_json account_json accs) = Some (map Some accs)"
proof -
  have "map_opt (\<lambda>j. if j = JNull then Some None else map_option Some (json_account j)) (map account_json accs) = Some (map Some accs)"
    by (induction accs) simp_all
  then show ?thesis by (simp add: json_accounts_def json_list_def list_json_def)
qed

lemma import_decoded_all: "import_decoded cr s (map Some accs) = (True, ImportSnapshot cr s accs)"
proof -
  have "map the (takeWhile (\<lambda>a. a \<noteq> None) (map Some accs)) = accs" by (induction accs) auto
  then show ?thesis by (auto simp: import_decoded_def)
qed

text \<open>
  Any client can rewrite the accounts.  A POST of a list of accounts to the snapshot endpoint, with no
  credential, is answered with success and gives every listed address exactly the balance and
  nonce of the list; the other accounts stay.
\<close>

theorem snapshot_post_rewrites_accounts:
  assumes "rq_Method r = ''POST''" and "rq_Path r = ''/api/v1/state/snapshot''"
    and "rq_Body r = print_json (list_json account_json accs)" and "distinct (map acc_Address accs)"
  shows "\<exists>resp n'. serve fuel e hv gs n r = Some (Some resp, Some n', gs) \<and> hr_Status resp = 200 \<and>
     (\<forall>acc \<in> set accs. acct (n_state n') (acc_Address acc) = acc) \<and>
     (\<forall>a. a \<notin> acc_Address ` set accs \<longrightarrow> acct (n_state n') a = acct (n_state n) a)"
proof -
  let ?s = "ImportSnapshot (e_cr e) (n_state n) accs"
  have "decode_first (rq_Body r) = Some (list_json account_json accs)"
    using decode_first_print [of "[]" "list_json account_json accs"] assms(3) by simp
  then have "\<exists>resp. serve fuel e hv gs n r = Some (Some resp, Some (n\<lparr>n_state := ?s\<rparr>), gs) \<and> hr_Status resp = 200"
    using assms(1,2) by (auto simp: serve_def serve_v1_def api_route_def exact_routes_def has_prefix_def handleStateSnapshot_def
        json_accounts_list import_decoded_all write_reply_def writeJSON_def)
  moreover have "acct ?s (acc_Address acc) = acc" if "acc \<in> set accs" for acc
    by (rule acct_ImportSnapshot_mem [OF assms(4) that])
  moreover have "acct ?s a = acct (n_state n) a" if "a \<notin> acc_Address ` set accs" for a
    by (rule acct_ImportSnapshot_other [OF assms(4) that])
  ultimately show ?thesis by fastforce
qed

theorem snapshot_post_rewrites_accounts_witness:
  "\<exists>resp n'. serve 0 demo_env demo_host NewGracefulShutdown (demo_node [] ''me'' [])
     \<lparr>rq_Method = ''POST'', rq_Path = ''/api/v1/state/snapshot'', rq_Query = (\<lambda>_. []),
      rq_Body = print_json (list_json account_json [\<lparr>acc_Address = 9, acc_Balance = 2 ^ 60, acc_Nonce = 0\<rparr>])\<rparr> =
       Some (Some resp, Some n', NewGracefulShutdown) \<and> acc_Balance (acct (n_state n') 9) = 2 ^ 60"
  using snapshot_post_rewrites_accounts [of "\<lparr>rq_Method = ''POST'', rq_Path = ''/api/v1/state/snapshot'', rq_Query = (\<lambda>_. []),
      rq_Body = print_json (list_json account_json [\<lparr>acc_Address = 9, acc_Balance = 2 ^ 60, acc_Nonce = 0\<rparr>])\<rparr>"
      "[\<lparr>acc_Address = 9, acc_Balance = 2 ^ 60, acc_Nonce = 0\<rparr>]" 0 demo_env demo_host NewGracefulShutdown "demo_node [] ''me'' []"]
  by auto

end
