(* ===== verification/Cli.thy ===== *)
theory Cli
  imports Api
begin

text \<open>
  \<^verbatim>\<open>cli.go\<close>: the interactive commands.  A command gets its arguments and returns what it prints, the
  text of its error if it fails, and the node if it changes it.  Texts are byte strings.
  Lines are ASCII: white space outside ASCII does not separate words here.
\<close>

section \<open>Words, numbers, lines of output\<close>

definition is_space :: "char \<Rightarrow> bool" where
  "is_space c \<longleftrightarrow> c \<in> {CHR 0x20, CHR 0x09, CHR 0x0A, CHR 0x0B, CHR 0x0C, CHR 0x0D}"

definition TrimSpace :: "string \<Rightarrow> string" where
  "TrimSpace s = rev (dropWhile is_space (rev (dropWhile is_space s)))"

text \<open>\<^verbatim>\<open>strings.Fields\<close>: \<open>w\<close> is the word being read, reversed.\<close>

fun fields_from :: "string \<Rightarrow> string \<Rightarrow> string list" where
  "fields_from w [] = (if w = [] then [] else [rev w])"
| "fields_from w (c # s) =
     (if is_space c then (if w = [] then fields_from [] s else rev w # fields_from [] s)
      else fields_from (c # w) s)"

definition Fields :: "string \<Rightarrow> string list" where
  "Fields s = fields_from [] s"

text \<open>
  \<^verbatim>\<open>fmt.Sscanf(s, "%d", &v)\<close> for an unsigned 64-bit variable and a word \<open>s\<close>: the digits at the front
  are read and what follows them is ignored.
\<close>

definition Sscanf_d :: "string \<Rightarrow> string + u64" where
  "Sscanf_d s =
     (let ds = takeWhile is_digit s
      in if s = [] then Inl ''unexpected EOF''
         else if ds = [] then Inl ''expected integer''
         else if read_nat ds < 2 ^ 64 then Inr (of_nat (read_nat ds))
         else Inl (''strconv.ParseUint: parsing '' @ [CHR 0x22] @ ds @ [CHR 0x22] @ '': value out of range''))"

definition nl :: "string \<Rightarrow> string" where
  "nl s = s @ [CHR 0x0A]"

definition num_text :: "u64 \<Rightarrow> string" where
  "num_text w = print_int (uint w)"

definition size_text :: "'a list \<Rightarrow> string" where
  "size_text xs = print_int (int (length xs))"

definition ternary :: "bool \<Rightarrow> string \<Rightarrow> string \<Rightarrow> string" where
  "ternary cond a b = (if cond then a else b)"

section \<open>Accounts\<close>

text \<open>The start of \<^verbatim>\<open>cmdBalance\<close> and \<^verbatim>\<open>cmdAccount\<close>: the named or the own address, and its account.\<close>

definition find_account :: "host \<Rightarrow> 's AppNode \<Rightarrow> string list \<Rightarrow> string + address \<times> Account" where
  "find_account hv n args =
     (case (case args of [] \<Rightarrow> Inr (n_address n) | a # _ \<Rightarrow> HexToAddress a) of
        Inl err \<Rightarrow> Inl (''invalid hex address: '' @ host_error_text hv err)
      | Inr addr \<Rightarrow>
          (case GetAccount (n_state n) addr of
             Inl err \<Rightarrow> Inl (''account not found: '' @ host_error_text hv err)
           | Inr acc \<Rightarrow> Inr (addr, acc)))"

definition cmdBalance :: "host \<Rightarrow> 's AppNode \<Rightarrow> string list \<Rightarrow> string \<times> string option" where
  "cmdBalance hv n args =
     (case find_account hv n args of
        Inl err \<Rightarrow> ([], Some err)
      | Inr (addr, acc) \<Rightarrow>
          (nl (''Address: '' @ Address_ToHex addr) @ nl (''Balance: '' @ num_text (acc_Balance acc)) @
           nl (''Nonce: '' @ num_text (acc_Nonce acc)), None))"

definition cmdAccount :: "'s env \<Rightarrow> host \<Rightarrow> 's AppNode \<Rightarrow> string list \<Rightarrow> string \<times> string option" where
  "cmdAccount e hv n args =
     (case find_account hv n args of
        Inl err \<Rightarrow> ([], Some err)
      | Inr (addr, acc) \<Rightarrow>
          (nl ''Account Details:'' @ nl (''  Address: '' @ Address_ToHex addr) @
           nl (''  Balance: '' @ num_text (acc_Balance acc)) @ nl (''  Nonce: '' @ num_text (acc_Nonce acc)) @
           (case GetValidator (e_st e) (n_vr n) addr of
              Inr (Some v) \<Rightarrow>
                nl (''  Validator Status: '' @ ternary (val_Participating v) ''Active'' ''Inactive'') @
                nl (''  Stake: '' @ num_text (val_Stake v)) @ nl (''  Delegated Stake: '' @ num_text (val_DelegatedStake v)) @
                nl (''  Compute Reputation: '' @ num_text (val_ComputeReputation v)) @
                nl (''  Participating: '' @ print_json (JBool (val_Participating v)))
            | _ \<Rightarrow> []), None))"

section \<open>Submitting transactions\<close>

text \<open>The argument at an index, read as a number; \<open>d\<close> is the default of an optional one.\<close>

definition optional_number :: "string list \<Rightarrow> nat \<Rightarrow> u64 \<Rightarrow> string \<Rightarrow> string + u64" where
  "optional_number args i d msg =
     (if i < length args
      then (case Sscanf_d (args ! i) of Inl err \<Rightarrow> Inl (msg @ err) | Inr v \<Rightarrow> Inr v)
      else Inr d)"

definition cli_insufficient :: "u64 \<Rightarrow> u64 \<Rightarrow> u64 \<Rightarrow> string" where
  "cli_insufficient amount fee available =
     ''insufficient balance. Required: '' @ num_text (amount + fee) @ '' (amount: '' @ num_text amount @ '' + fee: '' @ num_text fee @
     ''), Available: '' @ num_text available"

definition summary_lines :: "'s AppNode \<Rightarrow> address \<Rightarrow> u64 \<Rightarrow> u64 \<Rightarrow> Account \<Rightarrow> string" where
  "summary_lines n to amount fee acc =
     nl (''  From: '' @ Address_ToHex (n_address n)) @ nl (''  To: '' @ Address_ToHex to) @
     nl (''  Amount: '' @ num_text amount) @ nl (''  Fee: '' @ num_text fee) @ nl (''  Total: '' @ num_text (amount + fee)) @
     nl (''  Current Balance: '' @ num_text (acc_Balance acc)) @
     nl (''  Balance After: '' @ num_text (acc_Balance acc - (amount + fee))) @ nl (''  Nonce: '' @ num_text (acc_Nonce acc + 1))"

text \<open>Build, sign and broadcast; \<open>report\<close> is printed when the broadcast succeeds.\<close>

definition broadcast_new ::
  "'s env \<Rightarrow> host \<Rightarrow> 's AppNode \<Rightarrow> string \<Rightarrow> Transaction \<Rightarrow> string \<Rightarrow> string \<times> string option \<times> 's AppNode" where
  "broadcast_new e hv n out tx report =
     (case BroadcastTransaction e n tx of
        (Some err, n') \<Rightarrow> (out, Some (''failed to broadcast transaction: '' @ host_error_text hv err), n')
      | (None, n') \<Rightarrow> (out @ report, None, n'))"

definition submitted_lines :: "string \<Rightarrow> Transaction \<Rightarrow> string" where
  "submitted_lines what tx =
     nl [] @ nl ([CHR 0xE2, CHR 0x9C, CHR 0x85] @ '' Transaction '' @ what @ '' successfully!'') @
     nl (''  Hash: '' @ Hash_ToHex (tx_Hash tx)) @ nl (''  Type: '' @ tx_Type tx) @
     nl (''  Timestamp: '' @ print_int (sint (tx_Timestamp tx)))"

definition cmdSend :: "'s env \<Rightarrow> host \<Rightarrow> 's AppNode \<Rightarrow> string list \<Rightarrow> string \<times> string option \<times> 's AppNode" where
  "cmdSend e hv n args =
     (if length args < 2 then ([], Some ''usage: send <to> <amount> [fee]'', n)
      else
        (case HexToAddress (args ! 0) of
           Inl err \<Rightarrow> ([], Some (''invalid recipient address: '' @ host_error_text hv err), n)
         | Inr toAddr \<Rightarrow>
             (case Sscanf_d (args ! 1) of
                Inl err \<Rightarrow> ([], Some (''invalid amount: '' @ err), n)
              | Inr amount \<Rightarrow>
                  if amount = 0 then ([], Some ''amount must be greater than 0'', n)
                  else
                    (case optional_number args 2 1 ''invalid fee: '' of
                       Inl err \<Rightarrow> ([], Some err, n)
                     | Inr fee \<Rightarrow>
                         (case GetAccount (n_state n) (n_address n) of
                            Inl err \<Rightarrow> ([], Some (''failed to get account: '' @ host_error_text hv err), n)
                          | Inr acc \<Rightarrow>
                              if acc_Balance acc < amount + fee
                              then ([], Some (cli_insufficient amount fee (acc_Balance acc)), n)
                              else if toAddr = n_address n then ([], Some ''cannot send to yourself'', n)
                              else
                                (let tx = api_transaction e n toAddr amount fee (acc_Nonce acc + 1) ''transfer''
                                 in broadcast_new e hv n
                                      (nl ''Transaction Summary:'' @ summary_lines n toAddr amount fee acc) tx
                                      (submitted_lines ''submitted'' tx)))))))"

definition cmdCreate :: "'s env \<Rightarrow> host \<Rightarrow> 's AppNode \<Rightarrow> string list \<Rightarrow> string \<times> string option \<times> 's AppNode" where
  "cmdCreate e hv n args =
     (if length args < 3 then ([], Some ''usage: create <type> <to> <amount> [fee]'', n)
      else
        (case Sscanf_d (args ! 2) of
           Inl err \<Rightarrow> ([], Some (''invalid amount: '' @ err), n)
         | Inr amount \<Rightarrow>
             if amount = 0 then ([], Some ''amount must be greater than 0'', n)
             else
               (case optional_number args 3 1 ''invalid fee: '' of
                  Inl err \<Rightarrow> ([], Some err, n)
                | Inr fee \<Rightarrow>
                    if args ! 0 \<notin> {''transfer'', ''delegate'', ''register_validator''}
                    then ([], Some (''invalid transaction type. Must be one of: transfer, delegate, '' @ ''register_validator''), n)
                    else
                      (case (if args ! 0 = ''register_validator'' then Inr (n_address n) else HexToAddress (args ! 1)) of
                         Inl err \<Rightarrow> ([], Some (''invalid recipient address: '' @ host_error_text hv err), n)
                       | Inr toAddr \<Rightarrow>
                           (case GetAccount (n_state n) (n_address n) of
                              Inl err \<Rightarrow> ([], Some (''failed to get account: '' @ host_error_text hv err), n)
                            | Inr acc \<Rightarrow>
                                if acc_Balance acc < amount + fee
                                then ([], Some (cli_insufficient amount fee (acc_Balance acc)), n)
                                else
                                  (let tx = api_transaction e n toAddr amount fee (acc_Nonce acc + 1) (args ! 0)
                                   in broadcast_new e hv n
                                        (nl ''Transaction Summary:'' @ nl (''  Type: '' @ args ! 0) @
                                         summary_lines n toAddr amount fee acc) tx
                                        (submitted_lines ''created and submitted'' tx)))))))"

text \<open>The two commands that do not look at the balance.\<close>

definition submit_unchecked ::
  "'s env \<Rightarrow> host \<Rightarrow> 's AppNode \<Rightarrow> address \<Rightarrow> u64 \<Rightarrow> string \<Rightarrow> string \<Rightarrow> string \<times> string option \<times> 's AppNode" where
  "submit_unchecked e hv n to amount type what =
     (case GetAccount (n_state n) (n_address n) of
        Inl err \<Rightarrow> ([], Some (''failed to get account: '' @ host_error_text hv err), n)
      | Inr acc \<Rightarrow>
          let tx = api_transaction e n to amount 1 (acc_Nonce acc + 1) type
          in broadcast_new e hv n [] tx (nl (what @ '' submitted: '' @ Hash_ToHex (tx_Hash tx))))"

definition cmdDelegate :: "'s env \<Rightarrow> host \<Rightarrow> 's AppNode \<Rightarrow> string list \<Rightarrow> string \<times> string option \<times> 's AppNode" where
  "cmdDelegate e hv n args =
     (if length args < 2 then ([], Some ''usage: delegate <validator> <amount>'', n)
      else
        (case HexToAddress (args ! 0) of
           Inl err \<Rightarrow> ([], Some (''invalid validator address: '' @ host_error_text hv err), n)
         | Inr validatorAddr \<Rightarrow>
             (case Sscanf_d (args ! 1) of
                Inl err \<Rightarrow> ([], Some (''invalid amount: '' @ err), n)
              | Inr amount \<Rightarrow> submit_unchecked e hv n validatorAddr amount ''delegate'' ''Delegation'')))"

definition cmdRegister :: "'s env \<Rightarrow> host \<Rightarrow> 's AppNode \<Rightarrow> string list \<Rightarrow> string \<times> string option \<times> 's AppNode" where
  "cmdRegister e hv n args =
     (case args of
        [] \<Rightarrow> ([], Some ''usage: register <stake>'', n)
      | a # _ \<Rightarrow>
          (case Sscanf_d a of
             Inl err \<Rightarrow> ([], Some (''invalid stake amount: '' @ err), n)
           | Inr stake \<Rightarrow> submit_unchecked e hv n (n_address n) stake ''register_validator'' ''Validator registration''))"

section \<open>Blocks and transactions\<close>

definition cmdBlock :: "'s env \<Rightarrow> host \<Rightarrow> 's AppNode \<Rightarrow> string list \<Rightarrow> string \<times> string option" where
  "cmdBlock e hv n args =
     (case args of
        [] \<Rightarrow> ([], Some ''usage: block <height>'')
      | a # _ \<Rightarrow>
          (case Sscanf_d a of
             Inl err \<Rightarrow> ([], Some (''invalid height: '' @ err))
           | Inr height \<Rightarrow>
               (case GetBlockByHeight (e_st e) (n_bc n) height of
                  Inl err \<Rightarrow> ([], Some (''block not found: '' @ host_error_text hv err))
                | Inr block \<Rightarrow>
                    (nl (''Block '' @ num_text height @ '':'') @ nl (''  Hash: '' @ Hash_ToHex (blk_Hash block)) @
                     nl (''  Previous Hash: '' @ Hash_ToHex (hdr_PreviousHash (blk_Header block))) @
                     nl (''  Timestamp: '' @ print_int (sint (hdr_Timestamp (blk_Header block)))) @
                     nl (''  Transactions: '' @ size_text (blk_Transactions block)) @
                     nl (''  Validator: '' @ Address_ToHex (hdr_Proposer (blk_Header block))), None))))"

text \<open>The loop of \<^verbatim>\<open>cmdBlocks\<close> over unsigned heights, with fuel because the last height may be the largest number.\<close>

fun blocks_loop :: "nat \<Rightarrow> (u64 \<Rightarrow> gerror + Block) \<Rightarrow> u64 \<Rightarrow> u64 \<Rightarrow> string \<Rightarrow> string option" where
  "blocks_loop 0 get last_h h out = None"
| "blocks_loop (Suc fuel) get last_h h out =
     (if h \<le> last_h then
        blocks_loop fuel get last_h (h + 1)
          (out @ (case get h of
                    Inl _ \<Rightarrow> nl (''  '' @ num_text h @ '': Not found'')
                  | Inr block \<Rightarrow>
                      nl (''  '' @ num_text h @ '': '' @ take 16 (Hash_ToHex (blk_Hash block)) @
                          '' ('' @ size_text (blk_Transactions block) @ '' txs)'')))
      else Some out)"

definition cmdBlocks :: "nat \<Rightarrow> 's env \<Rightarrow> 's AppNode \<Rightarrow> string list \<Rightarrow> (string \<times> string option) option" where
  "cmdBlocks fuel e n args =
     (case optional_number args 0 0 ''invalid start height: '' of
        Inl err \<Rightarrow> Some ([], Some err)
      | Inr start \<Rightarrow>
          (case optional_number args 1 (Height (n_bc n)) ''invalid end height: '' of
             Inl err \<Rightarrow> Some ([], Some err)
           | Inr last_h \<Rightarrow>
               map_option (\<lambda>out. (out, None))
                 (blocks_loop fuel (GetBlockByHeight (e_st e) (n_bc n)) last_h start
                    (nl (''Blocks '' @ num_text start @ '' to '' @ num_text last_h @ '':'')))))"

text \<open>The loop of \<^verbatim>\<open>cmdTx\<close>: the height and the transaction found.  The height stays positive, so it ends.\<close>

function tx_search :: "(u64 \<Rightarrow> gerror + Block) \<Rightarrow> hash \<Rightarrow> u64 \<Rightarrow> u64 \<Rightarrow> (u64 \<times> Transaction) option" where
  "tx_search get hash height h =
     (if 0 < h \<and> height - 100 < h then
        (case get h of
           Inl _ \<Rightarrow> tx_search get hash height (h - 1)
         | Inr block \<Rightarrow>
             (case find (\<lambda>tx. tx_Hash tx = hash) (blk_Transactions block) of
                Some tx \<Rightarrow> Some (h, tx)
              | None \<Rightarrow> tx_search get hash height (h - 1)))
      else None)"
  by pat_completeness auto
termination
  by (relation "measure (\<lambda>(get, hash, height, h). unat h)") (auto simp: measure_unat)

declare tx_search.simps [simp del]

definition cmdTx :: "'s env \<Rightarrow> host \<Rightarrow> 's AppNode \<Rightarrow> string list \<Rightarrow> string \<times> string option" where
  "cmdTx e hv n args =
     (case args of
        [] \<Rightarrow> ([], Some ''usage: tx <hash>'')
      | a # _ \<Rightarrow>
          (case HexToHash a of
             Inl err \<Rightarrow> ([], Some (''invalid hash: '' @ host_error_text hv err))
           | Inr hash \<Rightarrow>
               (case tx_search (GetBlockByHeight (e_st e) (n_bc n)) hash (Height (n_bc n)) (Height (n_bc n)) of
                  None \<Rightarrow> ([], Some ''transaction not found'')
                | Some (h, tx) \<Rightarrow>
                    (nl (''Transaction '' @ Hash_ToHex hash @ '':'') @ nl (''  From: '' @ Address_ToHex (tx_From tx)) @
                     nl (''  To: '' @ Address_ToHex (tx_To tx)) @ nl (''  Value: '' @ num_text (tx_Value tx)) @
                     nl (''  Nonce: '' @ num_text (tx_Nonce tx)) @ nl (''  Type: '' @ tx_Type tx) @
                     nl (''  Block: '' @ num_text h), None))))"

definition history_entry :: "address \<Rightarrow> u64 \<Rightarrow> Transaction \<Rightarrow> string" where
  "history_entry addr h tx =
     nl (''  Block '' @ num_text h @ '' | '' @ (if tx_To tx = addr then ''IN'' else ''OUT'') @ '' | Hash: '' @ Hash_ToHex (tx_Hash tx)) @
     nl (''    From: '' @ Address_ToHex (tx_From tx)) @ nl (''    To: '' @ Address_ToHex (tx_To tx)) @
     nl (''    Value: '' @ num_text (tx_Value tx) @ '' | Fee: '' @ num_text (tx_Fee tx) @ '' | Type: '' @ tx_Type tx) @
     nl (''    Nonce: '' @ num_text (tx_Nonce tx) @ '' | Timestamp: '' @ print_int (sint (tx_Timestamp tx))) @ nl []"

text \<open>The loop of \<^verbatim>\<open>cmdHistory\<close>, with fuel; it collects the output and whether anything was found.\<close>

fun history_print ::
  "nat \<Rightarrow> (u64 \<Rightarrow> gerror + Block) \<Rightarrow> address \<Rightarrow> u64 \<Rightarrow> u64 \<Rightarrow> bool \<times> string \<Rightarrow> (bool \<times> string) option" where
  "history_print 0 get addr startHeight h s = None"
| "history_print (Suc fuel) get addr startHeight h (found, out) =
     (if startHeight \<le> h then
        history_print fuel get addr startHeight (h - 1)
          (case get h of
             Inl _ \<Rightarrow> (found, out)
           | Inr block \<Rightarrow>
               let txs = filter (\<lambda>tx. tx_From tx = addr \<or> tx_To tx = addr) (blk_Transactions block)
               in (found \<or> txs \<noteq> [], out @ concat (map (history_entry addr h) txs)))
      else Some (found, out))"

definition cmdHistory :: "nat \<Rightarrow> 's env \<Rightarrow> host \<Rightarrow> 's AppNode \<Rightarrow> string list \<Rightarrow> (string \<times> string option) option" where
  "cmdHistory fuel e hv n args =
     (case args of
        [] \<Rightarrow> Some ([], Some ''usage: history <address>'')
      | a # _ \<Rightarrow>
          (case HexToAddress a of
             Inl err \<Rightarrow> Some ([], Some (''invalid address: '' @ host_error_text hv err))
           | Inr addr \<Rightarrow>
               let currentHeight = Height (n_bc n);
                   startHeight = (if 100 < currentHeight then currentHeight - 100 else 0)
               in map_option (\<lambda>(found, out).
                      (out @ (if found then [] else nl ''  No transactions found for this address in the last 100 blocks.''), None))
                    (history_print fuel (GetBlockByHeight (e_st e) (n_bc n)) addr startHeight currentHeight
                       (False, nl (''Transaction history for '' @ Address_ToHex addr @ '':'')))))"

section \<open>The node\<close>

definition cmdValidators :: "'s env \<Rightarrow> host \<Rightarrow> 's AppNode \<Rightarrow> string \<times> string option" where
  "cmdValidators e hv n =
     (case GetAllValidators (e_st e) (n_vr n) of
        Inl err \<Rightarrow> ([], Some (''failed to get validators: '' @ host_error_text hv err))
      | Inr validators \<Rightarrow>
          (nl (''Validators ('' @ size_text validators @ '' total):'') @
           concat (map (\<lambda>v. nl (''  '' @ take 16 (Address_ToHex (val_Address v)) @ '': '' @
             ternary (val_Participating v) ''Active'' ''Inactive'' @ '' (stake: '' @ num_text (val_Stake v) @
             '', delegated: '' @ num_text (val_DelegatedStake v) @ '')'')) validators), None))"

definition cmdPeers :: "'s env \<Rightarrow> host \<Rightarrow> string \<times> string option" where
  "cmdPeers e hv =
     (nl (''Connected peers ('' @ size_text (host_peers hv) @ ''):'') @
      concat (map (\<lambda>(peer, addr). nl (''  '' @ lp_peer_encode (e_lp e) peer)) (host_peers hv)), None)"

definition cmdPool :: "string \<times> string option" where
  "cmdPool = (nl ''Transaction pool:'' @ nl ''  (Not implemented yet)'', None)"

definition cmdStatus :: "'s env \<Rightarrow> host \<Rightarrow> 's AppNode \<Rightarrow> string \<times> string option" where
  "cmdStatus e hv n =
     (nl ''Node Status:'' @ nl (''  Address: '' @ Address_ToHex (n_address n)) @
      nl (''  Blockchain Height: '' @ num_text (Height (n_bc n))) @ nl (''  Connected Peers: '' @ size_text (host_peers hv)) @
      nl (''  Validators: '' @ size_text (validators_or_nil e n)), None)"

definition cmdMetrics :: "string \<times> string option" where
  "cmdMetrics = (nl ''Node Metrics:'' @ nl ''  (Not implemented yet)'', None)"

definition cmdHelp :: "string \<times> string option" where
  "cmdHelp = (concat (map nl
     [''Available commands:'', ''  help  - Show this help message'', ''  exit  - Exit the CLI'',
      ''  balance [address] - Show balance for address (default: own address)'',
      ''  account [address] - Show account details for address (default: own address)'',
      ''  send <to> <amount> [fee] - Send tokens to address'',
      ''  create <type> <to> <amount> [fee] - Create transaction with type'',
      ''    Types: transfer, delegate, register_validator'',
      ''  delegate <validator> <amount> - Delegate stake to validator'',
      ''  register <stake> - Register as validator'', ''  block <height> - Show block at height'',
      ''  blocks [start] [end] - Show blocks in range'', ''  tx <hash> - Show transaction by hash'',
      ''  history <address> - Show transaction history for address'',
      ''  validators - Show all validators'', ''  peers - Show connected peers'',
      ''  pool - Show transaction pool'', ''  status - Show node status'', ''  metrics - Show node metrics'']), None)"

definition cmdExit :: "string \<times> string option" where
  "cmdExit = (nl ''Goodbye!'', Some ''exit'')"

section \<open>The loop\<close>

text \<open>\<open>None\<close>: the command did not end within the fuel.\<close>

definition executeCommand ::
  "nat \<Rightarrow> 's env \<Rightarrow> host \<Rightarrow> 's AppNode \<Rightarrow> string \<Rightarrow> string list \<Rightarrow> (string \<times> string option \<times> 's AppNode) option" where
  "executeCommand fuel e hv n cmd args =
     (let reading = (\<lambda>(out, err). (out, err, n))
      in if cmd = ''help'' then Some (reading cmdHelp)
         else if cmd = ''exit'' \<or> cmd = ''quit'' then Some (reading cmdExit)
         else if cmd = ''balance'' then Some (reading (cmdBalance hv n args))
         else if cmd = ''account'' then Some (reading (cmdAccount e hv n args))
         else if cmd = ''send'' then Some (cmdSend e hv n args)
         else if cmd = ''create'' then Some (cmdCreate e hv n args)
         else if cmd = ''delegate'' then Some (cmdDelegate e hv n args)
         else if cmd = ''register'' then Some (cmdRegister e hv n args)
         else if cmd = ''block'' then Some (reading (cmdBlock e hv n args))
         else if cmd = ''blocks'' then map_option reading (cmdBlocks fuel e n args)
         else if cmd = ''tx'' then Some (reading (cmdTx e hv n args))
         else if cmd = ''history'' then map_option reading (cmdHistory fuel e hv n args)
         else if cmd = ''validators'' then Some (reading (cmdValidators e hv n))
         else if cmd = ''peers'' then Some (reading (cmdPeers e hv))
         else if cmd = ''pool'' then Some (reading cmdPool)
         else if cmd = ''status'' then Some (reading (cmdStatus e hv n))
         else if cmd = ''metrics'' then Some (reading cmdMetrics)
         else Some (reading (nl ''Unknown command. Type 'help' for available commands.'', None)))"

text \<open>The loop of \<^verbatim>\<open>Start\<close> over the lines of its input, with the prompt before each line and at the end.\<close>

fun cli_loop :: "nat \<Rightarrow> 's env \<Rightarrow> host \<Rightarrow> 's AppNode \<Rightarrow> string list \<Rightarrow> (string \<times> 's AppNode) option" where
  "cli_loop fuel e hv n [] = Some (''dyphira> '', n)"
| "cli_loop fuel e hv n (text # lines) =
     (let line = TrimSpace text
      in if line = [] then map_option (apfst (append ''dyphira> '')) (cli_loop fuel e hv n lines)
         else
           (case executeCommand fuel e hv n (List.hd (Fields line)) (tl (Fields line)) of
              None \<Rightarrow> None
            | Some (out, None, n') \<Rightarrow> map_option (apfst (append (''dyphira> '' @ out))) (cli_loop fuel e hv n' lines)
            | Some (out, Some err, n') \<Rightarrow>
                if err = ''exit'' then Some (''dyphira> '' @ out, n')
                else map_option (apfst (append (''dyphira> '' @ out @ nl (''Error: '' @ err)))) (cli_loop fuel e hv n' lines)))"

definition CLI_Start :: "nat \<Rightarrow> 's env \<Rightarrow> host \<Rightarrow> 's AppNode \<Rightarrow> string list \<Rightarrow> (string \<times> 's AppNode) option" where
  "CLI_Start fuel e hv n lines =
     map_option (apfst (append (nl ''=== Dyphira L1 DPoS Blockchain CLI ==='' @
       nl ''Type 'help' for available commands'' @ nl ''Type 'exit' to quit'')))
       (cli_loop fuel e hv n lines)"

section \<open>What commands change\<close>

lemma BroadcastTransaction_node: "\<exists>p. snd (BroadcastTransaction e n tx) = n\<lparr>n_p2p := p\<rparr>"
  by (auto simp: BroadcastTransaction_def node_publish_def split: prod.splits)

lemma broadcast_new_node: "\<exists>p. snd (snd (broadcast_new e hv n out tx report)) = n\<lparr>n_p2p := p\<rparr>"
  using BroadcastTransaction_node [of e n tx] by (auto simp: broadcast_new_def split: prod.splits option.splits)

lemma AppNode_p2p_id: "\<exists>p. n = n\<lparr>n_p2p := p\<rparr>"
  by (rule exI [of _ "n_p2p n"]) simp

lemma submit_unchecked_node: "\<exists>p. snd (snd (submit_unchecked e hv n to amount type what)) = n\<lparr>n_p2p := p\<rparr>"
  by (simp add: submit_unchecked_def Let_def broadcast_new_node AppNode_p2p_id split: sum.split)

lemma cmdSend_node: "\<exists>p. snd (snd (cmdSend e hv n args)) = n\<lparr>n_p2p := p\<rparr>"
  by (simp add: cmdSend_def Let_def broadcast_new_node AppNode_p2p_id split: sum.split)

lemma cmdCreate_node: "\<exists>p. snd (snd (cmdCreate e hv n args)) = n\<lparr>n_p2p := p\<rparr>"
  by (simp add: cmdCreate_def Let_def broadcast_new_node AppNode_p2p_id split: sum.split)

lemma cmdDelegate_node: "\<exists>p. snd (snd (cmdDelegate e hv n args)) = n\<lparr>n_p2p := p\<rparr>"
  by (simp add: cmdDelegate_def submit_unchecked_node AppNode_p2p_id split: sum.split)

lemma cmdRegister_node: "\<exists>p. snd (snd (cmdRegister e hv n args)) = n\<lparr>n_p2p := p\<rparr>"
  by (simp add: cmdRegister_def submit_unchecked_node AppNode_p2p_id split: sum.split list.split)

lemmas command_nodes = cmdSend_node cmdCreate_node cmdDelegate_node cmdRegister_node

lemma executeCommand_node:
  assumes "executeCommand fuel e hv n cmd args = Some (out, err, n')"
  shows "\<exists>p. n' = n\<lparr>n_p2p := p\<rparr>"
proof -
  have "n' = n \<or> n' \<in> {snd (snd (cmdSend e hv n args)), snd (snd (cmdCreate e hv n args)),
      snd (snd (cmdDelegate e hv n args)), snd (snd (cmdRegister e hv n args))}"
    using assms unfolding executeCommand_def Let_def
    by (auto split: if_splits prod.splits)
  then show ?thesis
    using AppNode_p2p_id [of n] command_nodes [of e hv n args] by auto
qed

lemma cli_loop_node: "cli_loop fuel e hv n lines = Some (out, n') \<Longrightarrow> \<exists>p. n' = n\<lparr>n_p2p := p\<rparr>"
proof (induction fuel e hv n lines arbitrary: out rule: cli_loop.induct)
  case (1 fuel e hv n)
  then show ?case using AppNode_p2p_id by auto
next
  case (2 fuel e hv n t lines)
  show ?case
  proof (cases "TrimSpace t = []")
    case True
    then show ?thesis using "2.prems" "2.IH"(1) by (auto simp: Let_def)
  next
    case False
    then obtain o1 err n1 where x: "executeCommand fuel e hv n (List.hd (Fields (TrimSpace t))) (tl (Fields (TrimSpace t))) =
        Some (o1, err, n1)"
      using "2.prems" by (auto simp: Let_def split: option.splits)
    obtain p1 where p1: "n1 = n\<lparr>n_p2p := p1\<rparr>" using executeCommand_node [OF x] by auto
    have "n' = n1 \<or> err \<noteq> Some ''exit'' \<and> (\<exists>out. cli_loop fuel e hv n1 lines = Some (out, n'))"
      using "2.prems" False x by (auto simp: Let_def split: option.splits if_splits)
    moreover have "\<exists>p. n' = n1\<lparr>n_p2p := p\<rparr>" if "cli_loop fuel e hv n1 lines = Some (out', n')" "err \<noteq> Some ''exit''" for out'
      using "2.IH"(2,3) [OF refl False x] that by (cases err) (auto simp: p1)
    ultimately show ?thesis using p1 by auto
  qed
qed

section \<open>The search loops\<close>

interpretation cli_history: countdown "\<lambda>fuel h s. history_print fuel get addr startHeight h s" startHeight "\<lambda>_. True"
  "\<lambda>h (found, out). case get h of
      Inl _ \<Rightarrow> (found, out)
    | Inr block \<Rightarrow>
        let txs = filter (\<lambda>tx. tx_From tx = addr \<or> tx_To tx = addr) (blk_Transactions block)
        in (found \<or> txs \<noteq> [], out @ concat (map (history_entry addr h) txs))" id
  for get addr startHeight
  by unfold_locales auto

lemma tx_search_wrap: "h < 100 \<Longrightarrow> tx_search get hash h h = None"
  using below_hundred_wraps [of h] by (subst tx_search.simps) auto

lemma tx_search_some:
  "tx_search get hash height h = Some (k, tx) \<Longrightarrow>
     height - 100 < k \<and> k \<le> h \<and> (\<exists>b. get k = Inr b \<and> tx \<in> set (blk_Transactions b) \<and> tx_Hash tx = hash)"
proof (induction get hash height h rule: tx_search.induct)
  case (1 get hash height h)
  have run: "0 < h \<and> height - 100 < h" using "1.prems" by (subst (asm) tx_search.simps) (auto split: if_splits)
  then have "h - 1 \<le> h" by (simp add: word_le_nat_alt unat_pred)
  note trans = order_trans [OF _ this]
  show ?case
  proof (cases "get h")
    case (Inl err)
    then show ?thesis using "1.prems" "1.IH"(1) [OF run Inl] run trans by (subst (asm) tx_search.simps) auto
  next
    case (Inr b)
    show ?thesis
    proof (cases "find (\<lambda>tx. tx_Hash tx = hash) (blk_Transactions b)")
      case None
      then show ?thesis using "1.prems" "1.IH"(2) [OF run Inr None] run trans Inr by (subst (asm) tx_search.simps) auto
    next
      case (Some t)
      then have "k = h \<and> tx = t" using "1.prems" run Inr by (subst (asm) tx_search.simps) auto
      then show ?thesis using Some Inr run by (auto simp: find_Some_iff)
    qed
  qed
qed

lemma tx_search_none:
  "tx_search get hash height h = None \<Longrightarrow> 0 < k \<Longrightarrow> height - 100 < k \<Longrightarrow> k \<le> h \<Longrightarrow> get k = Inr b \<Longrightarrow>
     tx \<in> set (blk_Transactions b) \<Longrightarrow> tx_Hash tx \<noteq> hash"
proof (induction get hash height h rule: tx_search.induct)
  case (1 get hash height h)
  have run: "0 < h \<and> height - 100 < h" using "1.prems"(2-4) by auto
  then have less: "k \<le> h - 1" if "k \<noteq> h" using that "1.prems"(4) 
    by (simp add: word_le_nat_alt unat_pred word_unat_eq_iff)
  have next_none: "tx_search get hash height (h - 1) = None \<and> (k = h \<longrightarrow> tx_Hash tx \<noteq> hash)"
  proof (cases "get h")
    case (Inl err)
    then show ?thesis using "1.prems"(1,5) run by (subst (asm) tx_search.simps) auto
  next
    case (Inr c)
    then have "find (\<lambda>tx. tx_Hash tx = hash) (blk_Transactions c) = None \<and> tx_search get hash height (h - 1) = None"
      using "1.prems"(1) run by (subst (asm) tx_search.simps) (auto split: option.splits)
    then show ?thesis using Inr "1.prems"(5,6) by (auto simp: find_None_iff)
  qed
  show ?case
  proof (cases "get h")
    case (Inl err)
    then show ?thesis using "1.IH"(1) [OF run Inl] next_none "1.prems"(2-6) less by (cases "k = h") auto
  next
    case (Inr c)
    then have "find (\<lambda>tx. tx_Hash tx = hash) (blk_Transactions c) = None"
      using "1.prems"(1) run by (subst (asm) tx_search.simps) (auto split: option.splits)
    then show ?thesis using "1.IH"(2) [OF run Inr] next_none "1.prems"(2-6) less by (cases "k = h") auto
  qed
qed

section \<open>Properties\<close>

text \<open>
  The history command of a chain with at most 100 blocks never returns, whatever the address and the
  transactions: its loop counts an unsigned height down while it is at least 0.  On longer chains
  it returns after at most 102 iterations.
\<close>

theorem history_command_diverges:
  assumes "HexToAddress a = Inr addr"
  shows "if Height (n_bc n) \<le> 100 then executeCommand fuel e hv n ''history'' (a # args) = None
    else executeCommand 102 e hv n ''history'' (a # args) \<noteq> None"
proof (cases "Height (n_bc n) \<le> 100")
  case True
  then show ?thesis
    using assms cli_history.stuck [where P = "\<lambda>_. True", OF refl]
    by (simp add: executeCommand_def cmdHistory_def Let_def not_less [symmetric])
next
  case False
  let ?h = "Height (n_bc n)"
  obtain s where "history_print 102 (GetBlockByHeight (e_st e) (n_bc n)) addr (?h - 100) ?h
      (False, nl (''Transaction history for '' @ Address_ToHex addr @ '':'')) = Some s"
    using cli_history.window_ends [OF False refl] by blast
  then show ?thesis
    using assms False above_hundred(3) [OF False]
    by (simp add: executeCommand_def cmdHistory_def Let_def del: history_print.simps)
qed

text \<open>
  C33: What the \<^verbatim>\<open>tx\<close> command finds.  On a chain of at least 100 blocks it finds exactly the transactions of the last 100
  blocks; below that, the lower end of its search wraps around and it finds nothing at all, even
  what is in the chain.
\<close>

theorem tx_command_finds:
  assumes "HexToHash a = Inr hash"
  shows "if Height (n_bc n) < 100 then cmdTx e hv n (a # args) = ([], Some ''transaction not found'')
    else snd (cmdTx e hv n (a # args)) = None \<longleftrightarrow>
      (\<exists>h b tx. Height (n_bc n) - 100 < h \<and> h \<le> Height (n_bc n) \<and> GetBlockByHeight (e_st e) (n_bc n) h = Inr b \<and>
        tx \<in> set (blk_Transactions b) \<and> tx_Hash tx = hash)"
proof (cases "Height (n_bc n) < 100")
  case True
  then show ?thesis using assms by (simp add: cmdTx_def tx_search_wrap)
next
  case False
  let ?h = "Height (n_bc n)" and ?get = "GetBlockByHeight (e_st e) (n_bc n)"
  have "snd (cmdTx e hv n (a # args)) = None \<longleftrightarrow> tx_search ?get hash ?h ?h \<noteq> None"
    using assms by (simp add: cmdTx_def split: option.split)
  moreover have pos: "0 < k" if "?h - 100 < k" for k :: u64
    using that by (metis word_gt_0 word_not_simps(1))
  have "tx_search ?get hash ?h ?h \<noteq> None \<longleftrightarrow>
      (\<exists>h b tx. ?h - 100 < h \<and> h \<le> ?h \<and> ?get h = Inr b \<and> tx \<in> set (blk_Transactions b) \<and> tx_Hash tx = hash)"
  proof
    assume "tx_search ?get hash ?h ?h \<noteq> None"
    then obtain k tx where "tx_search ?get hash ?h ?h = Some (k, tx)" by auto
    from tx_search_some [OF this] show "\<exists>h b tx. ?h - 100 < h \<and> h \<le> ?h \<and> ?get h = Inr b \<and>
        tx \<in> set (blk_Transactions b) \<and> tx_Hash tx = hash" by blast
  qed (use tx_search_none [of ?get hash ?h ?h] pos in blast)
  ultimately show ?thesis using False by simp
qed

lemma demo_chain_height: "Height (n_bc (demo_node ts p s)) = 0"
  using demo_chain_facts(4) by (simp add: demo_node_def)

theorem tx_command_finds_witness:
  "HexToHash (Hash_ToHex 7) = Inr 7 \<and>
   cmdTx demo_env demo_host (demo_node [] ''me'' []) [Hash_ToHex 7] = ([], Some ''transaction not found'')"
  using tx_command_finds [OF HexToHash_ToHex, of "demo_node [] ''me'' []" demo_env demo_host 7 "[]"]
  by (simp add: demo_chain_height HexToHash_ToHex)

text \<open>
  The command line does not touch the node's ledger.  Whatever is typed, a session changes at most the
  network part of its node: chain, accounts, pool, registry and committee are those from before, so that a
  transaction sent from the command line is not in the pool of its own node.
\<close>

theorem session_keeps_ledger:
  assumes "CLI_Start fuel e hv n lines = Some (out, n')"
  shows "\<exists>p. n' = n\<lparr>n_p2p := p\<rparr>"
  using assms cli_loop_node [of fuel e hv n lines] by (auto simp: CLI_Start_def)

theorem session_keeps_ledger_witness:
  "\<exists>out p. CLI_Start 0 demo_env demo_host (demo_node [] ''me'' []) [''  '', '' status '', ''pool'', ''exit''] =
     Some (out, (demo_node [] ''me'' [])\<lparr>n_p2p := p\<rparr>)"
proof -
  have "\<exists>out n'. CLI_Start 0 demo_env demo_host (demo_node [] ''me'' []) [''  '', '' status '', ''pool'', ''exit''] = Some (out, n')"
    by (simp add: CLI_Start_def TrimSpace_def is_space_def Fields_def executeCommand_def cmdStatus_def cmdPool_def cmdExit_def)
  then show ?thesis using session_keeps_ledger by fastforce
qed

section \<open>A transfer from the command line to the other nodes\<close>

text \<open>Numbers are read back as they are printed, whatever follows them.\<close>

lemma Sscanf_num_text: "(r \<noteq> [] \<Longrightarrow> \<not> is_digit (List.hd r)) \<Longrightarrow> Sscanf_d (num_text w @ r) = Inr w"
proof -
  assume r: "r \<noteq> [] \<Longrightarrow> \<not> is_digit (List.hd r)"
  let ?ds = "show_nat (unat w)"
  have num: "num_text w = ?ds" by (simp add: num_text_def print_int_def)
  have "takeWhile is_digit (?ds @ r) = ?ds" by (rule takeWhile_dropWhile_digits(1) [OF show_nat_digits r])
  moreover have "unat w < 2 ^ LENGTH(64)" by (rule unsigned_less)
  ultimately show ?thesis by (simp add: Sscanf_d_def num Let_def)
qed

lemma broadcast_new_ok:
  assumes "broadcast_new e hv n out tx report = (out', None, n')"
  shows "p2p_sent (n_p2p n') = p2p_sent (n_p2p n) @ [(TransactionTopic, NetworkTransaction_Encode
      \<lparr>ntx_Tx = Some tx, ntx_PubKey = Some (MarshalPublicKey (e_cr e) (pub_key (e_cr e) (n_privKey n)))\<rparr>)]"
    (is "_ = _ @ [(_, ?d)]")
proof -
  have "fst (node_publish e n TransactionTopic ?d) = None" and n': "n' = snd (node_publish e n TransactionTopic ?d)"
    using assms by (auto simp: broadcast_new_def BroadcastTransaction_def split: prod.splits option.splits)
  then show ?thesis by (simp add: node_publish_ok_iff node_publish_sent)
qed

lemma cmdSend_ok:
  assumes "cmdSend e hv n args = (out, None, n')"
  obtains toAddr amount fee acc out' report where "HexToAddress (args ! 0) = Inr toAddr" "Sscanf_d (args ! 1) = Inr amount"
    "GetAccount (n_state n) (n_address n) = Inr acc" "\<not> acc_Balance acc < amount + fee" "toAddr \<noteq> n_address n" "amount \<noteq> 0"
    "broadcast_new e hv n out' (api_transaction e n toAddr amount fee (acc_Nonce acc + 1) ''transfer'') report = (out, None, n')"
proof -
  have "2 \<le> length args" using assms by (auto simp: cmdSend_def split: if_splits)
  moreover from this obtain toAddr where "HexToAddress (args ! 0) = Inr toAddr"
    using assms by (auto simp: cmdSend_def split: sum.splits)
  moreover from calculation obtain amount where "Sscanf_d (args ! 1) = Inr amount" "amount \<noteq> 0"
    using assms by (auto simp: cmdSend_def split: sum.splits if_splits)
  moreover from calculation obtain fee where "optional_number args 2 1 ''invalid fee: '' = Inr fee"
    using assms by (auto simp: cmdSend_def split: sum.splits)
  moreover from calculation obtain acc where "GetAccount (n_state n) (n_address n) = Inr acc"
    using assms by (auto simp: cmdSend_def split: sum.splits)
  ultimately show ?thesis
    using assms by (intro that [of toAddr amount acc fee]) (auto simp: cmdSend_def Let_def split: if_splits)
qed

lemma received_transfer:
  assumes "UnmarshalPublicKey (e_cr e) key = Some pk"
    and "Pool_AddTransaction (e_cr e) (n_txPool m) tx pk (n_state m) = (None, put_tx (n_txPool m) tx, n_state m)"
  shows "handleTransaction e m \<lparr>msg_Data = NetworkTransaction_Encode \<lparr>ntx_Tx = Some tx, ntx_PubKey = Some key\<rparr>, msg_ReceivedFrom = peer\<rparr> =
    m\<lparr>n_txPool := put_tx (n_txPool m) tx, n_metrics := RecordTransaction (e_now e) (n_metrics m)\<rparr>"
  using assms by (simp add: handleTransaction_def)

text \<open>
  C30: A transfer sent from the command line reaches the pools of the others.  When \<^verbatim>\<open>send\<close> reports
  success it has published one message; every node that sees the same account for the sender and does not hold the
  transaction yet puts exactly this transfer, with the amount that was typed, into its pool when the message arrives,
  and no score of a peer changes.
\<close>

theorem sent_transfer_enters_pools:
  assumes "cmdSend e hv n args = (out, None, n')" and "ecdsa_ok (e_cr e)" and "state_ok (e_cr e) (n_state n)"
    and "n_address n = pubKeyToAddress (e_cr e) (pub_key (e_cr e) (n_privKey n))"
    and "\<forall>sk. UnmarshalPublicKey (e_cr e) (MarshalPublicKey (e_cr e) (pub_key (e_cr e) sk)) = Some (pub_key (e_cr e) sk)"
  shows "\<exists>tx dat. p2p_sent (n_p2p n') = p2p_sent (n_p2p n) @ [(TransactionTopic, dat)] \<and> tx_From tx = n_address n \<and>
    HexToAddress (args ! 0) = Inr (tx_To tx) \<and> Sscanf_d (args ! 1) = Inr (tx_Value tx) \<and>
    (\<forall>(e' :: 'b env) (m :: 'b AppNode) peer. e_cr e' = e_cr e \<and> state_ok (e_cr e) (n_state m) \<and> acct (n_state m) (n_address n) = acct (n_state n) (n_address n) \<and>
       \<not> in_pool (n_txPool m) (tx_Hash tx) \<longrightarrow>
       handleTransaction e' m \<lparr>msg_Data = dat, msg_ReceivedFrom = peer\<rparr> =
         m\<lparr>n_txPool := put_tx (n_txPool m) tx, n_metrics := RecordTransaction (e_now e') (n_metrics m)\<rparr>)"
proof -
  let ?cr = "e_cr e" and ?sk = "n_privKey n" and ?a = "n_address n"
  obtain toAddr amount fee acc out' report where sent: "HexToAddress (args ! 0) = Inr toAddr" "Sscanf_d (args ! 1) = Inr amount"
    "GetAccount (n_state n) ?a = Inr acc" "\<not> acc_Balance acc < amount + fee"
    "broadcast_new e hv n out' (api_transaction e n toAddr amount fee (acc_Nonce acc + 1) ''transfer'') report = (out, None, n')"
    by (rule cmdSend_ok [OF assms(1)])
  define t where "t = \<lparr>tx_From = ?a, tx_To = toAddr, tx_Value = amount, tx_Nonce = acc_Nonce acc + 1, tx_Fee = fee, tx_Timestamp = now64 e,
        tx_Type = ''transfer'', tx_Signature = [], tx_Hash = 0, tx_Used = False\<rparr>"
  define tx where "tx = Transaction_Sign ?cr t ?sk"
  have tx: "api_transaction e n toAddr amount fee (acc_Nonce acc + 1) ''transfer'' = tx"
    by (simp add: tx_def t_def api_transaction_def)
  have acc: "acct (n_state n) ?a = acc" using sent(3) GetAccount_ok [OF assms(3)] by simp
  have "Pool_AddTransaction ?cr (n_txPool m) tx (pub_key ?cr ?sk) (n_state m) = (None, put_tx (n_txPool m) tx, n_state m)"
    if "state_ok ?cr (n_state m)" "acct (n_state m) ?a = acct (n_state n) ?a" "\<not> in_pool (n_txPool m) (tx_Hash tx)" for m :: "'b AppNode"
    unfolding tx_def
    by (rule Pool_accepts_signed [OF assms(2) that(1) _ _ assms(4)])
      (use that sent(4) acc in \<open>simp_all add: t_def tx_def\<close>)
  note accepted = this
  have "handleTransaction e' m \<lparr>msg_Data = NetworkTransaction_Encode \<lparr>ntx_Tx = Some tx, ntx_PubKey = Some (MarshalPublicKey ?cr (pub_key ?cr ?sk))\<rparr>,
         msg_ReceivedFrom = peer\<rparr> = m\<lparr>n_txPool := put_tx (n_txPool m) tx, n_metrics := RecordTransaction (e_now e') (n_metrics m)\<rparr>"
    if "e_cr e' = ?cr" "state_ok ?cr (n_state m)" "acct (n_state m) ?a = acct (n_state n) ?a" "\<not> in_pool (n_txPool m) (tx_Hash tx)"
    for e' :: "'b env" and m :: "'b AppNode" and peer
    by (rule received_transfer [of _ _ "pub_key ?cr ?sk"]) (use assms(5) that accepted in simp_all)
  moreover have "tx_From tx = ?a" "tx_To tx = toAddr" "tx_Value tx = amount" by (simp_all add: tx_def t_def)
  ultimately show ?thesis using broadcast_new_ok [OF sent(5)] sent(1,2) tx by (intro exI [of _ tx]) auto
qed

theorem sent_transfer_enters_pools_witness:
  "\<exists>out n' (tx :: Transaction) dat. cmdSend demo_env demo_host (funded_node [TransactionTopic])
      [Address_ToHex (n_address (funded_node []) + 1), num_text 10 @ ''.5''] = (out, None, n') \<and>
    p2p_sent (n_p2p n') = [(TransactionTopic, dat)] \<and> tx_Value tx = 10 \<and>
    in_pool (n_txPool (handleTransaction demo_env (funded_node []) \<lparr>msg_Data = dat, msg_ReceivedFrom = ''me''\<rparr>)) (tx_Hash tx)"
proof -
  let ?n = "funded_node [TransactionTopic]" and ?m = "funded_node []"
  let ?args = "[Address_ToHex (n_address (funded_node []) + 1), num_text 10 @ ''.5'']"
  have acc: "GetAccount (key_state 100) (n_address ?n) = Inr \<lparr>acc_Address = n_address ?n, acc_Balance = 100, acc_Nonce = 0\<rparr>"
    using GetAccount_ok(1) [OF key_state_ok] acct_key_state by simp
  have amount: "Sscanf_d (num_text 10 @ ''.5'') = Inr 10" by (rule Sscanf_num_text) (simp add: is_digit_def)
  have keys: "\<forall>sk. UnmarshalPublicKey demo_crypto (MarshalPublicKey demo_crypto (pub_key demo_crypto sk)) = Some (pub_key demo_crypto sk)"
    by (simp add: MarshalPublicKey_def UnmarshalPublicKey_def demo_crypto_def)
  have "fst (BroadcastTransaction demo_env ?n tx) = None" for tx
    by (simp add: BroadcastTransaction_def split_beta node_publish_ok_iff demo_libp2p_def)
  then have "fst (snd (broadcast_new demo_env demo_host ?n out tx report)) = None" for out tx report
    by (simp add: broadcast_new_def split_beta)
  then have "fst (snd (cmdSend demo_env demo_host ?n ?args)) = None"
    using acc amount by (simp add: cmdSend_def HexToAddress_ToHex optional_number_def Let_def)
  then obtain out n' where s: "cmdSend demo_env demo_host ?n ?args = (out, None, n')"
    by (metis fst_conv prod.exhaust snd_conv)
  obtain tx dat where t: "p2p_sent (n_p2p n') = [(TransactionTopic, dat)]" "tx_Value tx = 10"
    "\<not> in_pool (n_txPool ?m) (tx_Hash tx) \<longrightarrow> handleTransaction demo_env ?m \<lparr>msg_Data = dat, msg_ReceivedFrom = ''me''\<rparr> =
         ?m\<lparr>n_txPool := put_tx (n_txPool ?m) tx, n_metrics := RecordTransaction 7 (n_metrics ?m)\<rparr>"
    using sent_transfer_enters_pools [OF s, where 'b = MemoryStore] amount keys key_state_ok ecdsa_ok_demo by auto
  moreover have "\<not> in_pool (n_txPool ?m) (tx_Hash tx)" by (simp add: in_pool_def NewTransactionPool_def)
  moreover have "in_pool (put_tx tp tx) (tx_Hash tx)" for tp by (simp add: in_pool_def put_tx_def)
  ultimately have "in_pool (n_txPool (handleTransaction demo_env ?m \<lparr>msg_Data = dat, msg_ReceivedFrom = ''me''\<rparr>)) (tx_Hash tx)" by simp
  with s t(1,2) show ?thesis by blast
qed

end
