(* ===== verification/Program.thy ===== *)
theory Program
  imports Cli
begin

text \<open>
  \<^verbatim>\<open>main.go\<close>: the start of the process, with the fast synchronization over HTTP, the shutdown hooks, and
  what signals and requests do to the running process; and the parts of \<^verbatim>\<open>p2p.go\<close> that create the
  network node and look at its addresses.  HTTP answers, opened databases, generated keys and
  the libp2p host are arguments.  Left out: the removal of the old database file (the opened database is an
  argument) and log lines.
\<close>

section \<open>The network node\<close>

text \<open>The host that libp2p made, with its identifier and addresses, and whether the publish/subscribe service started.\<close>

definition NewP2PNode :: "gerror + peerID \<times> string list \<Rightarrow> gerror option \<Rightarrow> gerror + P2PNode" where
  "NewP2PNode host pubsub =
     (case host of
        Inl err \<Rightarrow> Inl err
      | Inr (peer, addrs) \<Rightarrow>
          (case pubsub of
             Some err \<Rightarrow> Inl (ErrWrapped ''failed to create pubsub service'' err)
           | None \<Rightarrow> Inr \<lparr>p2p_ID = peer, p2p_Addrs = addrs, p2p_topics = [], p2p_subs = [], p2p_bandwidthIn = 0,
                           p2p_bandwidthOut = 0, p2p_sent = []\<rparr>))"

text \<open>
  The connections \<^verbatim>\<open>Discover\<close> opens to the peers it finds; \<open>None\<close> is the panic when the search
  fails.
\<close>

definition Discover :: "libp2p \<Rightarrow> (peerID \<Rightarrow> bool) \<Rightarrow> P2PNode \<Rightarrow> peerID list option \<Rightarrow> peerID list option" where
  "Discover lp online p found =
     map_option (filter (\<lambda>q. q \<noteq> p2p_ID p \<and> \<not> online q \<and> lp_connect lp q)) found"

text \<open>\<^verbatim>\<open>tcp\<close> gives the TCP component of an address; a port that is not a number leaves 0.\<close>

definition GetListenPort :: "(string \<Rightarrow> string option) \<Rightarrow> P2PNode \<Rightarrow> int" where
  "GetListenPort tcp p =
     (case p2p_Addrs p of
        [] \<Rightarrow> 0
      | addr # _ \<Rightarrow>
          (case tcp addr of
             None \<Rightarrow> 0
           | Some port \<Rightarrow>
               let (neg, s) = (case port of c # r \<Rightarrow> if c = CHR ''-'' then (True, r) else if c = CHR ''+'' then (False, r) else (False, port)
                               | [] \<Rightarrow> (False, []));
                   v = int (read_nat (takeWhile is_digit s))
               in if takeWhile is_digit s = [] then 0
                  else if neg then (if v \<le> 2 ^ 63 then - v else 0) else if v < 2 ^ 63 then v else 0))"

section \<open>Fast synchronization\<close>

text \<open>How the process ends early: \<^verbatim>\<open>log.Fatalf\<close> with a message, or a panic.\<close>

datatype stop = Fatal string | Panicked

text \<open>The answer structs \<^verbatim>\<open>{Success, Data, Error}\<close>; \<open>g\<close> reads the data.\<close>

definition decode_answer :: "(json \<Rightarrow> 'a option) \<Rightarrow> bytes \<Rightarrow> (bool \<times> 'a \<times> string) option" where
  "decode_answer g body = do {
     v \<leftarrow> decode_first body;
     kvs \<leftarrow> members v;
     s \<leftarrow> json_bool (field kvs ''Success'');
     d \<leftarrow> g (field kvs ''Data'');
     er \<leftarrow> json_str (field kvs ''Error'');
     Some (s, d, er) }"

text \<open>The member \<^verbatim>\<open>height\<close> of a decoded map, as a float64; later members win.\<close>

definition height_of :: "(string \<times> json) list \<Rightarrow> float64 option" where
  "height_of kvs = (case map_of (rev kvs) ''height'' of Some (JNum i) \<Rightarrow> Some (f64_of_int i) | _ \<Rightarrow> None)"

definition json_pointer_block :: "json \<Rightarrow> wire_block option" where
  "json_pointer_block v = (if v = JNull then Some NilBlock else json_struct_block v)"

text \<open>The loop over the missing blocks, with fuel: \<open>None\<close> when it does not end within it.\<close>

fun sync_blocks ::
  "nat \<Rightarrow> 's env \<Rightarrow> host \<Rightarrow> (string \<Rightarrow> string + bytes) \<Rightarrow> string \<Rightarrow> u64 \<Rightarrow> u64 \<Rightarrow> 's AppNode \<Rightarrow> (stop + 's AppNode) option" where
  "sync_blocks 0 e hv get peer peerHeight h n = None"
| "sync_blocks (Suc fuel) e hv get peer peerHeight h n =
     (if h \<le> peerHeight then
        (case get (peer @ ''/api/v1/blocks/'' @ num_text h) of
           Inl err \<Rightarrow> Some (Inl (Fatal (''Failed to fetch block '' @ num_text h @ '': '' @ err)))
         | Inr body \<Rightarrow>
             (case decode_answer json_pointer_block body of
                None \<Rightarrow> Some (Inl (Fatal (''Failed to decode block '' @ num_text h @ '': '' @ host_error_text hv ErrUnmarshal)))
              | Some (success, data, err) \<Rightarrow>
                  if \<not> success \<or> data = NilBlock
                  then Some (Inl (Fatal (''Peer returned error for block '' @ num_text h @ '': '' @ err)))
                  else
                    (case data of
                       WireBlock b \<Rightarrow>
                         (case AddBlock (e_st e) (n_bc n) b of
                            (Some err, bc) \<Rightarrow>
                              Some (Inl (Fatal (''Failed to add block '' @ num_text h @ '': '' @ host_error_text hv err)))
                          | (None, bc) \<Rightarrow> sync_blocks fuel e hv get peer peerHeight (h + 1) (n\<lparr>n_bc := bc\<rparr>))
                     | _ \<Rightarrow> Some (Inl Panicked))))
      else Some (Inr n))"

text \<open>The second half: the peer's height, then its blocks.\<close>

definition sync_chain ::
  "nat \<Rightarrow> 's env \<Rightarrow> host \<Rightarrow> (string \<Rightarrow> string + bytes) \<Rightarrow> string \<Rightarrow> 's AppNode \<Rightarrow> (stop + 's AppNode) option" where
  "sync_chain fuel e hv get peer n =
     (case get (peer @ ''/api/v1/node/status'') of
        Inl err \<Rightarrow> Some (Inl (Fatal (''Failed to fetch peer status: '' @ err)))
      | Inr body \<Rightarrow>
          (case decode_answer members body of
             None \<Rightarrow> Some (Inl (Fatal (''Failed to decode status response: '' @ host_error_text hv ErrUnmarshal)))
           | Some (success, data, err) \<Rightarrow>
               if \<not> success then Some (Inl (Fatal (''Peer returned error: '' @ err)))
               else
                 (case height_of data of
                    None \<Rightarrow> Some (Inl (Fatal ''Peer status missing height field''))
                  | Some peerHeight \<Rightarrow>
                      sync_blocks fuel e hv get peer (u64_of_float hv peerHeight) (Height (n_bc n) + 1) n)))"

definition fast_sync ::
  "nat \<Rightarrow> 's env \<Rightarrow> host \<Rightarrow> (string \<Rightarrow> string + bytes) \<Rightarrow> string \<Rightarrow> 's AppNode \<Rightarrow> (stop + 's AppNode) option" where
  "fast_sync fuel e hv get peer n =
     (if peer \<noteq> [] \<and> Height (n_bc n) < 10 then
        (case get (peer @ ''/api/v1/state/snapshot'') of
           Inl err \<Rightarrow> Some (Inl (Fatal (''Failed to fetch snapshot from peer: '' @ err)))
         | Inr body \<Rightarrow>
             (case decode_answer json_accounts body of
                None \<Rightarrow> Some (Inl (Fatal (''Failed to decode snapshot response: '' @ host_error_text hv ErrUnmarshal)))
              | Some (success, accounts, err) \<Rightarrow>
                  if \<not> success then Some (Inl (Fatal (''Peer returned error: '' @ err)))
                  else
                    (case import_decoded (e_cr e) (n_state n) accounts of
                       (finished, state) \<Rightarrow>
                         if \<not> finished then Some (Inl Panicked)
                         else sync_chain fuel e hv get peer (n\<lparr>n_state := state\<rparr>))))
      else Some (Inr n))"

section \<open>Shutdown hooks\<close>

text \<open>
  The hooks act on the running node, which is \<open>None\<close> once it has panicked.  \<open>close_host\<close> is the answer of the
  libp2p host.
\<close>

definition close_chain_store :: "'s env \<Rightarrow> (storage_error \<Rightarrow> string) \<Rightarrow> 's AppNode option \<Rightarrow> string option \<times> 's AppNode option" where
  "close_chain_store e txt w =
     (case w of
        None \<Rightarrow> (None, None)
      | Some n \<Rightarrow>
          (case st_Close (e_st e) (bc_store (n_bc n)) of
             (err, s) \<Rightarrow> (map_option txt err, Some (n\<lparr>n_bc := (n_bc n)\<lparr>bc_store := s\<rparr>\<rparr>))))"

definition close_validator_store :: "'s env \<Rightarrow> (storage_error \<Rightarrow> string) \<Rightarrow> 's AppNode option \<Rightarrow> string option \<times> 's AppNode option" where
  "close_validator_store e txt w =
     (case w of
        None \<Rightarrow> (None, None)
      | Some n \<Rightarrow>
          (case st_Close (e_st e) (vr_store (n_vr n)) of
             (err, s) \<Rightarrow> (map_option txt err, Some (n\<lparr>n_vr := (n_vr n)\<lparr>vr_store := s\<rparr>\<rparr>))))"

definition stop_monitor :: "'s AppNode option \<Rightarrow> string option \<times> 's AppNode option" where
  "stop_monitor w = (None, Option.bind w Inactivity_Stop)"

definition do_nothing :: "'s AppNode option \<Rightarrow> string option \<times> 's AppNode option" where
  "do_nothing w = (None, w)"

definition register_hooks ::
  "'s env \<Rightarrow> (storage_error \<Rightarrow> string) \<Rightarrow> string option \<Rightarrow> 's AppNode option GracefulShutdown \<Rightarrow> 's AppNode option GracefulShutdown" where
  "register_hooks e txt close_host gs =
     foldl (\<lambda>gs (name, hook). Register gs name hook) gs
       [(''p2p'', \<lambda>w. (close_host, w)), (''blockchain'', close_chain_store e txt),
        (''validators'', close_validator_store e txt), (''handshake'', do_nothing),
        (''optimistic-push'', do_nothing), (''inactivity-monitor'', stop_monitor)]"

section \<open>The start\<close>

record flags =
  fl_port :: int
  fl_peer :: string
  fl_fast_sync_peer :: string
  fl_cli :: bool

definition db_path :: "flags \<Rightarrow> string" where
  "db_path fl = ''dyphira-'' @ print_int (fl_port fl) @ ''.db''"

text \<open>The peer given on the command line: a failed connection is only logged, a successful one calls the node's hook.\<close>

definition connect_initial :: "'s env \<Rightarrow> string \<Rightarrow> 's AppNode \<Rightarrow> 's AppNode" where
  "connect_initial e peerAddr n =
     (if peerAddr = [] then n
      else
        (case Connect (e_lp e) peerAddr of
           (None, Some (peer, address)) \<Rightarrow> n\<lparr>n_barNet := AddPeer (e_now e) (n_barNet n) peer address\<rparr>
         | _ \<Rightarrow> n))"

text \<open>
  From the created node to the running process: synchronize, register the hooks, start, connect,
  start the API server and register its hook.
\<close>

definition start_node ::
  "nat \<Rightarrow> flags \<Rightarrow> 's env \<Rightarrow> host \<Rightarrow> (storage_error \<Rightarrow> string) \<Rightarrow> string option \<Rightarrow> (string \<Rightarrow> string + bytes) \<Rightarrow> 's AppNode \<Rightarrow>
   (stop + 's AppNode \<times> 's AppNode option GracefulShutdown) option" where
  "start_node fuel fl e hv txt close_host get n =
     (case fast_sync fuel e hv get (fl_fast_sync_peer fl) n of
        None \<Rightarrow> None
      | Some (Inl s) \<Rightarrow> Some (Inl s)
      | Some (Inr n1) \<Rightarrow>
          (case Start e n1 of
             None \<Rightarrow> Some (Inl (Fatal ''Failed to join topic''))
           | Some n2 \<Rightarrow>
               Some (Inr (connect_initial e (fl_peer fl) n2,
                 Register (register_hooks e txt close_host NewGracefulShutdown) ''api-server'' do_nothing))))"

definition main_start ::
  "nat \<Rightarrow> flags \<Rightarrow> 'd BoltStore env \<Rightarrow> host \<Rightarrow> (storage_error \<Rightarrow> string) \<Rightarrow> string option \<Rightarrow> (string \<Rightarrow> string + bytes) \<Rightarrow>
   'd bbolt \<Rightarrow> string + 'd \<Rightarrow> string + 'd \<Rightarrow> P2PNode option \<Rightarrow> bytes \<Rightarrow> string + privkey \<Rightarrow> string option \<Rightarrow>
   (stop + 'd BoltStore AppNode \<times> 'd BoltStore AppNode option GracefulShutdown) option" where
  "main_start fuel fl e hv txt close_host get B chainDb validatorDb p2p seed key p2p_key_error =
     (case key of
        Inl err \<Rightarrow> Some (Inl (Fatal (''Failed to generate ECDSA private key: '' @ err)))
      | Inr privKey \<Rightarrow>
          (case p2p_key_error of
             Some err \<Rightarrow> Some (Inl (Fatal (''Failed to generate libp2p private key: '' @ err)))
           | None \<Rightarrow>
               (case NewAppNode e B chainDb validatorDb (db_path fl) p2p seed privKey of
                  Inl err \<Rightarrow> Some (Inl (Fatal (''Failed to create application node: '' @ host_error_text hv err)))
                | Inr n \<Rightarrow> start_node fuel fl e hv txt close_host get n)))"

section \<open>The running process\<close>

text \<open>
  In interactive mode the process ends with the command line, without a shutdown.  Otherwise \<^verbatim>\<open>main\<close> waits for its
  own context, which nothing cancels: a shutdown cancels the context of the shutdown manager.  So the process
  reacts to signals and requests until it panics (\<open>pr_node = None\<close>).  The goroutine of
  \<^verbatim>\<open>ListenAndServe\<close> takes one signal; later ones are not read.
\<close>

definition main_cli :: "nat \<Rightarrow> 's env \<Rightarrow> host \<Rightarrow> 's AppNode \<Rightarrow> string list \<Rightarrow> (string \<times> 's AppNode) option" where
  "main_cli fuel e hv n lines = CLI_Start fuel e hv n lines"

definition ListenAndServe :: "'w GracefulShutdown \<Rightarrow> string \<Rightarrow> 'w \<Rightarrow> 'w GracefulShutdown \<times> 'w" where
  "ListenAndServe gs sig w = Shutdown gs (''signal: '' @ sig) w"

record 's process =
  pr_node :: "'s AppNode option"
  pr_shutdown :: "'s AppNode option GracefulShutdown"
  pr_listening :: bool

definition running :: "'s AppNode \<Rightarrow> 's AppNode option GracefulShutdown \<Rightarrow> 's process" where
  "running n gs = \<lparr>pr_node = Some n, pr_shutdown = gs, pr_listening = True\<rparr>"

datatype event = Signal string | Request request

definition process_event :: "nat \<Rightarrow> 's env \<Rightarrow> host \<Rightarrow> event \<Rightarrow> 's process \<Rightarrow> 's process" where
  "process_event fuel e hv ev p =
     (case pr_node p of
        None \<Rightarrow> p
      | Some n \<Rightarrow>
          (case ev of
             Signal sig \<Rightarrow>
               if \<not> pr_listening p then p
               else
                 (case ListenAndServe (pr_shutdown p) sig (Some n) of
                    (gs, n') \<Rightarrow> \<lparr>pr_node = n', pr_shutdown = gs, pr_listening = False\<rparr>)
           | Request r \<Rightarrow>
               (case serve fuel e hv (pr_shutdown p) n r of
                  None \<Rightarrow> p
                | Some (resp, n', gs) \<Rightarrow> p\<lparr>pr_node := n', pr_shutdown := gs\<rparr>)))"

section \<open>Facts\<close>

lemma sync_blocks_frame:
  "sync_blocks fuel e hv get peer H h n = Some (Inr n') \<Longrightarrow> \<exists>bc. n' = n\<lparr>n_bc := bc\<rparr>"
proof (induction fuel arbitrary: h n)
  case (Suc fuel)
  show ?case
  proof (cases "h \<le> H")
    case False
    then have "n' = n\<lparr>n_bc := n_bc n\<rparr>" using Suc.prems by simp
    then show ?thesis by blast
  next
    case True
    with Suc.prems obtain bc where "sync_blocks fuel e hv get peer H (h + 1) (n\<lparr>n_bc := bc\<rparr>) = Some (Inr n')"
      by (auto split: sum.splits option.splits if_splits wire_block.splits prod.splits)
    from Suc.IH [OF this] show ?thesis by auto
  qed
qed simp

lemma fast_sync_frame:
  assumes "fast_sync fuel e hv get peer n = Some (Inr n')"
  shows "\<exists>bc s. n' = n\<lparr>n_state := s, n_bc := bc\<rparr>"
proof (cases "peer \<noteq> [] \<and> Height (n_bc n) < 10")
  case False
  then have "n' = n\<lparr>n_state := n_state n, n_bc := n_bc n\<rparr>" using assms by (auto simp: fast_sync_def)
  then show ?thesis by blast
next
  case True
  then obtain s where "sync_chain fuel e hv get peer (n\<lparr>n_state := s\<rparr>) = Some (Inr n')"
    using assms by (auto simp: fast_sync_def split: sum.splits option.splits if_splits prod.splits)
  then obtain H h where "sync_blocks fuel e hv get peer H h (n\<lparr>n_state := s\<rparr>) = Some (Inr n')"
    by (auto simp: sync_chain_def split: sum.splits option.splits if_splits)
  from sync_blocks_frame [OF this] show ?thesis by auto
qed

lemma Start_monitor:
  assumes "Start e n = Some n'"
  shows "n_inactivityMonitor n' = n_inactivityMonitor n"
  using assms
  by (auto simp: Start_def Handshake_Start_def Push_Start_def Inactivity_Start_def FastSync_Start_def
      split: bind_splits if_splits)

lemma connect_initial_monitor: "n_inactivityMonitor (connect_initial e a n) = n_inactivityMonitor n"
  by (simp add: connect_initial_def split: prod.split option.split)

lemma start_node_hooks:
  assumes "start_node fuel fl e hv txt close_host get n0 = Some (Inr (n, gs))"
  shows "n_inactivityMonitor n = n_inactivityMonitor n0"
    "gs = Register (register_hooks e txt close_host NewGracefulShutdown) ''api-server'' do_nothing"
proof -
  obtain n1 n2 where "fast_sync fuel e hv get (fl_fast_sync_peer fl) n0 = Some (Inr n1)" "Start e n1 = Some n2"
    "n = connect_initial e (fl_peer fl) n2"
    and gs: "gs = Register (register_hooks e txt close_host NewGracefulShutdown) ''api-server'' do_nothing"
    using assms by (auto simp: start_node_def split: option.splits sum.splits)
  then show "n_inactivityMonitor n = n_inactivityMonitor n0"
    using fast_sync_frame [of fuel e hv get "fl_fast_sync_peer fl" n0 n1] Start_monitor [of e n1 n2]
    by (auto simp: connect_initial_monitor)
  show "gs = Register (register_hooks e txt close_host NewGracefulShutdown) ''api-server'' do_nothing" by (rule gs)
qed

section \<open>Fast synchronization from a node of this program\<close>

text \<open>What \<^verbatim>\<open>http.Get\<close> returns when the address is that of a running node: the body, or an error.\<close>

definition peer_get :: "'s env \<Rightarrow> host \<Rightarrow> 's AppNode option GracefulShutdown \<Rightarrow> 's AppNode \<Rightarrow> string \<Rightarrow> string \<Rightarrow> string + bytes" where
  "peer_get e hv gs m base url =
     (case serve 0 e hv gs m \<lparr>rq_Method = ''GET'', rq_Path = drop (length base) url, rq_Query = (\<lambda>_. []), rq_Body = []\<rparr> of
        Some (Some resp, _) \<Rightarrow> Inr (hr_Body resp)
      | _ \<Rightarrow> Inl ''EOF'')"

lemma not_found_decodes: "decode_first (hr_Body not_found) = Some (JNum 404)"
  by code_simp

lemma peer_status_missing: "peer_get e hv gs m base (base @ ''/api/v1/node/status'') = Inr (hr_Body not_found)"
  by (simp add: peer_get_def serve_def serve_v1_def api_route_def exact_routes_def has_prefix_def handleDynamic_def write_reply_def)

lemma ok_body:
  "hr_Body (writeJSON hv (ok_response (DStruct v))) = print_json (JObj [(''success'', JBool True), (''data'', v)]) @ [CHR 0x0A]"
  by (simp add: writeJSON_def response_text_def ok_response_def object_text_def encode_body_def)

lemma decode_ok_body:
  assumes "g v = Some d" and "r \<noteq> [] \<Longrightarrow> \<not> is_digit (List.hd r)"
  shows "decode_answer g (print_json (JObj [(''success'', JBool True), (''data'', v)]) @ r) = Some (True, d, [])"
proof -
  have "lower ''Success'' = ''success''" "lower ''success'' = ''success''" "lower ''Data'' = ''data''" "lower ''data'' = ''data''"
    "lower ''Error'' = ''error''" by code_simp+
  then have "field [(''success'', JBool True), (''data'', v)] ''Success'' = JBool True"
    "field [(''success'', JBool True), (''data'', v)] ''Data'' = v"
    "field [(''success'', JBool True), (''data'', v)] ''Error'' = JNull"
    by (simp_all add: field_def)
  moreover have "json_str JNull = Some []" by (simp add: json_str_def)
  ultimately show ?thesis using assms by (simp add: decode_answer_def del: print_json.simps)
qed

text \<open>
  C29: No node of this program can serve a fast synchronization.  The joining node asks its peer for
  \<^verbatim>\<open>/api/v1/node/status\<close>; the peer's server has no such route and answers ``404 page not found'', which does not decode, so that
  the joining process always ends with a fatal error, after it has imported the peer's accounts.
\<close>

theorem fast_sync_from_node_fails:
  assumes "peer \<noteq> []" "Height (n_bc n) < 10" and "state_ok (e_cr e') (n_state m)"
  shows "fast_sync fuel e hv (peer_get e' hv' gs m peer) peer n =
    Some (Inl (Fatal (''Failed to decode status response: '' @ host_error_text hv ErrUnmarshal)))"
proof -
  obtain accs where accs: "ExportSnapshot (n_state m) = Inr accs"
    using snapshot_rebuild [OF assms(3)] by blast
  have "peer_get e' hv' gs m peer (peer @ ''/api/v1/state/snapshot'') =
      Inr (hr_Body (writeJSON hv' (ok_response (DStruct (list_json account_json accs)))))"
    using accs by (simp add: peer_get_def serve_def serve_v1_def api_route_def exact_routes_def has_prefix_def
        handleStateSnapshot_def write_reply_def)
  moreover have "decode_answer json_accounts (hr_Body (writeJSON hv' (ok_response (DStruct (list_json account_json accs))))) =
      Some (True, map Some accs, [])"
    unfolding ok_body by (rule decode_ok_body) (simp_all add: json_accounts_list is_digit_def)
  moreover have "decode_answer members (hr_Body not_found) = None"
    by (simp add: decode_answer_def not_found_decodes members_def)
  ultimately show ?thesis
    using assms(1,2) by (simp add: fast_sync_def import_decoded_all sync_chain_def peer_status_missing)
qed

theorem fast_sync_from_node_fails_witness:
  "fast_sync 5 demo_env demo_host (peer_get demo_env demo_host NewGracefulShutdown (demo_node [] ''you'' []) ''http://peer:8081'')
     ''http://peer:8081'' (demo_node [] ''me'' []) = Some (Inl (Fatal ''Failed to decode status response: ''))"
proof -
  have "state_ok (e_cr demo_env) (n_state (demo_node [] ''you'' []))" by (simp add: demo_node_def demo_state_ok)
  moreover have "host_error_text demo_host ErrUnmarshal = []" by (simp add: demo_host_def)
  moreover have "Height (n_bc (demo_node [] ''me'' [])) < 10" by (simp add: demo_chain_height)
  ultimately show ?thesis
    using fast_sync_from_node_fails [of "''http://peer:8081''" "demo_node [] ''me'' []" demo_env "demo_node [] ''you'' []" 5 demo_env
        demo_host demo_host NewGracefulShutdown] by simp
qed

section \<open>Fast synchronization from any server that answers\<close>

text \<open>The body with which a server answers successfully.\<close>

definition ok_answer :: "json \<Rightarrow> bytes" where
  "ok_answer v = print_json (JObj [(''success'', JBool True), (''data'', v)])"

lemma decode_ok_answer: "g v = Some d \<Longrightarrow> decode_answer g (ok_answer v) = Some (True, d, [])"
  using decode_ok_body [of g v d "[]"] by (simp add: ok_answer_def)

lemma pointer_block: "json_pointer_block (block_json b) = Some (WireBlock b)"
proof -
  have "block_json b \<noteq> JNull" by (simp add: block_json_def)
  then show ?thesis by (simp add: json_pointer_block_def)
qed

lemma sync_blocks_all:
  assumes store: "reliable_store (e_st e) I" and ok: "chain_ok (e_cr e) (e_st e) I (n_bc n)"
    and "unat (Height (n_bc n)) + d = unat H" and "unat H + 1 < 2 ^ 64"
    and answers: "\<forall>h. Height (n_bc n) < h \<and> h \<le> H \<longrightarrow>
      get (peer @ ''/api/v1/blocks/'' @ num_text h) = Inr (ok_answer (block_json (b h))) \<and> blk_Number (b h) = h"
  shows "\<exists>n'. sync_blocks (Suc d) e hv get peer H (Height (n_bc n) + 1) n = Some (Inr n') \<and>
    Height (n_bc n') = H \<and> n_state n' = n_state n \<and>
    (\<forall>h. Height (n_bc n) < h \<and> h \<le> H \<longrightarrow> GetBlockByHeight (e_st e) (n_bc n') h = Inr (b h)) \<and>
    (\<forall>h \<le> Height (n_bc n). GetBlockByHeight (e_st e) (n_bc n') h = GetBlockByHeight (e_st e) (n_bc n) h)"
  using ok assms(3) answers
proof (induction d arbitrary: n)
  case 0
  then have "Height (n_bc n) = H" by (simp add: word_unat_eq_iff)
  moreover from this have "\<not> H + 1 \<le> H" using assms(4) by (simp add: word_le_nat_alt unat_word_ariths)
  ultimately show ?case by auto
next
  case (Suc d)
  let ?c = "Height (n_bc n)"
  have c1: "unat (?c + 1) = unat ?c + 1" using Suc.prems(2) assms(4) by (simp add: unat_word_ariths)
  then have lt: "?c < ?c + 1" "?c + 1 \<le> H" using Suc.prems(2) by (simp_all add: word_le_nat_alt word_less_nat_alt)
  have step: "?c < h \<longleftrightarrow> h = ?c + 1 \<or> ?c + 1 < h" "h \<le> ?c + 1 \<longleftrightarrow> h \<le> ?c \<or> h = ?c + 1" for h
    unfolding word_le_nat_alt word_less_nat_alt word_unat_eq_iff c1 by auto
  have a: "get (peer @ ''/api/v1/blocks/'' @ num_text (?c + 1)) = Inr (ok_answer (block_json (b (?c + 1))))" "blk_Number (b (?c + 1)) = ?c + 1"
    using Suc.prems(3) lt by blast+
  obtain bc where bc: "AddBlock (e_st e) (n_bc n) (b (?c + 1)) = (None, bc)" "chain_ok (e_cr e) (e_st e) I bc"
    "bc_currentHeight bc = bc_currentHeight (n_bc n) + 1"
    "GetBlockByHeight (e_st e) bc (bc_currentHeight (n_bc n) + 1) = Inr (b (?c + 1))"
    "\<forall>h \<le> bc_currentHeight (n_bc n). GetBlockByHeight (e_st e) bc h = GetBlockByHeight (e_st e) (n_bc n) h"
    using reliable_store.AddBlock_extends [OF store Suc.prems(1), of "b (?c + 1)"] a(2) Suc.prems(2) assms(4)
    by (auto simp: Height_def)
  let ?n = "n\<lparr>n_bc := bc\<rparr>"
  have h: "Height bc = ?c + 1" using bc(3) by (simp add: Height_def)
  have "\<exists>n'. sync_blocks (Suc d) e hv get peer H (Height (n_bc ?n) + 1) ?n = Some (Inr n') \<and>
    Height (n_bc n') = H \<and> n_state n' = n_state ?n \<and>
    (\<forall>h. Height (n_bc ?n) < h \<and> h \<le> H \<longrightarrow> GetBlockByHeight (e_st e) (n_bc n') h = Inr (b h)) \<and>
    (\<forall>h \<le> Height (n_bc ?n). GetBlockByHeight (e_st e) (n_bc n') h = GetBlockByHeight (e_st e) (n_bc ?n) h)"
    by (rule Suc.IH) (use bc(2) h c1 Suc.prems(2,3) step in \<open>auto\<close>)
  then obtain n' where n': "sync_blocks (Suc d) e hv get peer H (?c + 1 + 1) ?n = Some (Inr n')" "Height (n_bc n') = H" "n_state n' = n_state n"
    "\<forall>h. ?c + 1 < h \<and> h \<le> H \<longrightarrow> GetBlockByHeight (e_st e) (n_bc n') h = Inr (b h)"
    "\<forall>h \<le> ?c + 1. GetBlockByHeight (e_st e) (n_bc n') h = GetBlockByHeight (e_st e) bc h"
    using h by auto
  have "sync_blocks (Suc (Suc d)) e hv get peer H (?c + 1) n = Some (Inr n')"
    using lt(2) a bc(1) n'(1) decode_ok_answer [of json_pointer_block, OF pointer_block]
    by (subst sync_blocks.simps) (simp del: sync_blocks.simps)
  moreover have "GetBlockByHeight (e_st e) (n_bc n') h = Inr (b h)" if "?c < h" "h \<le> H" for h
    using that n'(4,5) bc(4) step(1) [of h] by (auto simp: Height_def)
  moreover have "GetBlockByHeight (e_st e) (n_bc n') h = GetBlockByHeight (e_st e) (n_bc n) h" if "h \<le> ?c" for h
    using that n'(5) bc(5) step(2) [of h] by (auto simp: Height_def)
  ultimately show ?case using n'(2,3) by blast
qed

text \<open>
  C28: A fast synchronization believes its peer.  Against a server that answers the three requests, every account of the
  snapshot gets exactly the balance and nonce listed there and every other account stays as it was; every block of the
  server up to the announced height is stored at its height, on top of the blocks the node had, which
  stay; nothing else of the node changes.  No signature, approval, hash link or transaction of the blocks is
  checked, and nothing relates the accounts to the blocks.
\<close>

theorem fast_sync_believes_peer:
  assumes "reliable_store (e_st e) I" "chain_ok (e_cr e) (e_st e) I (n_bc n)" "Height (n_bc n) < 10" "peer \<noteq> []"
    and "get (peer @ ''/api/v1/state/snapshot'') = Inr (ok_answer (list_json account_json accs))" "distinct (map acc_Address accs)"
    and "get (peer @ ''/api/v1/node/status'') = Inr (ok_answer (JObj [(''height'', JNum (uint H))]))"
    and "u64_of_float hv (f64_of_int (uint H)) = H" "Height (n_bc n) \<le> H" "unat H + 1 < 2 ^ 64"
    and "\<forall>h. Height (n_bc n) < h \<and> h \<le> H \<longrightarrow>
      get (peer @ ''/api/v1/blocks/'' @ num_text h) = Inr (ok_answer (block_json (b h))) \<and> blk_Number (b h) = h"
  shows "\<exists>n'. fast_sync (Suc (unat H - unat (Height (n_bc n)))) e hv get peer n = Some (Inr n') \<and> Height (n_bc n') = H \<and>
    (\<forall>h. Height (n_bc n) < h \<and> h \<le> H \<longrightarrow> GetBlockByHeight (e_st e) (n_bc n') h = Inr (b h)) \<and>
    (\<forall>h \<le> Height (n_bc n). GetBlockByHeight (e_st e) (n_bc n') h = GetBlockByHeight (e_st e) (n_bc n) h) \<and>
    (\<forall>acc \<in> set accs. acct (n_state n') (acc_Address acc) = acc) \<and>
    (\<forall>a. a \<notin> acc_Address ` set accs \<longrightarrow> acct (n_state n') a = acct (n_state n) a) \<and>
    n' = n\<lparr>n_bc := n_bc n', n_state := n_state n'\<rparr>"
proof -
  let ?s = "ImportSnapshot (e_cr e) (n_state n) accs"
  let ?n = "n\<lparr>n_state := ?s\<rparr>" and ?d = "unat H - unat (Height (n_bc n))"
  have "unat (Height (n_bc ?n)) + ?d = unat H" using assms(9) by (simp add: word_le_nat_alt)
  with sync_blocks_all [of e I ?n ?d H get peer b hv] assms(1,2,10,11)
  obtain n' where n': "sync_blocks (Suc ?d) e hv get peer H (Height (n_bc n) + 1) ?n = Some (Inr n')"
    "Height (n_bc n') = H" "n_state n' = ?s"
    "\<forall>h. Height (n_bc n) < h \<and> h \<le> H \<longrightarrow> GetBlockByHeight (e_st e) (n_bc n') h = Inr (b h)"
    "\<forall>h \<le> Height (n_bc n). GetBlockByHeight (e_st e) (n_bc n') h = GetBlockByHeight (e_st e) (n_bc n) h"
    by auto
  have "sync_chain (Suc ?d) e hv get peer ?n = Some (Inr n')"
    using assms(7,8) n'(1) decode_ok_answer [of members, OF members_JObj]
    by (simp add: sync_chain_def height_of_def del: sync_blocks.simps)
  then have "fast_sync (Suc ?d) e hv get peer n = Some (Inr n')"
    using assms(3-5) decode_ok_answer [of json_accounts, OF json_accounts_list] by (simp add: fast_sync_def import_decoded_all)
  moreover have "acct ?s (acc_Address acc) = acc" if "acc \<in> set accs" for acc
    using acct_ImportSnapshot_mem [OF assms(6) that] .
  moreover have "acct ?s a = acct (n_state n) a" if "a \<notin> acc_Address ` set accs" for a
    using acct_ImportSnapshot_other [OF assms(6) that] .
  moreover have "n' = n\<lparr>n_bc := n_bc n', n_state := n_state n'\<rparr>" using sync_blocks_frame [OF n'(1)] by auto
  ultimately show ?thesis using n'(2-5) by (intro exI [of _ n']) auto
qed

text \<open>A server that announces one block, of its own making, and an account.\<close>

definition forged_block :: Block where
  "forged_block = (createGenesisBlock demo_crypto)
     \<lparr>blk_Header := (blk_Header (createGenesisBlock demo_crypto))\<lparr>hdr_BlockNumber := 1\<rparr>\<rparr>"

definition forging_server :: "string \<Rightarrow> string + bytes" where
  "forging_server url =
     (if url = ''http://evil/api/v1/state/snapshot''
      then Inr (ok_answer (list_json account_json [\<lparr>acc_Address = 9, acc_Balance = 5000, acc_Nonce = 0\<rparr>]))
      else if url = ''http://evil/api/v1/node/status'' then Inr (ok_answer (JObj [(''height'', JNum 1)]))
      else Inr (ok_answer (block_json forged_block)))"

lemma one_as_float: "u64_of_float demo_host (f64_of_int 1) = 1"
  by code_simp

theorem fast_sync_believes_peer_witness:
  "\<exists>n'. fast_sync (Suc (Suc 0)) demo_env demo_host forging_server ''http://evil'' (demo_node [] ''me'' []) = Some (Inr n') \<and>
     GetBlockByHeight MemoryStore_ops (n_bc n') 1 = Inr forged_block \<and> acc_Balance (acct (n_state n') 9) = 5000"
proof -
  let ?n = "demo_node [] ''me'' []"
  have n: "chain_ok (e_cr demo_env) (e_st demo_env) MemoryStore_wf (n_bc ?n)" "Height (n_bc ?n) = 0"
    using demo_chain_facts(2) demo_chain_height by (simp_all add: demo_node_def)
  have one: "h = 1" if "0 < h" "h \<le> 1" for h :: u64
    using that by (simp add: word_le_nat_alt word_less_nat_alt word_unat_eq_iff)
  have blocks: "\<forall>h. 0 < h \<and> h \<le> 1 \<longrightarrow>
      forging_server (''http://evil'' @ ''/api/v1/blocks/'' @ num_text h) = Inr (ok_answer (block_json forged_block)) \<and> blk_Number forged_block = h"
    using one by (auto simp: forging_server_def forged_block_def)
  show ?thesis
    using fast_sync_believes_peer [of demo_env MemoryStore_wf ?n "''http://evil''" forging_server
        "[\<lparr>acc_Address = 9, acc_Balance = 5000, acc_Nonce = 0\<rparr>]" 1 demo_host "\<lambda>_. forged_block"] memory_store.reliable_store_axioms n blocks one_as_float
    by (simp add: forging_server_def) fastforce
qed

section \<open>Shutting down\<close>

lemma running_hooks:
  assumes gs: "gs = Register (register_hooks e txt close_host NewGracefulShutdown) ''api-server'' do_nothing"
    and "im_stopChan (n_inactivityMonitor n) = OpenChan"
  obtains gs' n' where "Shutdown gs reason (Some n) = (gs', Some n')" "ss_Reason (Status gs') = reason"
    "go_get (ss_Components (Status gs')) ''inactivity-monitor'' = Some ''stopped''"
    "gs_components gs' = gs_components gs" "im_stopChan (n_inactivityMonitor n') = ClosedChan"
proof -
  obtain err1 s1 where c1: "st_Close (e_st e) (bc_store (n_bc n)) = (err1, s1)" by fastforce
  obtain err2 s2 where c2: "st_Close (e_st e) (vr_store (n_vr n)) = (err2, s2)" by fastforce
  obtain gs' w where r: "Shutdown gs reason (Some n) = (gs', w)" by fastforce
  note defs = gs register_hooks_def Register_def NewGracefulShutdown_def Shutdown_def
  note hooks = close_chain_store_def close_validator_store_def stop_monitor_def do_nothing_def Inactivity_Stop_def close_def hook_status_def
  have "\<exists>n'. w = Some n' \<and> im_stopChan (n_inactivityMonitor n') = ClosedChan" "ss_Reason (Status gs') = reason"
    "go_get (ss_Components (Status gs')) ''inactivity-monitor'' = Some ''stopped''" "gs_components gs' = gs_components gs"
    using r c1 c2 assms(2) by (auto simp: defs hooks Status_def)
  with r show ?thesis by (auto intro: that)
qed

lemma stopped_hooks:
  assumes "gs_components gs = gs_components (Register (register_hooks e txt close_host NewGracefulShutdown) ''api-server'' do_nothing)"
    and "im_stopChan (n_inactivityMonitor n) \<noteq> OpenChan"
  shows "snd (Shutdown gs reason (Some n)) = None"
  using assms by (auto simp: register_hooks_def Register_def NewGracefulShutdown_def Shutdown_def
      close_chain_store_def close_validator_store_def stop_monitor_def do_nothing_def Inactivity_Stop_def close_def
      split: prod.splits)

text \<open>
  C35: A process can be shut down once.  The first signal runs all hooks, in order, and records the reason, and the process goes on
  waiting; a second signal is not read; and a request for a shutdown after that panics, because the monitor's channel is closed a second time.
\<close>

theorem second_shutdown_panics:
  assumes "start_node fuel fl e hv txt close_host get n0 = Some (Inr (n, gs))"
    and "im_stopChan (n_inactivityMonitor n0) = OpenChan"
    and "rq_Method r = ''POST''" "rq_Path r = ''/shutdown''"
  shows "\<exists>n1 gs1. process_event fuel' e hv (Signal sig) (running n gs) = \<lparr>pr_node = Some n1, pr_shutdown = gs1, pr_listening = False\<rparr> \<and>
    ss_Reason (Status gs1) = ''signal: '' @ sig \<and> go_get (ss_Components (Status gs1)) ''inactivity-monitor'' = Some ''stopped'' \<and>
    process_event fuel' e hv (Signal sig') \<lparr>pr_node = Some n1, pr_shutdown = gs1, pr_listening = False\<rparr> =
      \<lparr>pr_node = Some n1, pr_shutdown = gs1, pr_listening = False\<rparr> \<and>
    pr_node (process_event fuel' e hv (Request r) \<lparr>pr_node = Some n1, pr_shutdown = gs1, pr_listening = False\<rparr>) = None"
proof -
  note gs = start_node_hooks(2) [OF assms(1)]
  have "im_stopChan (n_inactivityMonitor n) = OpenChan" using start_node_hooks(1) [OF assms(1)] assms(2) by simp
  then obtain gs1 n1 where s: "Shutdown gs (''signal: '' @ sig) (Some n) = (gs1, Some n1)" "ss_Reason (Status gs1) = ''signal: '' @ sig"
    "go_get (ss_Components (Status gs1)) ''inactivity-monitor'' = Some ''stopped''"
    "gs_components gs1 = gs_components gs" "im_stopChan (n_inactivityMonitor n1) = ClosedChan"
    by (rule running_hooks [OF gs])
  have "snd (Shutdown gs1 ''API request'' (Some n1)) = None"
    using stopped_hooks [of gs1 e "txt" close_host n1] s(4,5) gs by simp
  then have "\<exists>resp gs2. serve fuel' e hv gs1 n1 r = Some (resp, None, gs2)"
    using assms(3,4) by (auto simp: serve_def has_prefix_def handleShutdown_def split: prod.split)
  then show ?thesis
    using s by (intro exI [of _ n1] exI [of _ gs1]) (auto simp: process_event_def running_def ListenAndServe_def)
qed

theorem second_shutdown_panics_witness:
  "\<exists>n gs. start_node 0 \<lparr>fl_port = 8080, fl_peer = [], fl_fast_sync_peer = [], fl_cli = False\<rparr> demo_env demo_host (\<lambda>_. []) None
      (\<lambda>_. Inl []) (demo_node [] ''me'' []) = Some (Inr (n, gs)) \<and>
    pr_node (process_event 0 demo_env demo_host (Request \<lparr>rq_Method = ''POST'', rq_Path = ''/shutdown'', rq_Query = (\<lambda>_. []), rq_Body = []\<rparr>)
      (process_event 0 demo_env demo_host (Signal ''interrupt'') (running n gs))) = None"
proof -
  let ?n = "demo_node [] ''me'' []" and ?r = "\<lparr>rq_Method = ''POST'', rq_Path = ''/shutdown'', rq_Query = (\<lambda>_. []), rq_Body = []\<rparr>"
  let ?fl = "\<lparr>fl_port = 8080, fl_peer = [], fl_fast_sync_peer = [], fl_cli = False\<rparr>"
  have "Start demo_env ?n \<noteq> None"
    by (simp add: Start_def RegisterTopic_def Handshake_Start_def Push_Start_def Inactivity_Start_def demo_libp2p_def)
  then obtain n gs where s: "start_node 0 ?fl demo_env demo_host (\<lambda>_. []) None (\<lambda>_. Inl []) ?n = Some (Inr (n, gs))"
    by (auto simp: start_node_def fast_sync_def)
  moreover have "im_stopChan (n_inactivityMonitor ?n) = OpenChan" by (simp add: demo_node_def NewInactivityMonitor_def)
  ultimately show ?thesis
    using second_shutdown_panics [OF s, of ?r 0 "''interrupt''" "[]"] by auto
qed

end
