(* ===== verification/Process_Invariant.thy ===== *)
theory Process_Invariant
  imports Program
begin

text \<open>
  The whole process: a node that handles messages, ticks and goroutines while the API server of the
  same process answers requests and the process connects to peers, in any order.
\<close>

section \<open>Requests\<close>

text \<open>The part of a node that requests leave alone: the chain, the registry, consensus and the peers.\<close>

definition kept_by_requests :: "'s AppNode \<Rightarrow> 's AppNode \<Rightarrow> bool" where
  "kept_by_requests n n' \<longleftrightarrow> core n' = core n \<and> n_vr n' = n_vr n \<and> n_approvalBuffer n' = n_approvalBuffer n \<and>
     n_committee n' = n_committee n \<and> n_proposerSelector n' = n_proposerSelector n \<and> n_barNet n' = n_barNet n \<and>
     n_privKey n' = n_privKey n \<and> n_address n' = n_address n"

definition request_ok :: "('s \<Rightarrow> bool) \<Rightarrow> 's env \<Rightarrow> 's AppNode \<Rightarrow> 's AppNode \<Rightarrow> bool" where
  "request_ok I e n n' \<longleftrightarrow> kept_by_requests n n' \<and> node_ok I e n'"

lemma request_ok_metrics: "node_ok I e n \<Longrightarrow> request_ok I e n (n\<lparr>n_metrics := mc\<rparr>)"
  by (simp add: request_ok_def kept_by_requests_def node_ok_def)

lemma request_ok_refl: "node_ok I e n \<Longrightarrow> request_ok I e n n"
  by (simp add: request_ok_def kept_by_requests_def)

lemma request_ok_submit:
  assumes "node_ok I e n"
  shows "request_ok I e n (snd (submit_transaction e hv n tx sender req))"
proof -
  let ?pk = "pub_key (e_cr e) (n_privKey n)"
  obtain err tp where add: "Pool_AddTransaction (e_cr e) (n_txPool n) tx ?pk (n_state n) = (err, tp, n_state n)"
    using Pool_Add_state [OF node_okD(3) [OF assms], of "n_txPool n" tx ?pk] by (metis prod.collapse)
  have "pool_ok tp" using pool_ok_Add [OF node_okD(2) [OF assms], of "e_cr e" tx ?pk "n_state n"] add by simp
  then show ?thesis
    using assms by (cases err) (simp_all add: submit_transaction_def add Let_def request_ok_def kept_by_requests_def node_ok_def core_def)
qed

lemma request_ok_create:
  assumes "node_ok I e n" shows "request_ok I e n (snd (handleCreateTransaction e hv n m body))"
  using request_ok_submit [OF assms] request_ok_refl [OF assms]
  by (simp add: handleCreateTransaction_def Let_def split: option.split sum.split)

lemma request_ok_snapshot:
  assumes "node_ok I e n" shows "request_ok I e n (snd (handleStateSnapshot e n r))"
proof -
  have "state_ok (e_cr e) (ImportSnapshot (e_cr e) (n_state n) accs)" for accs
    unfolding ImportSnapshot_def by (rule state_accounts.puts_ok) (rule node_okD(3) [OF assms])
  then have "request_ok I e n (n\<lparr>n_state := ImportSnapshot (e_cr e) (n_state n) accs\<rparr>)" for accs
    using assms by (simp add: request_ok_def kept_by_requests_def node_ok_def)
  then show ?thesis
    using request_ok_refl [OF assms] by (simp add: handleStateSnapshot_def import_decoded_def split: sum.split option.split)
qed

lemma request_ok_v1:
  assumes "node_ok I e n" "serve_v1 fuel e hv n r = Some (rep, n')"
  shows "request_ok I e n n'"
proof -
  obtain mc mc2 where "snd (handleNetwork e hv n) = n\<lparr>n_metrics := mc\<rparr>" "snd (handleMetrics e hv n) = n\<lparr>n_metrics := mc2\<rparr>"
    using handleNetwork_metrics [of e hv n] handleMetrics_metrics [of e hv n] by blast
  moreover have reply: "n' = snd x" if "apfst Reply x = (rep, n')" for x using that by (cases x) simp
  ultimately show ?thesis
    using assms(2) request_ok_refl [OF assms(1)] request_ok_metrics [OF assms(1)] request_ok_create [OF assms(1), of hv]
      request_ok_snapshot [OF assms(1), of r]
    by (auto simp: serve_v1_def dest!: reply split: endpoint.splits)
qed

lemma request_ok_serve:
  assumes "node_ok I e n" "serve fuel e hv gs n r = Some (resp, n', gs')"
    and "\<not> (rq_Path r = ''/shutdown'' \<and> rq_Method r = ''POST'')"
  shows "gs' = gs \<and> (\<exists>m. n' = Some m \<and> request_ok I e n m)"
  using assms(2,3) request_ok_v1 [OF assms(1)] request_ok_refl [OF assms(1)]
  by (auto simp: serve_def handleShutdown_def split: if_splits)

section \<open>Executions\<close>

text \<open>
  What the process does to its node between its creation and a shutdown: steps of the node, requests, and
  the connection to the peer of the command line, in any order and each in its own environment.
\<close>

inductive process_run :: "'s env \<Rightarrow> 's AppNode \<Rightarrow> 's AppNode \<Rightarrow> bool" for e n0 where
  process_new: "process_run e n0 n0"
| process_node: "process_run e n0 n \<Longrightarrow> node_run e n n' \<Longrightarrow> process_run e n0 n'"
| process_request: "process_run e n0 n \<Longrightarrow> e_cr e' = e_cr e \<Longrightarrow> e_st e' = e_st e \<Longrightarrow>
    \<not> (rq_Path r = ''/shutdown'' \<and> rq_Method r = ''POST'') \<Longrightarrow>
    serve fuel e' hv gs n r = Some (resp, Some n', gs') \<Longrightarrow> process_run e n0 n'"
| process_connect: "process_run e n0 n \<Longrightarrow> process_run e n0 (connect_initial e' peerAddr n)"

lemma node_ok_env: "e_cr e' = e_cr e \<Longrightarrow> e_st e' = e_st e \<Longrightarrow> node_ok I e' n = node_ok I e n"
  by (simp add: node_ok_def)

lemma node_ok_connect: "node_ok I e n \<Longrightarrow> node_ok I e (connect_initial e' a n)"
  by (auto simp: connect_initial_def node_ok_def intro: bar_ok_AddPeer split: prod.split option.split)

lemma process_run_ok:
  assumes "process_run e n0 n" "reliable_store (e_st e) I" "node_ok I e n0"
  shows "node_ok I e n"
  using assms
proof (induction rule: process_run.induct)
  case (process_request n e' r fuel hv gs resp n' gs')
  then have "node_ok I e' n" by (simp add: node_ok_env [of e' e])
  from request_ok_serve [OF this process_request.hyps(5,4)] have "node_ok I e' n'" by (simp add: request_ok_def)
  then show ?case using process_request.hyps(2,3) by (simp add: node_ok_env [of e' e])
qed (auto intro: node_run_ok node_ok_connect)

section \<open>Properties\<close>

text \<open>
  C34: The API server and the node do not disturb each other.  In a process created on sound stores, after
  any interleaving of messages, ticks, goroutines, connections and requests, the node's data is
  consistent: peers are in one list only, the pool maps hashes to their transactions, the Merkle trie
  agrees with the accounts, the registry holds validators only.  No request but the
  POST to \<^verbatim>\<open>/shutdown\<close> runs a hook, crashes the node or changes its chain, its registry, its committee, its
  pending blocks or its peers, and a request that is not a POST changes metrics only.
\<close>

theorem process_keeps_invariant:
  assumes "reliable_store (e_st e) I" "I chainStore" "I validatorStore"
    and "NewAppNodeWithStores e p2p seed privKey chainStore validatorStore = Inr n0" and "process_run e n0 n"
    and "serve fuel e hv gs n r = Some (resp, n', gs')" and "rq_Path r = ''/shutdown'' \<longrightarrow> rq_Method r \<noteq> ''POST''"
  shows "bar_ok (n_barNet n) \<and> pool_ok (n_txPool n) \<and> state_ok (e_cr e) (n_state n) \<and> reg_ok (e_st e) I (n_vr n) \<and>
    gs' = gs \<and> (\<exists>m. n' = Some m \<and> kept_by_requests n m \<and> pool_ok (n_txPool m) \<and> state_ok (e_cr e) (n_state m)) \<and>
    (rq_Method r \<noteq> ''POST'' \<longrightarrow> (\<exists>mc. n' = Some (n\<lparr>n_metrics := mc\<rparr>)))"
proof -
  obtain bc p where bc: "NewBlockchain (e_cr e) (e_st e) chainStore = Inr bc" and p: "p2p = Some p"
    using assms(4) by (auto simp: NewAppNodeWithStores_def split: sum.splits prod.splits option.splits)
  obtain m where "NewAppNodeWithStores e p2p seed privKey chainStore validatorStore = Inr m" "node_ok I e m"
    unfolding p by (rule new_node [OF assms(1-3) bc])
  then have ok: "node_ok I e n" using process_run_ok [OF assms(5,1)] assms(4) by simp
  have "gs' = gs \<and> (\<exists>m. n' = Some m \<and> request_ok I e n m)"
    by (rule request_ok_serve [OF ok assms(6)]) (use assms(7) in blast)
  moreover have "\<exists>mc. n' = Some (n\<lparr>n_metrics := mc\<rparr>)" if "rq_Method r \<noteq> ''POST''"
    using assms(6) that serve_v1_reads [of fuel e hv n "r\<lparr>rq_Path := drop (length ''/api/v1'') (rq_Path r)\<rparr>"]
    by (auto simp: serve_def handleShutdown_def split: if_splits)
  ultimately show ?thesis using ok by (auto simp: request_ok_def node_ok_def)
qed

theorem process_keeps_invariant_witness:
  "\<exists>n resp m. NewAppNodeWithStores demo_env (Some demo_p2p) [] ''key'' NewMemoryStore NewMemoryStore = Inr n \<and>
     serve 0 demo_env demo_host NewGracefulShutdown n
       \<lparr>rq_Method = ''POST'', rq_Path = ''/api/v1/state/snapshot'', rq_Query = (\<lambda>_. []), rq_Body = ''[]''\<rparr> =
       Some (resp, Some m, NewGracefulShutdown) \<and> n_bc m = n_bc n"
proof -
  let ?r = "\<lparr>rq_Method = ''POST'', rq_Path = ''/api/v1/state/snapshot'', rq_Query = (\<lambda>_. []), rq_Body = ''[]''\<rparr>"
  have r: "reliable_store (e_st demo_env) MemoryStore_wf" using memory_store.reliable_store_axioms by simp
  have w: "MemoryStore_wf NewMemoryStore" by (simp add: MemoryStore_wf_def NewMemoryStore_def)
  obtain n where n: "NewAppNodeWithStores demo_env (Some demo_p2p) [] ''key'' NewMemoryStore NewMemoryStore = Inr n"
    by (rule demo_new_node)
  obtain resp n' gs' where s: "serve 0 demo_env demo_host NewGracefulShutdown n ?r = Some (resp, n', gs')"
    by (auto simp: serve_def serve_v1_def api_route_def exact_routes_def has_prefix_def split_beta)
  have "gs' = NewGracefulShutdown" "\<exists>m. n' = Some m \<and> n_bc m = n_bc n"
    using process_keeps_invariant [OF r w w n process_new s] by (auto simp: kept_by_requests_def core_def)
  then show ?thesis using n s by blast
qed

end
