(* ===== verification/Spec2Isabelle.thy ===== *)
theory Spec2Isabelle
  imports Node_Behaviour Consensus_Round Node_Services Network Metrics Fork_Choice Process_Invariant
begin

text \<open>
  A verification development for dyphira-chain, a delegated-proof-of-stake blockchain node in
  Go (\<^verbatim>\<open>src/*.go\<close>).

  \<^bold>\<open>The program and its theories.\<close>  A node keeps a chain of blocks, the accounts those blocks act on,
  a registry of validators and a pool of transactions; it elects a committee, proposes blocks
  in turn, collects approvals, and talks to its peers over a publish/subscribe network, to users over HTTP
  and a command line.  Each theory opens with what it models:

  \<^item> foundations: \<open>Prelude\<close> (bytes, 64-bit words, Go maps as association lists, collections of
    rules), \<open>Json\<close> (\<^verbatim>\<open>encoding/json\<close>, base64), \<open>Float64\<close> (IEEE-754 doubles over the
    rationals), \<open>Slice_Sort\<close> (\<^verbatim>\<open>sort.Slice\<close>), \<open>Countdown\<close> (loops over unsigned heights);
  \<^item> data: \<open>Types\<close> (\<^verbatim>\<open>types.go\<close>, the address functions of \<^verbatim>\<open>state.go\<close>), \<open>Storage\<close>
    (\<^verbatim>\<open>storage.go\<close>), \<open>Merkle_Trie\<close> (\<^verbatim>\<open>merkle_trie.go\<close>), \<open>Account_State\<close> (\<^verbatim>\<open>state.go\<close>),
    \<open>Validator_Registry\<close> (\<^verbatim>\<open>validator_registry.go\<close>), \<open>Blockchain\<close> (\<^verbatim>\<open>blockchain.go\<close>),
    \<open>Transaction_Pool\<close> (\<^verbatim>\<open>transaction_pool.go\<close>, \<^verbatim>\<open>transaction_batching.go\<close>);
  \<^item> consensus: \<open>Committee\<close> (\<^verbatim>\<open>committee.go\<close>), \<open>Block_Approval\<close> (\<^verbatim>\<open>block_approval.go\<close>),
    \<open>Fork_Choice\<close> (\<^verbatim>\<open>fork_choice.go\<close>);
  \<^item> network: \<open>P2p\<close> (\<^verbatim>\<open>p2p.go\<close>), \<open>Bar_Network\<close> (\<^verbatim>\<open>bar_network.go\<close>), \<open>Handshake\<close>
    (\<^verbatim>\<open>handshake.go\<close>), \<open>Inactivity\<close> (\<^verbatim>\<open>inactivity_monitor.go\<close>), \<open>Optimistic_Push\<close>
    (\<^verbatim>\<open>optimistic_push.go\<close>);
  \<^item> the node: \<open>Metrics\<close> (\<^verbatim>\<open>metrics.go\<close>), \<open>Node_Base\<close> and \<open>App_Node\<close> (\<^verbatim>\<open>node.go\<close>), \<open>Lifecycle\<close>
    (\<^verbatim>\<open>fast_sync.go\<close>, \<^verbatim>\<open>graceful_shutdown.go\<close>);
  \<^item> the process: \<open>Api\<close> (\<^verbatim>\<open>api.go\<close>), \<open>Cli\<close> (\<^verbatim>\<open>cli.go\<close>), \<open>Program\<close> (\<^verbatim>\<open>main.go\<close>);
  \<^item> theorems that span components: \<open>Node_Safety\<close>, \<open>Node_Invariant\<close>, \<open>Node_Behaviour\<close>,
    \<open>Consensus_Round\<close>, \<open>Node_Services\<close>, \<open>Network\<close>, \<open>Process_Invariant\<close>.

  \<^bold>\<open>How the code corresponds.\<close>  A struct is a record of the same name with the fields' names behind a
  short prefix, a method is a function of the same name on that record, and a method that
  changes its receiver returns it.  Errors are the datatype \<open>gerror\<close>; a result \<^verbatim>\<open>(T, error)\<close> is a sum, a
  panic or \<^verbatim>\<open>log.Fatal\<close> is \<open>None\<close> (in \<open>Program\<close>, \<open>stop\<close>).  64-bit integers are words and wrap.  Methods of the managers that reach the node through a pointer
  are functions on \<open>AppNode\<close>.  Goroutines that a handler starts are tasks of the node; timers and
  messages are inputs; \<open>node_input\<close> is one step of a node, \<open>net_step\<close> one of a network, \<open>process_event\<close> one of
  the process.

  \<^bold>\<open>Parameters.\<close>  Code outside the repository is an argument: cryptography (\<open>crypto\<close>), bbolt (\<open>bbolt\<close>),
  libp2p (\<open>libp2p\<close>), the store behind the \<^verbatim>\<open>Storage\<close> interface (\<open>Storage\<close>), Go's seeded permutations and the clock
  (\<open>env\<close>), the host and Go runtime the HTTP handlers look at (\<open>host\<close>), HTTP answers.  What a theorem needs of
  them is a hypothesis named for the documented behaviour: \<open>ecdsa_ok\<close>, \<open>bbolt_ok\<close>, \<open>collision_free\<close>, \<open>peer_ok\<close>,
  \<open>reliable_store\<close>; each is shown to hold for a concrete instance.

  \<^bold>\<open>Interfaces.\<close>  \<open>kv_store\<close> and \<open>reliable_store\<close> are what chain and registry rely on, interpreted for the
  in-memory store (the bbolt store satisfies the laws as long as its database does); \<open>account_map\<close> is the ledger's
  view of the trie; \<open>quorum_system\<close> the committee's approvals; \<open>comparator\<close> and \<open>keyed_comparator\<close>
  the orders given to \<^verbatim>\<open>sort.Slice\<close>; \<open>countdown\<close> the loops of the block explorers.

  \<^bold>\<open>What is shown.\<close>
  \<^item> Accounts and blocks: \<open>ApplyBlock\<close> refines a ledger of addresses, accounts for all money (fees and two kinds of lost values aside), and spends nonces in order; the value-plus-fee check wraps.  The Merkle root of a sequence of insertions determines their
    contents and is determined by them; snapshots and stored chains read back.
  \<^item> Consensus: elections are by weight and deterministic, the rotation covers an epoch, two approved blocks share
    signers, a chain grows only by quorum or by its own proposals; an honest round, from
    the proposer's tick over the votes to the finalization, ends with follower and proposer in agreement.  Approvals are not authenticated, production
    halts at the end of an epoch, and since a proposer does not vote, a committee of two or three finalizes nothing.
  \<^item> Pool: the answer to every submitted transaction, selection and batches.
  \<^item> Network: the peer lists stay consistent, bans are permanent, peer selection ends; honest pings get a
    peer banned, no node ever whitelists another, and reports of inactive peers demote any peer.
  \<^item> Node: the data invariant is kept by every input, the inputs that crash a node are exactly two kinds, restarting recovers the chain and forgets the ledger, block
    synchronization transfers blocks, registrations mint.
  \<^item> Process: the data invariant is also kept when requests and node steps interleave, and read requests change metrics only; a transfer from the command line reaches the pools of
    the others and one from HTTP does not; history requests on short chains do not end; fast
    synchronization believes whoever answers and cannot succeed against this program; a second shutdown panics.

  \<^bold>\<open>Bounds and fuel.\<close>  Recursion over data is structural or has a termination proof.  Fuel is used where
  a loop of the source may not end: the JSON reader (its length suffices, \<open>parse_print_json\<close>), the history loops
  (102 iterations suffice above 100 blocks, and nothing below), the loop of \<^verbatim>\<open>cmdBlocks\<close>, and the
  block loop of the fast synchronization (one iteration per missing block and one more), and the
  probing of \<^verbatim>\<open>FindNodes\<close> (one more than the number of peers suffices).

  \<^bold>\<open>Not modelled.\<close>  Log lines, mutexes and data races between goroutines (a handler runs to its end); the HTTP listener and its
  redirections; parsing of flags; the removal of the old database file; block synchronization in the last four heights below 2 to the 64; white
  space outside ASCII on the command line.  Of \<^verbatim>\<open>encoding/json\<close>: numbers with a fraction or exponent in messages and stored
  values; strings that are not UTF-8; a member that an object has twice; the difference between a nil and an empty
  slice (the blocks this program makes have nil slices where they are empty); null validators in a block.  A null transaction ends
  the process when its block is finalized, as in the code; the HTTP handlers and commands that read a stored
  block see the transactions before it, where the code panics.  Peer scores are unbounded integers, and the
  leftover slots of a rotation are counted without the sign of Go's \<^verbatim>\<open>int\<close>, which matters for scores and epochs of 2 to the 63 only.
  Test files and shell scripts are left aside.
\<close>

end
